(* ===== verification/Prelude.thy ===== *)
theory Prelude
  imports Main "HOL-Library.Word"
begin

text \<open>
  The prelude of the development: the model of JavaScript strings, the collection
  \<open>js_lit\<close> that evaluates string literals, and the generic lemmas on lists, options and sums
  that the component theories share.

  A JavaScript string is a sequence of UTF-16 code units, so it is a list of 16-bit words:
  \<open>length\<close> counts code units as the source's \<open>.length\<close> does, and nothing assumes that the
  units form valid code points. \<open>js ''abc''\<close> is the string of an ASCII literal; a literal with
  accents is written with its code units in between.
\<close>

section \<open>Strings as code units\<close>

type_synonym jschar = "16 word"
type_synonym jsstring = "jschar list"
type_synonym byte = "8 word"

named_theorems js_lit "equations that evaluate string literals and character classes"

definition js :: "string \<Rightarrow> jsstring" where
  [js_lit]: "js s = map of_char s"

lemma js_Nil [simp]: "js [] = []"
  by (simp add: js_def)

lemma js_append: "js (s @ t) = js s @ js t"
  by (simp add: js_def)

lemma js_eq_Nil [simp]: "js s = [] \<longleftrightarrow> s = []" "[] = js s \<longleftrightarrow> s = []"
  by (simp_all add: js_def)

lemma length_js [simp]: "length (js s) = length s"
  by (simp add: js_def)

lemma unat_of_char: "unat (of_char c :: jschar) = of_char c"
proof -
  have "(of_char c :: nat) < 65536" by (rule less_trans [OF nat_of_char_less_256]) simp
  then have "unat (of_nat (of_char c) :: jschar) = of_char c" by (simp add: unat_of_nat)
  then show ?thesis by (simp only: of_nat_of_char)
qed

lemma js_inj: "js s = js t \<longleftrightarrow> s = t"
proof -
  have "inj (of_char :: char \<Rightarrow> jschar)"
  proof (rule injI)
    fix c d :: char
    assume "(of_char c :: jschar) = of_char d"
    then have "(of_char c :: nat) = of_char d" using unat_of_char by metis
    then show "c = d" by (simp only: of_char_eq_iff)
  qed
  then show ?thesis by (simp add: js_def inj_map_eq_map)
qed

section \<open>Prefixes\<close>

text \<open>\<open>s.startsWith(p)\<close>.\<close>

definition starts_with :: "'a list \<Rightarrow> 'a list \<Rightarrow> bool" where
  [js_lit]: "starts_with p s \<longleftrightarrow> take (length p) s = p"

lemma starts_with_append [simp]: "starts_with p (p @ s)"
  by (simp add: starts_with_def)

lemma starts_with_iff: "starts_with p s \<longleftrightarrow> (\<exists>t. s = p @ t)"
  by (metis append_eq_conv_conj append_take_drop_id starts_with_def)

lemma starts_with_length: "starts_with p s \<Longrightarrow> length p \<le> length s"
  by (auto simp: starts_with_iff)

section \<open>Duplicate-free lists\<close>

text \<open>
  \<open>[...new Set(xs)]\<close> keeps the first occurrence of every element, in order.
\<close>

fun dedup :: "'a list \<Rightarrow> 'a list" where
  "dedup [] = []"
| "dedup (x # xs) = x # filter (\<lambda>y. y \<noteq> x) (dedup xs)"

lemma set_dedup [simp]: "set (dedup xs) = set xs"
  by (induction xs) auto

lemma distinct_dedup [simp]: "distinct (dedup xs)"
  by (induction xs) auto

lemma dedup_distinct [simp]: "distinct xs \<Longrightarrow> dedup xs = xs"
  by (induction xs) (auto intro!: filter_True)

lemma length_dedup: "length (dedup xs) \<le> length xs"
proof (induction xs)
  case (Cons x xs)
  have "length (filter (\<lambda>y. y \<noteq> x) (dedup xs)) \<le> length (dedup xs)"
    by (rule length_filter_le)
  also have "\<dots> \<le> length xs"
    by (rule Cons.IH)
  finally show ?case by simp
qed simp

lemma filter_length_eq: "length (filter P xs) = length xs \<longleftrightarrow> filter P xs = xs"
proof
  assume len: "length (filter P xs) = length xs"
  then have "\<forall>x \<in> set xs. P x"
    by (metis length_filter_less linorder_not_less order_refl)
  then show "filter P xs = xs" by (rule filter_True)
qed simp

section \<open>Objects and maps\<close>

text \<open>Setting a property of an object, or an entry of a \<open>Map\<close>: in place, or at the end.\<close>

fun put :: "'k \<Rightarrow> 'v \<Rightarrow> ('k \<times> 'v) list \<Rightarrow> ('k \<times> 'v) list" where
  "put k v [] = [(k, v)]"
| "put k v ((k', v') # ps) = (if k' = k then (k, v) # ps else (k', v') # put k v ps)"

text \<open>\<open>put\<close> is the update of a map: it keeps the keys distinct.\<close>

lemma map_of_put: "map_of (put k v ps) = (map_of ps)(k \<mapsto> v)"
  by (induction ps) (auto simp: fun_eq_iff)

lemma keys_put: "fst ` set (put k v ps) = insert k (fst ` set ps)"
  by (induction k v ps rule: put.induct) (simp_all add: insert_commute)

lemma distinct_put: "distinct (map fst ps) \<Longrightarrow> distinct (map fst (put k v ps))"
proof (induction ps)
  case (Cons p ps)
  have "fst p \<notin> fst ` set (put k v ps)" if "fst p \<noteq> k"
    using Cons.prems that by (simp add: keys_put)
  with Cons show ?case by (cases p) auto
qed simp

lemma values_put: "(a, b) \<in> set (put k v ps) \<Longrightarrow> (a, b) = (k, v) \<or> (a, b) \<in> set ps"
  by (induction ps) (auto split: if_splits)

section \<open>Options and results\<close>

text \<open>\<open>a ?? b\<close> on an optional value.\<close>

definition or_else :: "'a option \<Rightarrow> 'a \<Rightarrow> 'a" where
  [simp]: "or_else v d = (case v of None \<Rightarrow> d | Some x \<Rightarrow> x)"

text \<open>A result is \<open>Inl\<close> of the thrown error or \<open>Inr\<close> of the returned value.\<close>

definition bind_result :: "'e + 'a \<Rightarrow> ('a \<Rightarrow> 'e + 'b) \<Rightarrow> 'e + 'b" where
  "bind_result r f = (case r of Inl e \<Rightarrow> Inl e | Inr x \<Rightarrow> f x)"

lemma bind_result_simps [simp]:
  "bind_result (Inl e) f = Inl e"
  "bind_result (Inr x) f = f x"
  by (simp_all add: bind_result_def)

lemma bind_result_Inr: "bind_result r f = Inr y \<longleftrightarrow> (\<exists>x. r = Inr x \<and> f x = Inr y)"
  by (cases r) auto

lemma bind_result_Inl: "bind_result r f = Inl e \<longleftrightarrow> r = Inl e \<or> (\<exists>x. r = Inr x \<and> f x = Inl e)"
  by (cases r) auto

section \<open>Event-driven components\<close>

text \<open>
  A component that reacts to events is a total step function; a run folds it over the events in
  the order they happen. The contract every such component gives its users: an invariant each
  event keeps holds after every run. Each component interprets this locale on its own step
  function, and its safety properties rest on the interpretation's facts.
\<close>

locale event_machine =
  fixes step :: "'s \<Rightarrow> 'e \<Rightarrow> 's"
    and inv :: "'s \<Rightarrow> bool"
  assumes step_inv: "inv s \<Longrightarrow> inv (step s e)"
begin

lemma run_inv: "inv s \<Longrightarrow> inv (foldl step s es)"
  by (induction es arbitrary: s) (auto intro: step_inv)

text \<open>Every intermediate state of a run satisfies the invariant too.\<close>

lemma run_prefix_inv: "inv s \<Longrightarrow> inv (foldl step s (take n es))"
  by (rule run_inv)

text \<open>A fact that each step keeps under the invariant is kept by a run.\<close>

lemma run_keeps:
  assumes "inv s" "P s" and keep: "\<And>s e. inv s \<Longrightarrow> P s \<Longrightarrow> P (step s e)"
  shows "P (foldl step s es)"
  using assms(1,2)
  by (induction es arbitrary: s) (auto intro: step_inv keep)

end

end
