(* ===== verification/JsNumber.thy ===== *)
theory JsNumber
  imports Complex_Main Prelude "HOL-Library.Log_Nat"
begin

text \<open>
  JavaScript numbers. A number is \<open>NaN\<close>, an infinity, or a finite value, kept as the rational it
  denotes; every arithmetic operation computes the exact rational and rounds it to the nearest
  IEEE 754 binary64 value, ties to even, with gradual underflow and overflow to infinity
  (\<open>fl\<close>). The two zeros are identified: none of the modelled code tells them apart.

  The lemmas are the facts the components use: rounding is monotone (\<open>fl_rat_mono\<close>), exact on
  integers up to \<open>2 ^ 53\<close> (\<open>fl_rat_int\<close>) and keeps the sign.
\<close>

section \<open>Rounding to binary64\<close>

definition ilog2 :: "rat \<Rightarrow> int" where
  "ilog2 q = (case quotient_of q of (a, b) \<Rightarrow>
     (let l = bitlen a - bitlen b in if 2 powi l \<le> q then l else l - 1))"

definition round_half_even :: "rat \<Rightarrow> int" where
  "round_half_even x =
     (let n = \<lfloor>x\<rfloor>; d = x - of_int n in
      if d < 1 / 2 then n else if 1 / 2 < d then n + 1 else if even n then n else n + 1)"

text \<open>The exponent of the last place of a positive value, and its rounding.\<close>

definition ulp_exp :: "rat \<Rightarrow> int" where
  "ulp_exp q = max (-1074) (ilog2 q - 52)"

definition fl_pos :: "rat \<Rightarrow> rat" where
  "fl_pos q = of_int (round_half_even (q / 2 powi ulp_exp q)) * 2 powi ulp_exp q"

definition fl_rat :: "rat \<Rightarrow> rat" where
  "fl_rat q = (if q = 0 then 0 else if 0 < q then fl_pos q else - fl_pos (- q))"

datatype jsnum = NaN | PInf | NInf | Fin rat

definition fl :: "rat \<Rightarrow> jsnum" where
  "fl q = (let r = fl_rat q in if 2 ^ 1024 \<le> r then PInf else if r \<le> - (2 ^ 1024) then NInf else Fin r)"

section \<open>Operations\<close>

definition num_of_int :: "int \<Rightarrow> jsnum" where
  "num_of_int n = fl (of_int n)"

fun jneg :: "jsnum \<Rightarrow> jsnum" where
  "jneg NaN = NaN"
| "jneg PInf = NInf"
| "jneg NInf = PInf"
| "jneg (Fin a) = Fin (- a)"

fun jadd :: "jsnum \<Rightarrow> jsnum \<Rightarrow> jsnum" where
  "jadd (Fin a) (Fin b) = fl (a + b)"
| "jadd NaN _ = NaN"
| "jadd _ NaN = NaN"
| "jadd PInf NInf = NaN"
| "jadd NInf PInf = NaN"
| "jadd PInf _ = PInf"
| "jadd _ PInf = PInf"
| "jadd NInf _ = NInf"
| "jadd _ NInf = NInf"

definition jsub :: "jsnum \<Rightarrow> jsnum \<Rightarrow> jsnum" where
  "jsub x y = jadd x (jneg y)"

text \<open>The infinity with the sign of \<open>q\<close>, or \<open>NaN\<close> for zero: \<open>Infinity * q\<close> and \<open>q / 0\<close>.\<close>

definition signed_inf :: "rat \<Rightarrow> jsnum" where
  "signed_inf q = (if q = 0 then NaN else if 0 < q then PInf else NInf)"

fun jmul :: "jsnum \<Rightarrow> jsnum \<Rightarrow> jsnum" where
  "jmul (Fin a) (Fin b) = fl (a * b)"
| "jmul NaN _ = NaN"
| "jmul _ NaN = NaN"
| "jmul PInf (Fin b) = signed_inf b"
| "jmul NInf (Fin b) = signed_inf (- b)"
| "jmul (Fin a) PInf = signed_inf a"
| "jmul (Fin a) NInf = signed_inf (- a)"
| "jmul PInf PInf = PInf"
| "jmul NInf NInf = PInf"
| "jmul PInf NInf = NInf"
| "jmul NInf PInf = NInf"

fun jdiv :: "jsnum \<Rightarrow> jsnum \<Rightarrow> jsnum" where
  "jdiv (Fin a) (Fin b) = (if b = 0 then signed_inf a else fl (a / b))"
| "jdiv NaN _ = NaN"
| "jdiv _ NaN = NaN"
| "jdiv (Fin a) _ = Fin 0"
| "jdiv PInf (Fin b) = (if b < 0 then NInf else PInf)"
| "jdiv NInf (Fin b) = (if b < 0 then PInf else NInf)"
| "jdiv _ _ = NaN"

text \<open>Every comparison with \<open>NaN\<close> is false.\<close>

fun jle :: "jsnum \<Rightarrow> jsnum \<Rightarrow> bool" where
  "jle NaN _ = False"
| "jle _ NaN = False"
| "jle NInf _ = True"
| "jle _ PInf = True"
| "jle (Fin a) (Fin b) = (a \<le> b)"
| "jle _ _ = False"

definition jlt :: "jsnum \<Rightarrow> jsnum \<Rightarrow> bool" where
  "jlt x y \<longleftrightarrow> jle x y \<and> \<not> jle y x"

definition jeq :: "jsnum \<Rightarrow> jsnum \<Rightarrow> bool" where
  "jeq x y \<longleftrightarrow> x \<noteq> NaN \<and> x = y"

definition jmax :: "jsnum \<Rightarrow> jsnum \<Rightarrow> jsnum" where
  "jmax x y = (if x = NaN \<or> y = NaN then NaN else if jle x y then y else x)"

definition jmin :: "jsnum \<Rightarrow> jsnum \<Rightarrow> jsnum" where
  "jmin x y = (if x = NaN \<or> y = NaN then NaN else if jle x y then x else y)"

definition jabs :: "jsnum \<Rightarrow> jsnum" where
  "jabs x = (if jlt x (Fin 0) then jneg x else x)"

fun jfloor :: "jsnum \<Rightarrow> jsnum" where
  "jfloor (Fin a) = Fin (of_int \<lfloor>a\<rfloor>)"
| "jfloor x = x"

text \<open>\<open>Math.round\<close>: the nearest integer, halves towards plus infinity.\<close>

fun jround :: "jsnum \<Rightarrow> jsnum" where
  "jround (Fin a) = Fin (of_int \<lfloor>a + 1 / 2\<rfloor>)"
| "jround x = x"

fun is_finite :: "jsnum \<Rightarrow> bool" where
  "is_finite (Fin _) = True"
| "is_finite _ = False"

fun is_integer :: "jsnum \<Rightarrow> bool" where
  "is_integer (Fin a) = (of_int \<lfloor>a\<rfloor> = a)"
| "is_integer _ = False"

fun is_safe_integer :: "jsnum \<Rightarrow> bool" where
  "is_safe_integer (Fin a) = (of_int \<lfloor>a\<rfloor> = a \<and> \<bar>a\<bar> \<le> 2 ^ 53 - 1)"
| "is_safe_integer _ = False"

section \<open>Comparisons\<close>

lemma jle_Fin [simp]: "jle (Fin a) (Fin b) \<longleftrightarrow> a \<le> b"
  by simp

lemma jlt_simps [simp]:
  "jlt (Fin a) (Fin b) \<longleftrightarrow> a < b"
  "\<not> jlt NaN x" "\<not> jlt x NaN"
  "jlt NInf (Fin a)" "jlt (Fin a) PInf" "\<not> jlt (Fin a) NInf" "\<not> jlt PInf (Fin a)"
  by (cases x; auto simp: jlt_def)+

lemma jeq_Fin [simp]: "jeq (Fin a) (Fin b) \<longleftrightarrow> a = b"
  by (simp add: jeq_def)

lemma jle_trans: "jle x y \<Longrightarrow> jle y z \<Longrightarrow> jle x z"
  by (cases x; cases y; cases z) auto

lemma jle_refl: "x \<noteq> NaN \<Longrightarrow> jle x x"
  by (cases x) auto

lemma jle_jmax2 [simp]: "jle x (jmax y x) \<longleftrightarrow> x \<noteq> NaN \<and> y \<noteq> NaN"
  by (cases x; cases y) (auto simp: jmax_def)

lemma jle_jmax1 [simp]: "jle y (jmax y x) \<longleftrightarrow> x \<noteq> NaN \<and> y \<noteq> NaN"
  by (cases x; cases y) (auto simp: jmax_def)

lemma jmax_Fin [simp]: "jmax (Fin a) (Fin b) = Fin (max a b)"
  by (auto simp: jmax_def max_def)

lemma jmin_Fin [simp]: "jmin (Fin a) (Fin b) = Fin (min a b)"
  by (auto simp: jmin_def min_def)

section \<open>The binary logarithm\<close>

lemma bitlen_pow_bounds:
  fixes x :: int
  assumes "0 < x"
  shows "2 powi (bitlen x - 1) \<le> (rat_of_int x)" and "(rat_of_int x) < 2 powi (bitlen x)"
proof -
  have pos: "0 < bitlen x" using assms bitlen_nonneg [of x] bitlen_eq_zero_iff [of x] by linarith
  have "2 ^ nat (bitlen x - 1) \<le> x \<and> x < 2 ^ nat (bitlen x)"
    using assms by (rule bitlen_bounds)
  then have "rat_of_int (2 ^ nat (bitlen x - 1)) \<le> of_int x \<and> rat_of_int x < of_int (2 ^ nat (bitlen x))"
    by (simp only: of_int_le_iff of_int_less_iff)
  with pos show "2 powi (bitlen x - 1) \<le> (rat_of_int x)" and "(rat_of_int x) < 2 powi (bitlen x)"
    by (simp_all add: power_int_def)
qed

lemma two_powi_pos [simp]: "0 < (2::rat) powi k"
  by simp

lemma two_powi_mono: "k \<le> l \<Longrightarrow> (2::rat) powi k \<le> 2 powi l"
  by (rule power_int_increasing) simp_all

lemma two_powi_less_cancel: "(2::rat) powi k < 2 powi l \<Longrightarrow> k < l"
  by (meson not_less two_powi_mono)

lemma two_powi_add: "(2::rat) powi (k + l) = 2 powi k * 2 powi l"
  by (rule power_int_add) simp

lemma two_powi_Suc: "(2::rat) powi (k + 1) = 2 * 2 powi k"
  by (simp add: two_powi_add)

lemma ilog2_bounds:
  assumes "0 < q"
  shows "2 powi ilog2 q \<le> q" and "q < 2 powi (ilog2 q + 1)"
proof -
  obtain a b where ab: "quotient_of q = (a, b)" by force
  then have b: "0 < b" by (rule quotient_of_denom_pos)
  from ab have q: "q = of_int a / of_int b" by (rule quotient_of_div)
  with assms b have a: "0 < a"
    by (simp add: zero_less_divide_iff)
  define la lb where "la = bitlen a" and "lb = bitlen b"
  have A: "2 powi (la - 1) \<le> (rat_of_int a)" "(rat_of_int a) < 2 powi la"
    using bitlen_pow_bounds [OF a] by (simp_all add: la_def)
  have B: "2 powi (lb - 1) \<le> (rat_of_int b)" "(rat_of_int b) < 2 powi lb"
    using bitlen_pow_bounds [OF b] by (simp_all add: lb_def)
  have lo: "2 powi (la - lb - 1) \<le> q"
  proof -
    have "2 powi (la - lb - 1) * (rat_of_int b) \<le> 2 powi (la - lb - 1) * 2 powi lb"
      using B by (intro mult_left_mono) simp_all
    also have "\<dots> = (2::rat) powi (la - 1)"
      by (simp flip: two_powi_add)
    finally show ?thesis using A b q by (simp add: pos_le_divide_eq)
  qed
  have hi: "q < 2 powi (la - lb + 1)"
  proof -
    have "(rat_of_int a) < 2 powi (la - lb + 1) * 2 powi (lb - 1)"
      using A by (simp flip: two_powi_add)
    also have "\<dots> \<le> 2 powi (la - lb + 1) * (rat_of_int b)"
      using B by (intro mult_left_mono) simp_all
    finally show ?thesis using b q by (simp add: pos_divide_less_eq)
  qed
  have "ilog2 q = (if 2 powi (la - lb) \<le> q then la - lb else la - lb - 1)"
    by (simp add: ilog2_def ab la_def lb_def)
  with lo hi show "2 powi ilog2 q \<le> q" and "q < 2 powi (ilog2 q + 1)"
    by (auto split: if_splits)
qed

lemma ilog2_mono:
  assumes "0 < p" "p \<le> q"
  shows "ilog2 p \<le> ilog2 q"
proof -
  have "2 powi ilog2 p \<le> p" using assms by (simp add: ilog2_bounds)
  also have "\<dots> \<le> q" by fact
  also have "\<dots> < 2 powi (ilog2 q + 1)" using assms by (simp add: ilog2_bounds)
  finally show ?thesis using two_powi_less_cancel by fastforce
qed

section \<open>Rounding is monotone and exact on integers\<close>

lemma round_half_even_mono:
  assumes "x \<le> y"
  shows "round_half_even x \<le> round_half_even y"
proof (cases "\<lfloor>x\<rfloor> = \<lfloor>y\<rfloor>")
  case True
  with assms show ?thesis by (auto simp: round_half_even_def Let_def)
next
  case False
  with floor_mono [OF assms] have "\<lfloor>x\<rfloor> + 1 \<le> \<lfloor>y\<rfloor>" by simp
  moreover have "round_half_even x \<le> \<lfloor>x\<rfloor> + 1" "\<lfloor>y\<rfloor> \<le> round_half_even y"
    by (auto simp: round_half_even_def Let_def)
  ultimately show ?thesis by linarith
qed

lemma round_half_even_int [simp]: "round_half_even (of_int n) = n"
  by (simp add: round_half_even_def)

lemma round_half_even_power [simp]: "round_half_even (2 ^ k) = 2 ^ k"
  using round_half_even_int [of "2 ^ k"] by simp

lemma fl_pos_nonneg: "0 < q \<Longrightarrow> 0 \<le> fl_pos q"
proof -
  assume "0 < q"
  then have "0 \<le> q / 2 powi ulp_exp q" by simp
  then have "round_half_even 0 \<le> round_half_even (q / 2 powi ulp_exp q)"
    by (rule round_half_even_mono)
  then show ?thesis
    using round_half_even_int [of 0] by (simp add: fl_pos_def)
qed

lemma fl_pos_le_next:
  assumes "0 < q"
  shows "fl_pos q \<le> 2 powi (ulp_exp q + 53)"
proof -
  have "q < 2 powi (ilog2 q + 1)" using assms by (rule ilog2_bounds)
  also have "\<dots> \<le> 2 powi (ulp_exp q + 53)"
    by (rule two_powi_mono) (simp add: ulp_exp_def)
  also have "\<dots> = 2 ^ 53 * 2 powi ulp_exp q"
    by (simp add: two_powi_add)
  finally have "q / 2 powi ulp_exp q \<le> 2 ^ 53" by (simp add: pos_divide_le_eq)
  then have "round_half_even (q / 2 powi ulp_exp q) \<le> round_half_even (2 ^ 53)"
    by (rule round_half_even_mono)
  then have "round_half_even (q / 2 powi ulp_exp q) \<le> 2 ^ 53"
    by (simp only: round_half_even_power)
  then have "rat_of_int (round_half_even (q / 2 powi ulp_exp q)) \<le> of_int (2 ^ 53)"
    by (simp only: of_int_le_iff)
  then have "of_int (round_half_even (q / 2 powi ulp_exp q)) * 2 powi ulp_exp q
      \<le> (2 ^ 53 :: rat) * 2 powi ulp_exp q"
    by (intro mult_right_mono) simp_all
  then show ?thesis by (simp add: fl_pos_def two_powi_add)
qed

lemma fl_pos_ge_binade:
  assumes "0 < q" "ulp_exp q \<noteq> -1074"
  shows "2 powi (ulp_exp q + 52) \<le> fl_pos q"
proof -
  have e: "ulp_exp q + 52 = ilog2 q" using assms by (simp add: ulp_exp_def max_def split: if_splits)
  have "2 ^ 52 * 2 powi ulp_exp q = (2::rat) powi (ulp_exp q + 52)"
    by (simp add: two_powi_add)
  also have "\<dots> \<le> q" using assms by (simp add: e ilog2_bounds)
  finally have "2 ^ 52 \<le> q / 2 powi ulp_exp q" by (simp add: pos_le_divide_eq)
  then have "round_half_even (2 ^ 52) \<le> round_half_even (q / 2 powi ulp_exp q)"
    by (rule round_half_even_mono)
  then have "2 ^ 52 \<le> round_half_even (q / 2 powi ulp_exp q)"
    by (simp only: round_half_even_power)
  then have "rat_of_int (2 ^ 52) \<le> of_int (round_half_even (q / 2 powi ulp_exp q))"
    by (simp only: of_int_le_iff)
  then have "(2 ^ 52 :: rat) * 2 powi ulp_exp q
      \<le> of_int (round_half_even (q / 2 powi ulp_exp q)) * 2 powi ulp_exp q"
    by (intro mult_right_mono) simp_all
  then show ?thesis by (simp add: fl_pos_def two_powi_add)
qed

lemma fl_pos_mono:
  assumes "0 < p" "p \<le> q"
  shows "fl_pos p \<le> fl_pos q"
proof (cases "ulp_exp p = ulp_exp q")
  case True
  have "p / 2 powi ulp_exp q \<le> q / 2 powi ulp_exp q"
    using assms by (simp add: divide_right_mono)
  then have "round_half_even (p / 2 powi ulp_exp q) \<le> round_half_even (q / 2 powi ulp_exp q)"
    by (rule round_half_even_mono)
  then show ?thesis by (simp add: fl_pos_def True)
next
  case False
  have "ulp_exp p \<le> ulp_exp q"
    using ilog2_mono [OF assms] by (simp add: ulp_exp_def)
  with False have less: "ulp_exp p + 1 \<le> ulp_exp q" by simp
  have q: "0 < q" using assms by simp
  have "-1074 \<le> ulp_exp p" by (simp add: ulp_exp_def)
  with less have "ulp_exp q \<noteq> -1074" by simp
  have "fl_pos p \<le> 2 powi (ulp_exp p + 53)" using assms(1) by (rule fl_pos_le_next)
  also have "\<dots> \<le> 2 powi (ulp_exp q + 52)" by (rule two_powi_mono) (use less in simp)
  also have "\<dots> \<le> fl_pos q" using q \<open>ulp_exp q \<noteq> -1074\<close> by (rule fl_pos_ge_binade)
  finally show ?thesis .
qed

lemma fl_rat_mono: "p \<le> q \<Longrightarrow> fl_rat p \<le> fl_rat q"
  using fl_pos_mono [of p q] fl_pos_mono [of "- q" "- p"] fl_pos_nonneg [of "- p"] fl_pos_nonneg [of q]
  by (auto simp: fl_rat_def)

lemma fl_rat_zero [simp]: "fl_rat 0 = 0"
  by (simp add: fl_rat_def)

lemma fl_rat_nonneg: "0 \<le> q \<Longrightarrow> 0 \<le> fl_rat q"
  using fl_rat_mono [of 0 q] by simp

lemma fl_pos_int:
  assumes "0 < n" "n \<le> 2 ^ 53"
  shows "fl_pos (of_int n) = of_int n"
proof -
  define e where "e = ulp_exp (of_int n)"
  have "2 powi ilog2 (rat_of_int n) \<le> rat_of_int n"
    using assms by (simp add: ilog2_bounds)
  also have "\<dots> \<le> rat_of_int (2 ^ 53)"
    using assms by (simp only: of_int_le_iff)
  also have "\<dots> = 2 powi 53" by simp
  also have "\<dots> < 2 powi 54" by simp
  finally have small: "ilog2 (of_int n) < 54" by (rule two_powi_less_cancel)
  show ?thesis
  proof (cases "e \<le> 0")
    case True
    then have scaled: "of_int n / 2 powi e = rat_of_int (n * 2 ^ nat (- e))"
      by (simp add: power_int_def field_simps)
    have "fl_pos (of_int n) = of_int (round_half_even (rat_of_int (n * 2 ^ nat (- e)))) * 2 powi e"
      by (simp only: fl_pos_def e_def [symmetric] scaled)
    also have "\<dots> = of_int (n * 2 ^ nat (- e)) * 2 powi e"
      by (simp only: round_half_even_int)
    also have "\<dots> = of_int n"
      by (simp only: scaled [symmetric]) simp
    finally show ?thesis .
  next
    case False
    with small have e1: "e = 1" and top: "ilog2 (of_int n) = 53"
      by (auto simp: e_def ulp_exp_def)
    have "2 powi 53 \<le> rat_of_int n"
      using ilog2_bounds(1) [of "of_int n"] assms top by simp
    then have "rat_of_int (2 ^ 53) \<le> of_int n" by simp
    then have n: "n = 2 ^ 53" using assms by (simp only: of_int_le_iff)
    have "fl_pos (of_int n) = of_int (round_half_even (of_int n / 2)) * 2"
      by (simp add: fl_pos_def e_def [symmetric] e1)
    also have "rat_of_int n / 2 = 2 ^ 52" by (simp add: n)
    finally show ?thesis by (simp only: round_half_even_power) (simp add: n)
  qed
qed

lemma fl_rat_int: "\<bar>n\<bar> \<le> 2 ^ 53 \<Longrightarrow> fl_rat (of_int n) = of_int n"
  using fl_pos_int [of n] fl_pos_int [of "- n"] by (auto simp: fl_rat_def)

lemma fl_nonneg: "0 \<le> q \<Longrightarrow> jle (Fin 0) (fl q)"
  using fl_rat_nonneg [of q] by (auto simp: fl_def Let_def)

lemma fl_mono: "p \<le> q \<Longrightarrow> jle (fl p) (fl q)"
  using fl_rat_mono [of p q] by (auto simp: fl_def Let_def)

lemma fl_neq_NaN [simp]: "fl q \<noteq> NaN"
  by (simp add: fl_def Let_def)

text \<open>Integers up to \<open>2 ^ 53\<close> are exact.\<close>

definition exact_int :: "int \<Rightarrow> bool" where
  "exact_int n \<longleftrightarrow> \<bar>n\<bar> \<le> 2 ^ 53"

lemma fl_exact_int: "exact_int n \<Longrightarrow> fl (of_int n) = Fin (of_int n)"
proof -
  assume n: "exact_int n"
  then have "- (2 ^ 53) \<le> n" "n \<le> 2 ^ 53" by (simp_all add: exact_int_def)
  then have "rat_of_int (- (2 ^ 53)) \<le> of_int n" "rat_of_int n \<le> of_int (2 ^ 53)"
    by (simp_all only: of_int_le_iff)
  moreover have "rat_of_int (2 ^ 53) < 2 ^ 1024" "- (2 ^ 1024) < rat_of_int (- (2 ^ 53))"
    by simp_all
  ultimately have "\<not> 2 ^ 1024 \<le> rat_of_int n" "\<not> rat_of_int n \<le> - (2 ^ 1024)"
    by linarith+
  with n show ?thesis by (simp add: fl_def fl_rat_int exact_int_def)
qed

lemma fl_int: "\<bar>n\<bar> \<le> 9007199254740992 \<Longrightarrow> fl (of_int n) = Fin (of_int n)"
  using fl_exact_int [of n] by (simp add: exact_int_def)

lemma fl_zero [simp]: "fl 0 = Fin 0"
  using fl_int [of 0] by simp

lemma fl_one [simp]: "fl 1 = Fin 1"
  using fl_int [of 1] by simp

lemma fl_numeral:
  "(numeral n :: int) \<le> 9007199254740992 \<Longrightarrow> fl (numeral n) = Fin (numeral n)"
  using fl_int [of "numeral n"] by simp

lemma fl_nat: "n \<le> 9007199254740992 \<Longrightarrow> fl (of_nat n) = Fin (of_nat n)"
  using fl_int [of "int n"] by simp

lemma num_of_int_exact: "exact_int n \<Longrightarrow> num_of_int n = Fin (of_int n)"
  by (simp add: num_of_int_def fl_exact_int)

lemma jadd_int:
  "exact_int (m + n) \<Longrightarrow> jadd (Fin (of_int m)) (Fin (of_int n)) = Fin (of_int (m + n))"
  using fl_exact_int [of "m + n"] by simp

lemma jsub_int:
  "exact_int (m - n) \<Longrightarrow> jsub (Fin (of_int m)) (Fin (of_int n)) = Fin (of_int (m - n))"
  using fl_exact_int [of "m - n"] by (simp add: jsub_def)

lemma jmul_int:
  "exact_int (m * n) \<Longrightarrow> jmul (Fin (of_int m)) (Fin (of_int n)) = Fin (of_int (m * n))"
  using fl_exact_int [of "m * n"] by simp

text \<open>Above the exact range a rounded natural number is still at least \<open>2 ^ 53\<close>.\<close>

lemma fl_nat_safe: "is_safe_integer (fl (of_nat n)) \<longleftrightarrow> n \<le> 9007199254740991"
proof (cases "n \<le> 9007199254740992")
  case True
  then have "fl (of_nat n) = Fin (of_nat n)" by (rule fl_nat)
  moreover have "rat_of_nat n \<le> 9007199254740991 \<longleftrightarrow> n \<le> 9007199254740991"
    using of_nat_le_iff [of n 9007199254740991, where 'a = rat] by simp
  moreover have "rat_of_int \<lfloor>rat_of_nat n\<rfloor> = rat_of_nat n" by simp
  ultimately show ?thesis by simp
next
  case False
  then have "rat_of_int 9007199254740992 \<le> of_nat n"
    using of_nat_le_iff [of 9007199254740992 n, where 'a = rat] by simp
  then have "jle (fl (of_int 9007199254740992)) (fl (of_nat n))" by (rule fl_mono)
  moreover have "fl (of_int 9007199254740992) = Fin (of_int 9007199254740992)" by (rule fl_int) simp
  ultimately have "jle (Fin 9007199254740992) (fl (of_nat n))" by simp
  with False show ?thesis by (cases "fl (of_nat n)") auto
qed

section \<open>Sign and order of results\<close>

lemma jadd_nonneg: "jle (Fin 0) x \<Longrightarrow> jle (Fin 0) y \<Longrightarrow> jle (Fin 0) (jadd x y)"
  by (cases x; cases y) (auto intro: fl_nonneg)

lemma jmul_nonneg:
  "jle (Fin 0) (Fin a) \<Longrightarrow> jle (Fin 0) (Fin b) \<Longrightarrow> jle (Fin 0) (jmul (Fin a) (Fin b))"
  by (auto intro: fl_nonneg)

lemma jmul_Fin_nonneg: "jle (Fin 0) x \<Longrightarrow> 0 < b \<Longrightarrow> jle (Fin 0) (jmul x (Fin b))"
  by (cases x) (auto intro: fl_nonneg simp: signed_inf_def)

lemma jdiv_Fin_nonneg: "jle (Fin 0) x \<Longrightarrow> 0 < b \<Longrightarrow> jle (Fin 0) (jdiv x (Fin b))"
  by (cases x) (auto intro: fl_nonneg)

lemma jle_extremes [simp]: "x \<noteq> NaN \<Longrightarrow> jle NInf x" "x \<noteq> NaN \<Longrightarrow> jle x PInf"
  by (cases x; simp)+

lemma jadd_mono:
  "jle x x' \<Longrightarrow> jle y y' \<Longrightarrow> jadd x y \<noteq> NaN \<Longrightarrow> jadd x' y' \<noteq> NaN \<Longrightarrow> jle (jadd x y) (jadd x' y')"
  by (cases x; cases x'; cases y; cases y') (auto intro!: fl_mono simp: jle_refl)

end
