(* ===== verification/JsText.thy ===== *)
theory JsText
  imports JsNumber
begin

text \<open>
  The string operations and regular expressions the source uses, over code units: character
  classes, \<open>trim\<close>, \<open>split\<close>, \<open>padStart\<close>, \<open>padEnd\<close>, \<open>String(n)\<close> on natural numbers, \<open>BigInt\<close> of a
  digit string, and \<open>join\<close>. The central lemma is \<open>digits_val_show_nat\<close>: printing a natural number
  and reading it back is the identity.
\<close>

section \<open>Character classes\<close>

definition is_digit :: "jschar \<Rightarrow> bool" where
  [js_lit]: "is_digit c \<longleftrightarrow> 48 \<le> c \<and> c \<le> 57"

definition is_upper :: "jschar \<Rightarrow> bool" where
  [js_lit]: "is_upper c \<longleftrightarrow> 65 \<le> c \<and> c \<le> 90"

definition is_lower :: "jschar \<Rightarrow> bool" where
  [js_lit]: "is_lower c \<longleftrightarrow> 97 \<le> c \<and> c \<le> 122"

text \<open>The white space and line terminators that \<open>trim\<close> removes.\<close>

definition is_space :: "jschar \<Rightarrow> bool" where
  [js_lit]: "is_space c \<longleftrightarrow> c \<in> {9, 10, 11, 12, 13, 32, 0xA0, 0x1680, 0x2028, 0x2029, 0x202F, 0x205F, 0x3000, 0xFEFF}
     \<or> 0x2000 \<le> c \<and> c \<le> 0x200A"

definition trim :: "jsstring \<Rightarrow> jsstring" where
  "trim s = rev (dropWhile is_space (rev (dropWhile is_space s)))"

lemma dropWhile_set: "x \<in> set (dropWhile P xs) \<Longrightarrow> x \<in> set xs"
  by (metis UnCI set_append takeWhile_dropWhile_id)

lemma trim_set: "c \<in> set (trim s) \<Longrightarrow> c \<in> set s"
  by (auto simp: trim_def dest!: dropWhile_set)

lemma trim_id:
  assumes "s = [] \<or> \<not> is_space (hd s) \<and> \<not> is_space (last s)"
  shows "trim s = s"
proof (cases s)
  case (Cons a t)
  then have "dropWhile is_space s = s" using assms by simp
  moreover have "dropWhile is_space (rev s) = rev s"
  proof (cases "rev s")
    case (Cons b r)
    then have "last s = b" by (metis hd_rev list.sel(1))
    with assms \<open>s = a # t\<close> Cons show ?thesis by simp
  qed simp
  ultimately show ?thesis by (simp add: trim_def)
qed (simp add: trim_def)

lemma trim_no_space: "\<forall>c \<in> set s. \<not> is_space c \<Longrightarrow> trim s = s"
  by (rule trim_id) (cases s; simp)

section \<open>Digit strings\<close>

text \<open>\<open>/^\d+$/.test(s)\<close>.\<close>

definition all_digits :: "jsstring \<Rightarrow> bool" where
  "all_digits s \<longleftrightarrow> s \<noteq> [] \<and> list_all is_digit s"

definition digit_val :: "jschar \<Rightarrow> nat" where
  "digit_val c = unat c - 48"

text \<open>The natural number a digit string denotes: \<open>BigInt(s)\<close>; the empty string is \<open>0n\<close>.\<close>

definition digits_val :: "jsstring \<Rightarrow> nat" where
  "digits_val s = foldl (\<lambda>n c. 10 * n + digit_val c) 0 s"

text \<open>\<open>String(n)\<close> of a natural number below \<open>10 ^ 21\<close>, where no exponent is printed.\<close>

definition digit_char :: "nat \<Rightarrow> jschar" where
  "digit_char d = of_nat (48 + d)"

fun show_nat :: "nat \<Rightarrow> jsstring" where
  "show_nat n = (if n < 10 then [digit_char n] else show_nat (n div 10) @ [digit_char (n mod 10)])"

declare show_nat.simps [simp del]

definition pad_start :: "nat \<Rightarrow> jschar \<Rightarrow> jsstring \<Rightarrow> jsstring" where
  "pad_start n c s = replicate (n - length s) c @ s"

definition pad_end :: "nat \<Rightarrow> jschar \<Rightarrow> jsstring \<Rightarrow> jsstring" where
  "pad_end n c s = s @ replicate (n - length s) c"

lemma unat_digit_char: "d < 10 \<Longrightarrow> unat (digit_char d) = 48 + d"
  unfolding digit_char_def by (simp only: unat_of_nat) simp

lemma is_digit_unat: "is_digit c \<longleftrightarrow> 48 \<le> unat c \<and> unat c < 58"
  by (auto simp: is_digit_def word_le_nat_alt)

lemma digit_char_digit: "d < 10 \<Longrightarrow> is_digit (digit_char d)"
  by (simp add: is_digit_unat unat_digit_char)

lemma digit_val_char [simp]: "d < 10 \<Longrightarrow> digit_val (digit_char d) = d"
  by (simp add: digit_val_def unat_digit_char)

lemma digit_val_bound: "is_digit c \<Longrightarrow> digit_val c < 10"
  unfolding is_digit_unat digit_val_def by arith

lemma digit_char_val [simp]: "is_digit c \<Longrightarrow> digit_char (digit_val c) = c"
  by (simp add: is_digit_unat digit_val_def digit_char_def del: of_nat_add)

lemma digits_val_Nil [simp]: "digits_val [] = 0"
  by (simp add: digits_val_def)

lemma digits_val_snoc [simp]: "digits_val (s @ [c]) = 10 * digits_val s + digit_val c"
  by (simp add: digits_val_def)

lemma digits_val_append: "digits_val (s @ t) = digits_val s * 10 ^ length t + digits_val t"
proof (induction t rule: rev_induct)
  case (snoc c t)
  have "digits_val (s @ t @ [c]) = 10 * digits_val (s @ t) + digit_val c"
    using digits_val_snoc [of "s @ t" c] by simp
  with snoc show ?case by (simp add: algebra_simps)
qed simp

lemma digits_val_bound: "list_all is_digit s \<Longrightarrow> digits_val s < 10 ^ length s"
proof (induction s rule: rev_induct)
  case (snoc c s)
  then have "digits_val s < 10 ^ length s" "digit_val c < 10"
    by (simp_all add: digit_val_bound)
  then show ?case by simp
qed simp

lemma show_nat_nonempty [simp]: "show_nat n \<noteq> []"
  by (subst show_nat.simps) simp

lemma show_nat_digits: "list_all is_digit (show_nat n)"
  by (induction n rule: show_nat.induct) (subst show_nat.simps, simp add: digit_char_digit)

lemma all_digits_show_nat [simp]: "all_digits (show_nat n)"
  by (simp add: all_digits_def show_nat_digits)

lemma digits_val_show_nat [simp]: "digits_val (show_nat n) = n"
proof (induction n rule: show_nat.induct)
  case (1 n)
  show ?case
  proof (cases "n < 10")
    case True
    then show ?thesis using digits_val_snoc [of "[]"] by (subst show_nat.simps) simp
  next
    case False
    with 1 show ?thesis by (subst show_nat.simps) simp
  qed
qed

lemma length_show_nat: "0 < k \<Longrightarrow> n < 10 ^ k \<Longrightarrow> length (show_nat n) \<le> k"
proof (induction n arbitrary: k rule: show_nat.induct)
  case (1 n)
  show ?case
  proof (cases "n < 10")
    case True
    with 1 show ?thesis by (subst show_nat.simps) simp
  next
    case False
    with 1 obtain j where k: "k = Suc j" by (cases k) auto
    with False 1 have "0 < j" by (cases j) auto
    moreover have "n div 10 < 10 ^ j" using 1 k by (simp add: less_mult_imp_div_less mult.commute)
    ultimately have "length (show_nat (n div 10)) \<le> j" using 1 False by blast
    with False k show ?thesis by (subst show_nat.simps) simp
  qed
qed

lemma digits_val_zeros [simp]: "digits_val (replicate k 48) = 0"
  by (induction k) (simp_all add: digit_val_def replicate_append_same [symmetric])

lemma digits_val_pad_start [simp]: "digits_val (pad_start k 48 s) = digits_val s"
  by (simp add: pad_start_def digits_val_append)

lemma is_digit_zero [simp]: "is_digit 48"
  by (simp add: is_digit_def)

lemma pad_start_digits: "list_all is_digit s \<Longrightarrow> list_all is_digit (pad_start k 48 s)"
  by (auto simp: pad_start_def list_all_iff)

lemma length_pad_start [simp]: "length (pad_start k c s) = max k (length s)"
  by (simp add: pad_start_def)

lemma length_pad_end [simp]: "length (pad_end k c s) = max k (length s)"
  by (simp add: pad_end_def)

lemma digit_not_space: "is_digit c \<Longrightarrow> \<not> is_space c"
  by (auto simp: is_digit_def is_space_def word_le_nat_alt)

lemma trim_digits: "list_all is_digit s \<Longrightarrow> trim s = s"
  by (rule trim_no_space) (auto simp: list_all_iff digit_not_space)

section \<open>Splitting and joining\<close>

text \<open>\<open>s.split(c)\<close> for a one-unit separator: always at least one part.\<close>

fun split_on :: "jschar \<Rightarrow> jsstring \<Rightarrow> jsstring list" where
  "split_on c [] = [[]]"
| "split_on c (x # xs) =
     (if x = c then [] # split_on c xs
      else (case split_on c xs of [] \<Rightarrow> [[x]] | p # ps \<Rightarrow> (x # p) # ps))"

text \<open>\<open>parts.join(sep)\<close>.\<close>

fun join :: "jsstring \<Rightarrow> jsstring list \<Rightarrow> jsstring" where
  "join sep [] = []"
| "join sep [x] = x"
| "join sep (x # y # ys) = x @ sep @ join sep (y # ys)"

lemma split_on_nonempty [simp]: "split_on c s \<noteq> []"
  by (induction s) (auto split: list.splits)

lemma join_Cons: "ps \<noteq> [] \<Longrightarrow> join sep (p # ps) = p @ sep @ join sep ps"
  by (cases ps) auto

lemma join_split_on: "join [c] (split_on c s) = s"
proof (induction s)
  case (Cons x xs)
  obtain p ps where ps: "split_on c xs = p # ps" by (cases "split_on c xs") auto
  show ?case
  proof (cases "x = c")
    case True
    with Cons show ?thesis by (simp add: join_Cons)
  next
    case False
    with Cons ps show ?thesis by (cases ps) auto
  qed
qed simp

lemma split_on_free: "c \<notin> set s \<Longrightarrow> split_on c s = [s]"
  by (induction s) auto

lemma split_on_append: "c \<notin> set p \<Longrightarrow> split_on c (p @ c # s) = p # split_on c s"
  by (induction p) auto

lemma split_on_parts: "p \<in> set (split_on c s) \<Longrightarrow> c \<notin> set p"
  by (induction s arbitrary: p) (auto split: list.splits if_splits)

text \<open>Blanks of a literal.\<close>

lemma of_char_blank: "of_char c = (32 :: jschar) \<longleftrightarrow> c = CHR '' ''"
proof
  assume "of_char c = (32 :: jschar)"
  then have "(of_char c :: nat) = of_char CHR '' ''" using unat_of_char [of c] by (simp add: of_char_def)
  then show "c = CHR '' ''" by (simp only: of_char_eq_iff)
qed (simp add: of_char_def)

end
