(* ===== verification/JsValue.thy ===== *)
theory JsValue
  imports JsText
begin

text \<open>
  JavaScript values as the modelled code sees them after \<open>JSON.parse\<close>, with \<open>undefined\<close> for a
  property that is not there. An object is the list of its own properties in insertion order.
\<close>

datatype jsval =
    JUndef
  | JNull
  | JBool bool
  | JNum jsnum
  | JStr jsstring
  | JArr "jsval list"
  | JObj "(jsstring \<times> jsval) list"

text \<open>\<open>v[k]\<close> for a value that is neither \<open>null\<close> nor \<open>undefined\<close> and a property no prototype has.\<close>

fun get :: "jsval \<Rightarrow> jsstring \<Rightarrow> jsval" where
  "get (JObj ps) k = (case map_of ps k of None \<Rightarrow> JUndef | Some v \<Rightarrow> v)"
| "get _ _ = JUndef"

text \<open>\<open>k in v\<close> for such a property.\<close>

fun has :: "jsval \<Rightarrow> jsstring \<Rightarrow> bool" where
  "has (JObj ps) k = (k \<in> fst ` set ps)"
| "has _ _ = False"

fun truthy :: "jsval \<Rightarrow> bool" where
  "truthy JUndef = False"
| "truthy JNull = False"
| "truthy (JBool b) = b"
| "truthy (JNum n) = (n \<noteq> NaN \<and> n \<noteq> Fin 0)"
| "truthy (JStr s) = (s \<noteq> [])"
| "truthy _ = True"

definition nullish :: "jsval \<Rightarrow> bool" where
  "nullish v \<longleftrightarrow> v = JUndef \<or> v = JNull"

text \<open>\<open>v ?? d\<close>.\<close>

definition coalesce :: "jsval \<Rightarrow> jsval \<Rightarrow> jsval" where
  "coalesce v d = (if nullish v then d else v)"

text \<open>\<open>v === w\<close> for a primitive \<open>w\<close> that is not a number.\<close>

fun is_str :: "jsval \<Rightarrow> bool" where
  "is_str (JStr _) = True"
| "is_str _ = False"

fun is_bool :: "jsval \<Rightarrow> bool" where
  "is_bool (JBool _) = True"
| "is_bool _ = False"

fun is_array :: "jsval \<Rightarrow> bool" where
  "is_array (JArr _) = True"
| "is_array _ = False"

text \<open>\<open>typeof v === 'object' && v !== null\<close>: arrays count.\<close>

fun is_object :: "jsval \<Rightarrow> bool" where
  "is_object (JArr _) = True"
| "is_object (JObj _) = True"
| "is_object _ = False"

text \<open>\<open>Number.isFinite(v)\<close> of any value.\<close>

fun finite_num :: "jsval \<Rightarrow> bool" where
  "finite_num (JNum n) = is_finite n"
| "finite_num _ = False"

lemma finite_num_iff: "finite_num v \<longleftrightarrow> (\<exists>q. v = JNum (Fin q))"
proof (cases v)
  case (JNum n)
  then show ?thesis by (cases n) auto
qed auto

lemma is_str_iff: "is_str v \<longleftrightarrow> (\<exists>s. v = JStr s)"
  by (cases v) auto

lemma is_bool_iff: "is_bool v \<longleftrightarrow> (\<exists>b. v = JBool b)"
  by (cases v) auto

lemma is_object_get: "get v k \<noteq> JUndef \<Longrightarrow> is_object v"
  by (cases v) auto

section \<open>What survives a trip through JSON text\<close>

text \<open>
  \<open>json_image v\<close> is the value \<open>JSON.parse(JSON.stringify(v))\<close> returns: a number that is not
  finite is written as \<open>null\<close>, an undefined property is left out, and an undefined element of
  an array is written as \<open>null\<close>. Two values have the same text exactly when they have the same
  image, since the text determines the image and is determined by it.
\<close>

fun json_image :: "jsval \<Rightarrow> jsval" where
  "json_image JUndef = JNull"
| "json_image JNull = JNull"
| "json_image (JBool b) = JBool b"
| "json_image (JNum n) = (if is_finite n then JNum n else JNull)"
| "json_image (JStr s) = JStr s"
| "json_image (JArr vs) = JArr (map json_image vs)"
| "json_image (JObj ps) =
     JObj (map (\<lambda>(k, v). (k, json_image v)) (filter (\<lambda>(k, v). v \<noteq> JUndef) ps))"

text \<open>The values that survive unchanged.\<close>

fun json_clean :: "jsval \<Rightarrow> bool" where
  "json_clean JUndef = False"
| "json_clean (JNum n) = is_finite n"
| "json_clean (JArr vs) = list_all json_clean vs"
| "json_clean (JObj ps) = list_all (\<lambda>(k, v). json_clean v) ps"
| "json_clean _ = True"

lemma json_clean_image [simp]: "json_clean v \<Longrightarrow> json_image v = v"
proof (induction v)
  case (JArr vs)
  then show ?case by (auto simp: list_all_iff intro: map_idI)
next
  case (JObj ps)
  have defd: "filter (\<lambda>(k, v). v \<noteq> JUndef) ps = ps"
    using JObj.prems by (auto simp: list_all_iff intro!: filter_True)
  have "map (\<lambda>(k, v). (k, json_image v)) ps = ps"
    using JObj by (fastforce simp: list_all_iff intro!: map_idI)
  with defd show ?case by simp
qed auto

lemma json_image_clean [simp]: "json_clean (json_image v)"
proof (induction v)
  case (JObj ps)
  then show ?case by (fastforce simp: list_all_iff)
qed (auto simp: list_all_iff)

lemma json_clean_get: "json_clean v \<Longrightarrow> get v k \<noteq> JUndef \<Longrightarrow> json_clean (get v k)"
  by (cases v) (auto simp: list_all_iff split: option.splits dest!: map_of_SomeD)

end
