(* ===== verification/Calendar.thy ===== *)
theory Calendar
  imports JsText
begin

text \<open>
  The part of the JavaScript \<open>Date\<close> object the source uses: the proleptic Gregorian calendar of
  the language standard on instants in milliseconds since 1970 (\<open>Date.UTC\<close>, the UTC getters and
  the rollover of \<open>setUTCDate\<close>, \<open>setUTCMonth\<close> and \<open>setUTCFullYear\<close>), and the ISO text of an
  instant (\<open>toISOString\<close>). Instants are unbounded integers: the limit of 8.64e15 milliseconds
  (year 275760), where a \<open>Date\<close> becomes invalid, is not modelled.

  \<open>parts\<close> is the \<open>CalendarParts\<close> of \<open>web/src/features/history/history-model.ts\<close>, its month
  counted from one. The main lemmas: \<open>ms_of_parts_of\<close> and \<open>parts_of_ms_of\<close> (the calendar is a
  bijection between whole seconds and valid parts) and \<open>iso_parse_string\<close>.
\<close>

section \<open>Days and years\<close>

definition day_from_year :: "int \<Rightarrow> int" where
  "day_from_year y = 365 * (y - 1970) + (y - 1969) div 4 - (y - 1901) div 100 + (y - 1601) div 400"

definition leap :: "int \<Rightarrow> bool" where
  "leap y \<longleftrightarrow> y mod 4 = 0 \<and> (y mod 100 \<noteq> 0 \<or> y mod 400 = 0)"

definition year_from_day :: "int \<Rightarrow> int" where
  "year_from_day d =
     (let e = 1970 + (d * 400) div 146097 in
      if day_from_year (e + 1) \<le> d then e + 1 else if d < day_from_year e then e - 1 else e)"

lemma div_plus_one:
  fixes n k :: int
  assumes "0 < k"
  shows "(n + 1) div k = n div k + (if (n + 1) mod k = 0 then 1 else 0)"
proof (cases "n mod k + 1 = k")
  case True
  have "n + 1 = k * (n div k) + k" using True mult_div_mod_eq [of k n] by linarith
  then have "n + 1 = k * (n div k + 1)" by (simp add: distrib_left)
  then show ?thesis using assms by (metis mod_mult_self1_is_0 nonzero_mult_div_cancel_left order_less_irrefl)
next
  case False
  have r: "0 \<le> n mod k" "n mod k < k" using assms by simp_all
  with False have "0 \<le> n mod k + 1" "n mod k + 1 < k" by simp_all
  moreover have "n + 1 = k * (n div k) + (n mod k + 1)" using mult_div_mod_eq [of k n] by simp
  ultimately have "(n + 1) div k = n div k" "(n + 1) mod k = n mod k + 1"
    by (metis int_div_pos_eq, metis int_mod_pos_eq)
  with r show ?thesis by simp
qed

lemma div_bounds:
  fixes n k :: int
  assumes "0 < k"
  shows "k * (n div k) \<le> n" and "n < k * (n div k) + k"
proof -
  have "k * (n div k) + n mod k = n" by (rule mult_div_mod_eq)
  moreover have "0 \<le> n mod k" "n mod k < k" using assms by simp_all
  ultimately show "k * (n div k) \<le> n" and "n < k * (n div k) + k" by linarith+
qed

lemma mod_shift: "(y - c * k) mod k = y mod (k :: int)"
  using mod_mult_self1 [of y "- c" k] by simp

lemma day_from_year_Suc: "day_from_year (y + 1) = day_from_year y + (if leap y then 366 else 365)"
proof -
  have a: "(y + 1 - 1969) div 4 = (y - 1969) div 4 + (if y mod 4 = 0 then 1 else 0)"
    using div_plus_one [of 4 "y - 1969"] mod_shift [of y 492 4] by (simp add: algebra_simps)
  have b: "(y + 1 - 1901) div 100 = (y - 1901) div 100 + (if y mod 100 = 0 then 1 else 0)"
    using div_plus_one [of 100 "y - 1901"] mod_shift [of y 19 100] by (simp add: algebra_simps)
  have c: "(y + 1 - 1601) div 400 = (y - 1601) div 400 + (if y mod 400 = 0 then 1 else 0)"
    using div_plus_one [of 400 "y - 1601"] mod_shift [of y 4 400] by (simp add: algebra_simps)
  have d: "y mod 400 = 0 \<Longrightarrow> y mod 100 = 0" "y mod 100 = 0 \<Longrightarrow> y mod 4 = 0"
    by (simp_all flip: dvd_eq_mod_eq_0) (auto elim: dvd_trans [rotated])
  show ?thesis
    unfolding day_from_year_def a b c leap_def
    by (cases "y mod 4 = 0"; cases "y mod 100 = 0"; cases "y mod 400 = 0") (use d in simp_all)
qed

lemma day_from_year_less: "day_from_year y < day_from_year (y + 1)"
  by (simp add: day_from_year_Suc)

lemma day_from_year_mono: "x \<le> y \<Longrightarrow> day_from_year x \<le> day_from_year y"
proof (induction "nat (y - x)" arbitrary: y)
  case (Suc n)
  then have "day_from_year x \<le> day_from_year (y - 1)" by (intro Suc.hyps(1)) auto
  also have "\<dots> \<le> day_from_year y" using day_from_year_less [of "y - 1"] by simp
  finally show ?case .
qed simp

text \<open>Within one year of the estimate: 400 years have 146097 days.\<close>

lemma day_from_year_bounds:
  "146097 * y - 287811790 \<le> 400 * day_from_year y" "400 * day_from_year y \<le> 146097 * y - 287810390"
proof -
  define a b c where "a = (y - 1969) div 4" and "b = (y - 1901) div 100" and "c = (y - 1601) div 400"
  have "4 * a \<le> y - 1969" "y - 1969 < 4 * a + 4" "100 * b \<le> y - 1901" "y - 1901 < 100 * b + 100"
    "400 * c \<le> y - 1601" "y - 1601 < 400 * c + 400"
    unfolding a_def b_def c_def by linarith+
  moreover have "400 * day_from_year y = 146000 * y - 287620000 + 400 * a - 400 * b + 400 * c"
    by (simp add: day_from_year_def a_def b_def c_def)
  ultimately show "146097 * y - 287811790 \<le> 400 * day_from_year y"
    and "400 * day_from_year y \<le> 146097 * y - 287810390"
    by linarith+
qed

definition year_guess :: "int \<Rightarrow> int" where
  "year_guess d = 1970 + (d * 400) div 146097"

lemma year_guess_bounds:
  "146097 * year_guess d - 287811090 \<le> 400 * d" "400 * d < 146097 * year_guess d - 287664993"
  using div_bounds [of 146097 "d * 400"] by (simp_all add: year_guess_def distrib_left)

lemma year_guess_close:
  "day_from_year y \<le> d \<Longrightarrow> year_guess d - 1 \<le> y \<or> d \<ge> day_from_year (y + 1)"
  "d < day_from_year (y + 1) \<Longrightarrow> y \<le> year_guess d + 1 \<or> d < day_from_year y"
  using day_from_year_bounds [of "y + 1"] day_from_year_bounds [of y] year_guess_bounds [of d]
  by (simp_all add: distrib_left) linarith+

lemma year_guess_window:
  "day_from_year (year_guess d - 1) \<le> d" "d < day_from_year (year_guess d + 2)"
  using day_from_year_bounds(2) [of "year_guess d - 1"] day_from_year_bounds(1) [of "year_guess d + 2"]
    year_guess_bounds [of d]
  by (simp_all add: right_diff_distrib distrib_left)

lemma year_from_day_guess:
  "year_from_day d = (let e = year_guess d in
     if day_from_year (e + 1) \<le> d then e + 1 else if d < day_from_year e then e - 1 else e)"
  by (simp add: year_from_day_def year_guess_def)

lemma year_from_day_eq:
  assumes "day_from_year y \<le> d" "d < day_from_year (y + 1)"
  shows "year_from_day d = y"
proof -
  have "year_guess d - 1 \<le> y" "y \<le> year_guess d + 1"
    using year_guess_close(1) [of y d] year_guess_close(2) [of d y] assms by linarith+
  then consider "year_guess d = y - 1" | "year_guess d = y" | "year_guess d = y + 1" by linarith
  then show ?thesis
    using assms day_from_year_less [of "y + 1"]
    by cases (auto simp: year_from_day_guess Let_def)
qed

lemma year_from_day_bounds:
  "day_from_year (year_from_day d) \<le> d" "d < day_from_year (year_from_day d + 1)"
  using year_guess_window [of d] by (auto simp: year_from_day_guess Let_def add.commute)

section \<open>Months\<close>

text \<open>The days of a year before its month \<open>m\<close>, months from zero.\<close>

fun month_start :: "bool \<Rightarrow> int \<Rightarrow> int" where
  "month_start l m =
     (if m \<le> 0 then 0 else if m = 1 then 31
      else (if l then 1 else 0) +
        (if m = 2 then 59 else if m = 3 then 90 else if m = 4 then 120 else if m = 5 then 151
         else if m = 6 then 181 else if m = 7 then 212 else if m = 8 then 243 else if m = 9 then 273
         else if m = 10 then 304 else if m = 11 then 334 else 365))"

definition month_of_doy :: "bool \<Rightarrow> int \<Rightarrow> int" where
  "month_of_doy l k =
     (if k < month_start l 1 then 0 else if k < month_start l 2 then 1
      else if k < month_start l 3 then 2 else if k < month_start l 4 then 3
      else if k < month_start l 5 then 4 else if k < month_start l 6 then 5
      else if k < month_start l 7 then 6 else if k < month_start l 8 then 7
      else if k < month_start l 9 then 8 else if k < month_start l 10 then 9
      else if k < month_start l 11 then 10 else 11)"

definition days_in_month :: "int \<Rightarrow> int \<Rightarrow> int" where
  "days_in_month y m = month_start (leap y) (m + 1) - month_start (leap y) m"

lemma month_starts:
  "month_start l 0 = 0" "month_start l 1 = 31"
  "month_start True 2 = 60" "month_start True 3 = 91" "month_start True 4 = 121"
  "month_start True 5 = 152" "month_start True 6 = 182" "month_start True 7 = 213"
  "month_start True 8 = 244" "month_start True 9 = 274" "month_start True 10 = 305"
  "month_start True 11 = 335" "month_start True 12 = 366"
  "month_start False 2 = 59" "month_start False 3 = 90" "month_start False 4 = 120"
  "month_start False 5 = 151" "month_start False 6 = 181" "month_start False 7 = 212"
  "month_start False 8 = 243" "month_start False 9 = 273" "month_start False 10 = 304"
  "month_start False 11 = 334" "month_start False 12 = 365"
  by simp_all

declare month_start.simps [simp del]

lemma year_months: "{0..11} = {0, 1, 2, 3, 4, 5, 6, 7, 8, 9, 10, 11 :: int}"
  by (rule set_eqI) (simp, presburger)

lemma month_of_doy_eq:
  assumes "0 \<le> m" "m \<le> 11" "month_start l m \<le> k" "k < month_start l (m + 1)"
  shows "month_of_doy l k = m"
proof -
  have "m \<in> {0..11}" using assms(1,2) by simp
  also note year_months
  finally show ?thesis
    using assms(3,4)
    by (cases l) (elim insertE emptyE; simp add: month_of_doy_def month_starts)+
qed

lemma month_start_range:
  assumes "0 \<le> m" "m \<le> 11"
  shows "0 \<le> month_start l m \<and> month_start l (m + 1) \<le> month_start l 12"
proof -
  have "m \<in> {0..11}" using assms(1,2) by simp
  also note year_months
  finally show ?thesis by (cases l) (elim insertE emptyE; simp add: month_starts)+
qed

lemma month_of_doy_bounds:
  assumes "0 \<le> k" "k < month_start l 12"
  shows "0 \<le> month_of_doy l k" "month_of_doy l k \<le> 11"
    "month_start l (month_of_doy l k) \<le> k" "k < month_start l (month_of_doy l k + 1)"
proof -
  have "0 \<le> month_of_doy l k \<and> month_of_doy l k \<le> 11
     \<and> month_start l (month_of_doy l k) \<le> k \<and> k < month_start l (month_of_doy l k + 1)"
    using assms by (cases l) (simp add: month_of_doy_def month_starts)+
  then show "0 \<le> month_of_doy l k" "month_of_doy l k \<le> 11"
    "month_start l (month_of_doy l k) \<le> k" "k < month_start l (month_of_doy l k + 1)"
    by simp_all
qed

section \<open>Instants and calendar parts\<close>

text \<open>The abstract operations \<open>MakeDay\<close> and \<open>MakeTime\<close> of the standard, the month from zero.\<close>

definition make_day :: "int \<Rightarrow> int \<Rightarrow> int \<Rightarrow> int" where
  "make_day y m d =
     (let y' = y + m div 12 in day_from_year y' + month_start (leap y') (m mod 12) + d - 1)"

abbreviation day_ms :: int where
  "day_ms \<equiv> 86400000"

record parts =
  year :: int
  month :: int   \<comment> \<open>from one\<close>
  day :: int     \<comment> \<open>of the month, from one\<close>
  hour :: int
  minute :: int
  second :: int

definition ms_of :: "parts \<Rightarrow> int" where
  "ms_of p = make_day (year p) (month p - 1) (day p) * day_ms
     + (hour p * 3600000 + minute p * 60000 + second p * 1000)"

text \<open>\<open>Date.UTC(year, month - 1, ...)\<close>, which reads the years 0 to 99 as 1900 to 1999.\<close>

definition date_UTC :: "parts \<Rightarrow> int" where
  "date_UTC p = (if 0 \<le> year p \<and> year p \<le> 99 then ms_of (p\<lparr>year := 1900 + year p\<rparr>) else ms_of p)"

text \<open>The UTC getters of the instant \<open>t\<close>.\<close>

definition day_of :: "int \<Rightarrow> int" where
  "day_of t = t div day_ms"

definition parts_of :: "int \<Rightarrow> parts" where
  "parts_of t =
     (let d = day_of t; y = year_from_day d; k = d - day_from_year y; m = month_of_doy (leap y) k;
          r = t mod day_ms in
      \<lparr>year = y, month = m + 1, day = k - month_start (leap y) m + 1,
       hour = r div 3600000, minute = r div 60000 mod 60, second = r div 1000 mod 60\<rparr>)"

text \<open>\<open>getUTCDay\<close>: Sunday is 0, and 1 January 1970 was a Thursday.\<close>

definition weekday :: "int \<Rightarrow> int" where
  "weekday t = (day_of t + 4) mod 7"

definition valid_parts :: "parts \<Rightarrow> bool" where
  "valid_parts p \<longleftrightarrow> 1 \<le> month p \<and> month p \<le> 12
     \<and> 1 \<le> day p \<and> day p \<le> days_in_month (year p) (month p - 1)
     \<and> 0 \<le> hour p \<and> hour p < 24 \<and> 0 \<le> minute p \<and> minute p < 60 \<and> 0 \<le> second p \<and> second p < 60"

lemma month_start_12 [simp]: "month_start l 12 = (if l then 366 else 365)"
  by (cases l) (simp_all add: month_starts)

declare month_starts(1) [simp]

lemma year_from_day_rest:
  "0 \<le> d - day_from_year (year_from_day d)"
  "d - day_from_year (year_from_day d) < month_start (leap (year_from_day d)) 12"
  using year_from_day_bounds [of d] by (simp_all add: day_from_year_Suc)

lemma make_day_in_year: "0 \<le> m \<Longrightarrow> m \<le> 11 \<Longrightarrow> make_day y m d = day_from_year y + month_start (leap y) m + d - 1"
  by (simp add: make_day_def Let_def div_pos_pos_trivial mod_pos_pos_trivial)

text \<open>Every day number is one date, and every date one day number.\<close>

lemma make_day_parts_of:
  "make_day (year (parts_of t)) (month (parts_of t) - 1) (day (parts_of t)) = day_of t"
  using month_of_doy_bounds [OF year_from_day_rest [of "day_of t"]]
  by (simp add: parts_of_def Let_def make_day_in_year)

lemma clock_sum:
  fixes h :: int
  assumes "h * 60 + m = a" "a * 60 + s = q" "q * 1000 = n"
  shows "h * 3600000 + m * 60000 + s * 1000 = n"
  using assms by linarith

lemma time_split:
  fixes r :: int
  shows "r div 3600000 * 3600000 + r div 60000 mod 60 * 60000 + r div 1000 mod 60 * 1000 = r - r mod 1000"
proof -
  have "r div 60000 = r div 1000 div 60" "r div 3600000 = r div 1000 div 60 div 60"
    by (simp_all flip: zdiv_zmult2_eq)
  then show ?thesis
    by (simp only: clock_sum [OF div_mult_mod_eq div_mult_mod_eq minus_mod_eq_div_mult [symmetric]])
qed

lemma parts_of_clock:
  "hour (parts_of t) = t mod day_ms div 3600000"
  "minute (parts_of t) = t mod day_ms div 60000 mod 60"
  "second (parts_of t) = t mod day_ms div 1000 mod 60"
  by (simp_all only: parts_of_def Let_def parts.simps)

lemma ms_of_parts_of: "ms_of (parts_of t) = t - t mod 1000"
proof -
  have dvd: "(1000 :: int) dvd day_ms" by simp
  have "ms_of (parts_of t) = t div day_ms * day_ms + (t mod day_ms - t mod day_ms mod 1000)"
    by (simp only: ms_of_def make_day_parts_of parts_of_clock time_split day_of_def)
  also have "t mod day_ms mod 1000 = t mod 1000" by (rule mod_mod_cancel [OF dvd])
  finally show ?thesis by (simp only: add_diff_eq div_mult_mod_eq)
qed

lemma hour_bounds:
  fixes r :: int
  assumes "0 \<le> r" "r < day_ms"
  shows "0 \<le> r div 3600000" "r div 3600000 < 24"
proof -
  show "0 \<le> r div 3600000" using assms by (simp add: pos_imp_zdiv_nonneg_iff)
  define h where "h = r div 3600000"
  have "3600000 * h \<le> r" unfolding h_def using div_bounds(1) [of 3600000 r] by simp
  with assms have "h < 24" by simp
  then show "r div 3600000 < 24" by (simp add: h_def)
qed

lemma valid_parts_of: "valid_parts (parts_of t)"
proof -
  have "0 \<le> t mod day_ms" "t mod day_ms < day_ms" by simp_all
  note hour_bounds [OF this]
  moreover note month_of_doy_bounds [OF year_from_day_rest [of "day_of t"]]
  ultimately show ?thesis
    by (simp add: valid_parts_def parts_of_def Let_def days_in_month_def)
qed

lemma clock_range:
  fixes h :: int
  assumes "0 \<le> h" "h < 24" "0 \<le> m" "m < 60" "0 \<le> s" "s < 60"
  shows "0 \<le> h * 3600000 + m * 60000 + s * 1000" "h * 3600000 + m * 60000 + s * 1000 < day_ms"
  using assms by linarith+

lemma int_div_mod_unique:
  fixes q :: int
  assumes "n = q * k + r" "0 \<le> r" "r < k"
  shows "n div k = q" and "n mod k = r"
  using assms int_div_pos_eq [of n k q r] int_mod_pos_eq [of n k q r] by (simp_all add: mult.commute)

lemma clock_fields:
  fixes h :: int
  assumes "0 \<le> h" "h < 24" "0 \<le> m" "m < 60" "0 \<le> s" "s < 60"
  defines "r \<equiv> h * 3600000 + m * 60000 + s * 1000"
  shows "r div 3600000 = h" "r div 60000 mod 60 = m" "r div 1000 mod 60 = s"
proof -
  have r: "r = h * 3600000 + (m * 60000 + s * 1000)" "r = (h * 60 + m) * 60000 + s * 1000"
    "r = (h * 3600 + m * 60 + s) * 1000 + 0"
    unfolding r_def by (simp_all add: algebra_simps)
  have b: "m * 60000 + s * 1000 < 3600000" "0 \<le> m * 60000 + s * 1000" "s * 1000 < 60000" "0 \<le> s * 1000"
    using assms by linarith+
  show "r div 3600000 = h" by (rule int_div_mod_unique(1) [OF r(1) b(2,1)])
  have q: "r div 60000 = h * 60 + m" by (rule int_div_mod_unique(1) [OF r(2) b(4,3)])
  show "r div 60000 mod 60 = m"
    using assms(3,4) by (intro int_div_mod_unique(2) [of _ h]) (simp_all add: q)
  have q: "r div 1000 = h * 3600 + m * 60 + s" by (rule int_div_mod_unique(1) [OF r(3)]) simp_all
  show "r div 1000 mod 60 = s"
    using assms(5,6) by (intro int_div_mod_unique(2) [of _ "h * 60 + m"]) (simp_all add: q)
qed

lemma parts_of_ms_of:
  assumes "valid_parts p"
  shows "parts_of (ms_of p) = p"
proof -
  define D where "D = make_day (year p) (month p - 1) (day p)"
  define r where "r = hour p * 3600000 + minute p * 60000 + second p * 1000"
  have v: "0 \<le> month p - 1" "month p - 1 \<le> 11" "1 \<le> day p" "day p \<le> days_in_month (year p) (month p - 1)"
    and clock: "0 \<le> hour p" "hour p < 24" "0 \<le> minute p" "minute p < 60" "0 \<le> second p" "second p < 60"
    using assms by (simp_all add: valid_parts_def)
  have split: "ms_of p = D * day_ms + r" by (simp add: ms_of_def D_def r_def)
  note day = int_div_mod_unique [OF split clock_range [OF clock, folded r_def]]
  let ?k = "month_start (leap (year p)) (month p - 1) + day p - 1"
  have D: "D = day_from_year (year p) + ?k" using v by (simp add: D_def make_day_in_year)
  have k: "month_start (leap (year p)) (month p - 1) \<le> ?k" "?k < month_start (leap (year p)) (month p - 1 + 1)"
    using v by (simp_all add: days_in_month_def)
  have "0 \<le> month_start (leap (year p)) (month p - 1)"
    "month_start (leap (year p)) (month p - 1 + 1) \<le> month_start (leap (year p)) 12"
    using month_start_range v(1,2) by blast+
  with k D have y: "year_from_day D = year p"
    by (intro year_from_day_eq) (simp_all add: day_from_year_Suc split: if_splits)
  have m: "month_of_doy (leap (year p)) ?k = month p - 1"
    using v k by (intro month_of_doy_eq)
  have "D - day_from_year (year p) = ?k" using D by linarith
  then have "parts_of (ms_of p) = \<lparr>year = year p, month = month p - 1 + 1,
      day = ?k - month_start (leap (year p)) (month p - 1) + 1,
      hour = hour p, minute = minute p, second = second p\<rparr>"
    by (simp only: parts_of_def day_of_def Let_def day y m clock_fields [OF clock, folded r_def])
  then show ?thesis by (simp add: add.commute)
qed

section \<open>ISO text\<close>

text \<open>\<open>n\<close> with zeros in front, to a width of \<open>k\<close>.\<close>

definition padded :: "nat \<Rightarrow> int \<Rightarrow> jsstring" where
  "padded k n = pad_start k 48 (show_nat (nat n))"

definition iso_year :: "int \<Rightarrow> jsstring" where
  "iso_year y = (if 0 \<le> y \<and> y \<le> 9999 then padded 4 y
     else if y < 0 then js ''-'' @ padded 6 (- y) else js ''+'' @ padded 6 y)"

text \<open>\<open>toISOString\<close>.\<close>

definition iso_string :: "int \<Rightarrow> jsstring" where
  "iso_string t =
     (let p = parts_of t in
      iso_year (year p) @ js ''-'' @ padded 2 (month p) @ js ''-'' @ padded 2 (day p) @ js ''T''
      @ padded 2 (hour p) @ js '':'' @ padded 2 (minute p) @ js '':'' @ padded 2 (second p)
      @ js ''.'' @ padded 3 (t mod 1000) @ js ''Z'')"

text \<open>\<open>Date.parse\<close> on the texts \<open>toISOString\<close> writes in the years 0 to 9999.\<close>

definition field :: "nat \<Rightarrow> nat \<Rightarrow> jsstring \<Rightarrow> jsstring" where
  "field i n s = take n (drop i s)"

definition num_field :: "nat \<Rightarrow> nat \<Rightarrow> jsstring \<Rightarrow> int" where
  "num_field i n s = int (digits_val (field i n s))"

definition iso_parse :: "jsstring \<Rightarrow> int option" where
  "iso_parse s =
     (if length s = 24
       \<and> list_all (\<lambda>(i, n). all_digits (field i n s)) [(0, 4), (5, 2), (8, 2), (11, 2), (14, 2), (17, 2), (20, 3)]
       \<and> list_all (\<lambda>(i, c). field i 1 s = js c) [(4, ''-''), (7, ''-''), (10, ''T''), (13, '':''), (16, '':''), (19, ''.''), (23, ''Z'')]
      then let p = \<lparr>year = num_field 0 4 s, month = num_field 5 2 s, day = num_field 8 2 s,
                    hour = num_field 11 2 s, minute = num_field 14 2 s, second = num_field 17 2 s\<rparr> in
           if valid_parts p then Some (ms_of p + num_field 20 3 s) else None
      else None)"

definition iso_range :: "int \<Rightarrow> bool" where
  "iso_range t \<longleftrightarrow> 0 \<le> year (parts_of t) \<and> year (parts_of t) \<le> 9999"

lemma length_padded: "0 < k \<Longrightarrow> 0 \<le> n \<Longrightarrow> n < 10 ^ k \<Longrightarrow> length (padded k n) = k"
  using length_show_nat [of k "nat n"] by (simp add: padded_def nat_less_iff max_def)

lemma padded_digits [simp]: "list_all is_digit (padded k n)"
  by (simp add: padded_def pad_start_digits show_nat_digits)

lemma digits_val_padded [simp]: "digits_val (padded k n) = nat n"
  by (simp add: padded_def)

lemma all_digits_padded [simp]: "all_digits (padded k n)"
  by (simp add: all_digits_def) (simp add: padded_def pad_start_def)

lemma days_in_month_31: "0 \<le> m \<Longrightarrow> m \<le> 11 \<Longrightarrow> days_in_month y m \<le> 31"
proof -
  assume "0 \<le> m" "m \<le> 11"
  then have "m \<in> {0..11}" by simp
  also note year_months
  finally show ?thesis
    by (cases "leap y") (elim insertE emptyE; simp add: days_in_month_def month_starts)+
qed

text \<open>The layout of the text of an instant in the years with four digits.\<close>

lemma iso_string_layout:
  assumes "iso_range t"
  defines "p \<equiv> parts_of t"
  shows "length (iso_string t) = 24"
    "field 0 4 (iso_string t) = padded 4 (year p)" "field 5 2 (iso_string t) = padded 2 (month p)"
    "field 8 2 (iso_string t) = padded 2 (day p)" "field 11 2 (iso_string t) = padded 2 (hour p)"
    "field 14 2 (iso_string t) = padded 2 (minute p)" "field 17 2 (iso_string t) = padded 2 (second p)"
    "field 20 3 (iso_string t) = padded 3 (t mod 1000)"
    "field 4 1 (iso_string t) = js ''-''" "field 7 1 (iso_string t) = js ''-''"
    "field 10 1 (iso_string t) = js ''T''" "field 13 1 (iso_string t) = js '':''"
    "field 16 1 (iso_string t) = js '':''" "field 19 1 (iso_string t) = js ''.''"
    "field 23 1 (iso_string t) = js ''Z''"
    "drop 19 (iso_string t) = js ''.'' @ padded 3 (t mod 1000) @ js ''Z''"
proof -
  have v: "valid_parts p" by (simp add: p_def valid_parts_of)
  then have "day p \<le> 31" using days_in_month_31 [of "month p - 1" "year p"] by (simp add: valid_parts_def)
  with v assms have len: "length (padded 4 (year p)) = 4" "length (padded 2 (month p)) = 2"
    "length (padded 2 (day p)) = 2" "length (padded 2 (hour p)) = 2" "length (padded 2 (minute p)) = 2"
    "length (padded 2 (second p)) = 2" "length (padded 3 (t mod 1000)) = 3"
    by (simp_all add: valid_parts_def iso_range_def p_def length_padded)
  have yr: "iso_year (year p) = padded 4 (year p)"
    using assms by (simp add: iso_range_def p_def iso_year_def)
  have str: "iso_string t = padded 4 (year p) @ js ''-'' @ padded 2 (month p) @ js ''-'' @ padded 2 (day p) @ js ''T''
      @ padded 2 (hour p) @ js '':'' @ padded 2 (minute p) @ js '':'' @ padded 2 (second p)
      @ js ''.'' @ padded 3 (t mod 1000) @ js ''Z''"
    by (simp add: iso_string_def p_def [symmetric] Let_def yr)
  show "length (iso_string t) = 24"
    "field 0 4 (iso_string t) = padded 4 (year p)" "field 5 2 (iso_string t) = padded 2 (month p)"
    "field 8 2 (iso_string t) = padded 2 (day p)" "field 11 2 (iso_string t) = padded 2 (hour p)"
    "field 14 2 (iso_string t) = padded 2 (minute p)" "field 17 2 (iso_string t) = padded 2 (second p)"
    "field 20 3 (iso_string t) = padded 3 (t mod 1000)"
    "field 4 1 (iso_string t) = js ''-''" "field 7 1 (iso_string t) = js ''-''"
    "field 10 1 (iso_string t) = js ''T''" "field 13 1 (iso_string t) = js '':''"
    "field 16 1 (iso_string t) = js '':''" "field 19 1 (iso_string t) = js ''.''"
    "field 23 1 (iso_string t) = js ''Z''"
    "drop 19 (iso_string t) = js ''.'' @ padded 3 (t mod 1000) @ js ''Z''"
    by (simp_all add: str field_def len)
qed

lemma iso_parse_string:
  assumes "iso_range t"
  shows "iso_parse (iso_string t) = Some t"
proof -
  define p where "p = parts_of t"
  have v: "valid_parts p" by (simp add: p_def valid_parts_of)
  note fields = iso_string_layout [OF assms, folded p_def]
  have "\<lparr>year = int (nat (year p)), month = int (nat (month p)), day = int (nat (day p)),
      hour = int (nat (hour p)), minute = int (nat (minute p)), second = int (nat (second p))\<rparr> = p"
    using v assms by (simp add: valid_parts_def iso_range_def p_def)
  moreover have "ms_of p + int (nat (t mod 1000)) = t"
    by (simp add: p_def ms_of_parts_of)
  ultimately show ?thesis
    by (simp add: iso_parse_def num_field_def fields fields [simplified One_nat_def] v Let_def)
qed

text \<open>The milliseconds of a second share its parts.\<close>

lemma ms_of_thousand: "ms_of p mod 1000 = 0"
proof -
  have "ms_of p = (make_day (year p) (month p - 1) (day p) * 86400
      + (hour p * 3600 + minute p * 60 + second p)) * 1000"
    by (simp add: ms_of_def algebra_simps)
  then show ?thesis by simp
qed

lemma parts_of_ms_plus:
  assumes "valid_parts p" "0 \<le> k" "k < 1000"
  shows "parts_of (ms_of p + k) = p"
proof -
  have "(ms_of p + k) mod 1000 = k"
    using assms(2,3) by (metis ms_of_thousand add_0 mod_add_left_eq mod_pos_pos_trivial)
  then have "ms_of (parts_of (ms_of p + k)) = ms_of p" by (simp add: ms_of_parts_of)
  then show ?thesis using assms(1) parts_of_ms_of valid_parts_of by metis
qed

lemma num_field_bound: "all_digits (field i n s) \<Longrightarrow> 0 \<le> num_field i n s \<and> num_field i n s < 10 ^ n"
proof -
  assume "all_digits (field i n s)"
  then have "digits_val (field i n s) < 10 ^ length (field i n s)"
    using digits_val_bound by (simp add: all_digits_def)
  also have "\<dots> \<le> 10 ^ n" by (simp add: field_def)
  finally show ?thesis by (simp add: num_field_def)
qed

lemma iso_parse_range: "iso_parse s = Some t \<Longrightarrow> iso_range t"
proof -
  assume t: "iso_parse s = Some t"
  define p where "p = \<lparr>year = num_field 0 4 s, month = num_field 5 2 s, day = num_field 8 2 s,
      hour = num_field 11 2 s, minute = num_field 14 2 s, second = num_field 17 2 s\<rparr>"
  have v: "valid_parts p" "t = ms_of p + num_field 20 3 s"
    "all_digits (field 0 4 s)" "all_digits (field 20 3 s)"
    using t by (simp_all add: iso_parse_def p_def Let_def split: if_splits)
  then have "parts_of t = p"
    using num_field_bound [of 20 3 s] by (simp add: parts_of_ms_plus)
  then show ?thesis using num_field_bound [OF v(3)] by (simp add: iso_range_def p_def)
qed

text \<open>
  What the code relies on of \<open>Date.parse\<close>: it reads back what \<open>toISOString\<close> wrote. The clients
  prove their lemmas in this locale; \<open>iso_parse\<close> is the part of \<open>Date.parse\<close> that provides it.
\<close>

locale date_parser =
  fixes dparse :: "jsstring \<Rightarrow> int option"
  assumes parse_iso: "iso_range t \<Longrightarrow> dparse (iso_string t) = Some t"
begin

text \<open>Two instants with the same text are the same instant.\<close>

lemma iso_inj: "iso_range s \<Longrightarrow> iso_range t \<Longrightarrow> iso_string s = iso_string t \<Longrightarrow> s = t"
  by (metis option.inject parse_iso)

end

interpretation iso: date_parser iso_parse
  by unfold_locales (rule iso_parse_string)

end
