(* ===== verification/RelayState.thy ===== *)
theory RelayState
  imports JsValue Calendar
begin

text \<open>
  The relay's durable state, \<open>integrations/alexa-relay/src/state.js\<close>: the class \<open>StateStore\<close>.

  The private field \<open>#data\<close> is the record \<open>store_data\<close>. An operation changes \<open>#data\<close>
  synchronously and then calls \<open>#save\<close>, which takes the text of \<open>#data\<close> at that moment and
  appends a write to the promise chain \<open>#writeQueue\<close>; the writes run later, one after another.
  The machine of the second half has one event per operation and one per outcome of a file
  system call, so an interleaving is a list of events. A file holds the value of the JSON text
  written to it (\<open>json_image\<close>), or something that is not JSON.

  Parameter: \<open>dparse\<close>, \<open>Date.parse\<close> applied to a value (\<open>None\<close> is \<open>NaN\<close>).
\<close>

section \<open>The data and its operations\<close>

record store_data =
  snapshot :: jsval
  devices :: "jsstring list"

definition emptyState :: store_data where
  "emptyState = \<lparr>snapshot = JNull, devices = []\<rparr>"

definition validDeviceId :: "jsval \<Rightarrow> bool" where
  "validDeviceId v = (case v of
      JStr s \<Rightarrow> starts_with (js ''amzn1.ask.device.'') s \<and> length s \<le> 512
    | _ \<Rightarrow> False)"

text \<open>What \<open>readFile\<close> gives: the value of the text (\<open>None\<close>: not JSON), or the error's code.\<close>

datatype read_result = ReadText "jsval option" | ReadError jsstring

datatype state_error =
    FsError jsstring   \<comment> \<open>a file system error, with its code\<close>
  | LoadState          \<comment> \<open>\<open>load state: ...\<close>\<close>
  | DeviceLimit        \<comment> \<open>\<open>device limit reached\<close>\<close>

fun device_strings :: "jsval list \<Rightarrow> jsstring list" where
  "device_strings [] = []"
| "device_strings (JStr s # vs) =
     (if validDeviceId (JStr s) then s # device_strings vs else device_strings vs)"
| "device_strings (_ # vs) = device_strings vs"

text \<open>\<open>mk\<close> is the code of the error \<open>mkdir\<close> raised, if any.\<close>

definition load :: "jsstring option \<Rightarrow> read_result \<Rightarrow> state_error + store_data" where
  "load mk rd = (case mk of Some code \<Rightarrow> Inl (FsError code) | None \<Rightarrow> (case rd of
      ReadError code \<Rightarrow> (if code \<noteq> js ''ENOENT'' then Inl LoadState else Inr emptyState)
    | ReadText None \<Rightarrow> Inl LoadState
    | ReadText (Some parsed) \<Rightarrow>
        if nullish parsed then Inl LoadState
        else if get parsed (js ''version'') \<noteq> JNum (Fin 1) then Inl LoadState
        else (case get parsed (js ''devices'') of
            JArr ds \<Rightarrow> Inr \<lparr>snapshot = coalesce (get parsed (js ''snapshot'')) JNull,
                           devices = take 20 (dedup (device_strings ds))\<rparr>
          | _ \<Rightarrow> Inl LoadState)))"

definition get_snapshot :: "store_data \<Rightarrow> jsval" where
  "get_snapshot d = (if truthy (snapshot d) then snapshot d else JNull)"

definition get_devices :: "store_data \<Rightarrow> jsstring list" where
  "get_devices d = devices d"

text \<open>\<open>Date.parse(a) > Date.parse(b)\<close>.\<close>

fun later :: "int option \<Rightarrow> int option \<Rightarrow> bool" where
  "later (Some a) (Some b) = (b < a)"
| "later _ _ = False"

text \<open>An operation returns \<open>None\<close> for \<open>false\<close> and the new data, to be saved, for \<open>true\<close>.\<close>

definition updateSnapshot :: "(jsval \<Rightarrow> int option) \<Rightarrow> jsval \<Rightarrow> store_data \<Rightarrow> store_data option" where
  "updateSnapshot dparse snap d =
     (let current = snapshot d in
      if truthy current \<and> later (dparse (get current (js ''observedAt'')))
                               (dparse (get snap (js ''observedAt''))) then None
      else if truthy current \<and> json_image current = json_image snap then None
      else Some (d\<lparr>snapshot := snap\<rparr>))"

definition addDevice :: "jsval \<Rightarrow> store_data \<Rightarrow> state_error + store_data option" where
  "addDevice v d = (case v of
      JStr s \<Rightarrow>
        if \<not> validDeviceId (JStr s) \<or> s \<in> set (devices d) then Inr None
        else if 20 \<le> length (devices d) then Inl DeviceLimit
        else Inr (Some (d\<lparr>devices := devices d @ [s]\<rparr>))
    | _ \<Rightarrow> Inr None)"

definition removeDevice :: "jsstring \<Rightarrow> store_data \<Rightarrow> store_data option" where
  "removeDevice s d =
     (let ds = filter (\<lambda>item. item \<noteq> s) (devices d) in
      if length ds = length (devices d) then None else Some (d\<lparr>devices := ds\<rparr>))"

text \<open>The value of the text \<open>#save\<close> writes.\<close>

definition doc_of :: "store_data \<Rightarrow> jsval" where
  "doc_of d = json_image (JObj
     [(js ''version'', JNum (Fin 1)), (js ''snapshot'', snapshot d), (js ''devices'', JArr (map JStr (devices d)))])"

section \<open>The device list\<close>

definition devices_ok :: "store_data \<Rightarrow> bool" where
  "devices_ok d \<longleftrightarrow> distinct (devices d) \<and> length (devices d) \<le> 20
     \<and> list_all (\<lambda>s. validDeviceId (JStr s)) (devices d)"

lemma device_strings_valid: "list_all (\<lambda>s. validDeviceId (JStr s)) (device_strings vs)"
  by (induction vs rule: device_strings.induct) auto

lemma device_strings_map:
  "list_all (\<lambda>s. validDeviceId (JStr s)) ds \<Longrightarrow> device_strings (map JStr ds) = ds"
  by (induction ds) auto

lemma set_device_strings:
  "s \<in> set (device_strings vs) \<longleftrightarrow> JStr s \<in> set vs \<and> validDeviceId (JStr s)"
  by (induction vs rule: device_strings.induct) auto

lemma devices_ok_empty [simp]: "devices_ok emptyState"
  by (simp add: devices_ok_def emptyState_def)

lemma devices_ok_load: "load mk rd = Inr d \<Longrightarrow> devices_ok d"
proof -
  have "devices_ok \<lparr>snapshot = v, devices = take 20 (dedup (device_strings ds))\<rparr>" for v ds
    using device_strings_valid [of ds]
    by (auto simp: devices_ok_def list_all_iff distinct_take dest!: in_set_takeD)
  then show "load mk rd = Inr d \<Longrightarrow> devices_ok d"
    by (auto simp: load_def split: read_result.splits option.splits if_splits jsval.splits)
qed

lemma devices_ok_update: "devices_ok d \<Longrightarrow> updateSnapshot dp v d = Some d' \<Longrightarrow> devices_ok d'"
  by (auto simp: updateSnapshot_def devices_ok_def Let_def split: if_splits)

lemma devices_ok_add: "devices_ok d \<Longrightarrow> addDevice v d = Inr (Some d') \<Longrightarrow> devices_ok d'"
  by (auto simp: addDevice_def devices_ok_def split: if_splits jsval.splits)

lemma devices_ok_remove: "devices_ok d \<Longrightarrow> removeDevice s d = Some d' \<Longrightarrow> devices_ok d'"
proof (auto simp: removeDevice_def devices_ok_def Let_def list_all_iff split: if_splits)
  assume "length (devices d) \<le> 20"
  moreover have "length (filter (\<lambda>item. item \<noteq> s) (devices d)) \<le> length (devices d)"
    by (rule length_filter_le)
  ultimately show "length (filter (\<lambda>item. item \<noteq> s) (devices d)) \<le> 20" by linarith
qed

lemma addDevice_result:
  "addDevice v d = Inr (Some d') \<Longrightarrow> \<exists>s. v = JStr s \<and> devices d' = devices d @ [s] \<and> snapshot d' = snapshot d"
  by (auto simp: addDevice_def split: if_splits jsval.splits)

lemma removeDevice_result:
  "removeDevice s d = r \<Longrightarrow>
   (case r of None \<Rightarrow> s \<notin> set (devices d) | Some d' \<Rightarrow> set (devices d') = set (devices d) - {s} \<and> s \<in> set (devices d))"
proof -
  assume r: "removeDevice s d = r"
  show ?thesis
  proof (cases "s \<in> set (devices d)")
    case True
    then have "length (filter (\<lambda>item. item \<noteq> s) (devices d)) < length (devices d)"
      by (auto intro: length_filter_less)
    with r True show ?thesis by (auto simp: removeDevice_def Let_def)
  next
    case False
    then have "filter (\<lambda>item. item \<noteq> s) (devices d) = devices d"
      by (auto intro!: filter_True)
    with r False show ?thesis by (auto simp: removeDevice_def Let_def)
  qed
qed

section \<open>The write queue and the disk\<close>

datatype disk_file = Absent | Holds "jsval option"

fun read_file :: "disk_file \<Rightarrow> read_result" where
  "read_file Absent = ReadError (js ''ENOENT'')"
| "read_file (Holds v) = ReadText v"

text \<open>
  \<open>queue\<close> holds the texts whose write is not finished, oldest first; \<open>written\<close> says that the
  oldest has been written to the temporary file but not yet renamed. \<open>failed\<close> is a rejected
  \<open>#writeQueue\<close>: \<open>then\<close> on a rejected promise never runs its callback, so from then on no write
  happens. \<open>up\<close> is false once the process could not load its state.
\<close>

record store =
  data :: store_data
  queue :: "jsval list"
  written :: bool
  failed :: bool
  main_file :: disk_file
  tmp_file :: disk_file
  up :: bool

datatype store_event =
    Update jsval | Add jsval | Remove jsstring
  | WriteDone            \<comment> \<open>\<open>writeFile\<close> of the temporary file resolves\<close>
  | WriteFailed disk_file     \<comment> \<open>\<open>writeFile\<close> rejects and leaves the temporary file like this\<close>
  | RenameDone | RenameFailed
  | Restart              \<comment> \<open>the process stops at any point and a new one loads the file\<close>

definition save :: "store \<Rightarrow> store" where
  "save s = (if failed s then s else s\<lparr>queue := queue s @ [doc_of (data s)]\<rparr>)"

definition commit :: "store_data option \<Rightarrow> store \<Rightarrow> store" where
  "commit r s = (case r of None \<Rightarrow> s | Some d \<Rightarrow> save (s\<lparr>data := d\<rparr>))"

text \<open>
  A process that starts. \<open>load\<close> has every outcome of \<open>mkdir\<close> and \<open>readFile\<close>; here the directory is
  there and the file can be read if it exists: a process that cannot load its state answers nothing,
  so another start is all that can follow it.
\<close>

definition boot :: "disk_file \<Rightarrow> disk_file \<Rightarrow> store" where
  "boot f t = (case load None (read_file f) of
      Inl _ \<Rightarrow> \<lparr>data = emptyState, queue = [], written = False, failed = False, main_file = f, tmp_file = t, up = False\<rparr>
    | Inr d \<Rightarrow> \<lparr>data = d, queue = [], written = False, failed = False, main_file = f, tmp_file = t, up = True\<rparr>)"

definition reject :: "store \<Rightarrow> store" where
  "reject s = s\<lparr>queue := [], written := False, failed := True\<rparr>"

fun store_step :: "(jsval \<Rightarrow> int option) \<Rightarrow> store \<Rightarrow> store_event \<Rightarrow> store" where
  "store_step dp s Restart = (if up s then boot (main_file s) (tmp_file s) else s)"
| "store_step dp s (Update v) = (if up s then commit (updateSnapshot dp v (data s)) s else s)"
| "store_step dp s (Add v) =
     (if up s then (case addDevice v (data s) of Inl _ \<Rightarrow> s | Inr r \<Rightarrow> commit r s) else s)"
| "store_step dp s (Remove d) = (if up s then commit (removeDevice d (data s)) s else s)"
| "store_step dp s WriteDone =
     (case queue s of
        c # _ \<Rightarrow> if up s \<and> \<not> written s then s\<lparr>tmp_file := Holds (Some c), written := True\<rparr> else s
      | [] \<Rightarrow> s)"
| "store_step dp s (WriteFailed f) =
     (if up s \<and> queue s \<noteq> [] \<and> \<not> written s then reject (s\<lparr>tmp_file := f\<rparr>) else s)"
| "store_step dp s RenameDone =
     (if up s \<and> written s then s\<lparr>main_file := tmp_file s, tmp_file := Absent, queue := tl (queue s), written := False\<rparr> else s)"
| "store_step dp s RenameFailed = (if up s \<and> written s then reject s else s)"

abbreviation store_run :: "(jsval \<Rightarrow> int option) \<Rightarrow> store \<Rightarrow> store_event list \<Rightarrow> store" where
  "store_run dp \<equiv> foldl (store_step dp)"

section \<open>What a reload gives back\<close>

definition persisted :: "store_data \<Rightarrow> store_data" where
  "persisted d = d\<lparr>snapshot := json_image (snapshot d)\<rparr>"

lemma persisted_clean [simp]: "json_clean (snapshot d) \<Longrightarrow> persisted d = d"
  by (simp add: persisted_def)

lemma persisted_idem [simp]: "persisted (persisted d) = persisted d"
  by (simp add: persisted_def)

lemma load_doc_of:
  assumes "devices_ok d"
  shows "load None (ReadText (Some (doc_of d))) = Inr (persisted d)"
proof -
  have ds: "device_strings (map JStr (devices d)) = devices d"
    using assms by (intro device_strings_map) (simp add: devices_ok_def)
  have img: "map (json_image \<circ> JStr) (devices d) = map JStr (devices d)"
    by simp
  have snap: "coalesce (get (doc_of d) (js ''snapshot'')) JNull = json_image (snapshot d)"
    by (cases "snapshot d") (simp_all add: doc_of_def js_lit coalesce_def nullish_def)
  have "get (doc_of d) (js ''devices'') = JArr (map JStr (devices d))"
    "get (doc_of d) (js ''version'') = JNum (Fin 1)" "\<not> nullish (doc_of d)"
    by (simp_all add: doc_of_def js_lit nullish_def)
  with assms ds snap show ?thesis
    by (simp add: load_def devices_ok_def persisted_def)
qed

section \<open>Invariant of the store\<close>

text \<open>The file on disk can be loaded, and gives the data \<open>d\<close> up to what JSON keeps.\<close>

definition reloads :: "disk_file \<Rightarrow> store_data \<Rightarrow> bool" where
  "reloads f d \<longleftrightarrow> (case load None (read_file f) of Inl _ \<Rightarrow> False | Inr d' \<Rightarrow> persisted d' = persisted d)"

definition loadable :: "disk_file \<Rightarrow> bool" where
  "loadable f \<longleftrightarrow> (case load None (read_file f) of Inl _ \<Rightarrow> False | Inr _ \<Rightarrow> True)"

definition store_inv :: "store \<Rightarrow> bool" where
  "store_inv s \<longleftrightarrow> up s \<and> devices_ok (data s) \<and> loadable (main_file s)
     \<and> list_all (\<lambda>c. loadable (Holds (Some c))) (queue s)
     \<and> (written s \<longrightarrow> queue s \<noteq> [] \<and> tmp_file s = Holds (Some (hd (queue s))))
     \<and> (failed s \<longrightarrow> queue s = [])
     \<and> (\<not> failed s \<longrightarrow> (if queue s = [] then reloads (main_file s) (data s) else last (queue s) = doc_of (data s)))"

lemma reloads_doc: "devices_ok d \<Longrightarrow> reloads (Holds (Some (doc_of d))) d"
  by (simp add: reloads_def load_doc_of)

lemma loadable_doc: "devices_ok d \<Longrightarrow> loadable (Holds (Some (doc_of d)))"
  by (simp add: loadable_def load_doc_of)

lemma loadable_boot_inv: "loadable f \<Longrightarrow> store_inv (boot f t)"
  by (auto simp: store_inv_def boot_def loadable_def reloads_def split: sum.splits dest: devices_ok_load)

lemma store_inv_commit:
  assumes "store_inv s" "devices_ok d"
  shows "store_inv (save (s\<lparr>data := d\<rparr>))"
  using assms by (auto simp: store_inv_def save_def loadable_doc hd_append)

lemma commit_inv:
  "store_inv s \<Longrightarrow> (\<And>d. r = Some d \<Longrightarrow> devices_ok d) \<Longrightarrow> store_inv (commit r s)"
  by (auto simp: commit_def store_inv_commit split: option.splits)

lemma rename_inv:
  assumes inv: "store_inv s" and w: "written s"
  shows "store_inv (s\<lparr>main_file := tmp_file s, tmp_file := Absent, queue := tl (queue s), written := False\<rparr>)"
proof -
  obtain c q where q: "queue s = c # q" and t: "tmp_file s = Holds (Some c)"
    using inv w by (cases "queue s") (auto simp: store_inv_def)
  have nf: "\<not> failed s" using inv q by (auto simp: store_inv_def)
  have "q = [] \<Longrightarrow> reloads (tmp_file s) (data s)"
    using inv q t nf by (auto simp: store_inv_def intro: reloads_doc)
  then show ?thesis using inv q t nf by (auto simp: store_inv_def)
qed

lemma write_inv: "store_inv s \<Longrightarrow> queue s = c # q \<Longrightarrow> store_inv (s\<lparr>tmp_file := Holds (Some c), written := True\<rparr>)"
  by (auto simp: store_inv_def)

lemma reject_inv: "store_inv s \<Longrightarrow> store_inv (reject s)"
  by (auto simp: store_inv_def reject_def)

lemma reject_tmp_inv: "store_inv s \<Longrightarrow> \<not> written s \<Longrightarrow> store_inv (reject (s\<lparr>tmp_file := f\<rparr>))"
  by (auto simp: store_inv_def reject_def)

lemma store_invD: "store_inv s \<Longrightarrow> up s" "store_inv s \<Longrightarrow> devices_ok (data s)"
  "store_inv s \<Longrightarrow> loadable (main_file s)"
  by (simp_all add: store_inv_def)

lemma commit_invs:
  assumes "store_inv s"
  shows "store_inv (commit (updateSnapshot dp v (data s)) s)"
    and "store_inv (commit (removeDevice d (data s)) s)"
    and "addDevice v (data s) = Inr r \<Longrightarrow> store_inv (commit r s)"
  using assms devices_ok_update devices_ok_add devices_ok_remove store_invD(2)
  by (blast intro: commit_inv)+

lemma store_step_inv: "store_inv s \<Longrightarrow> store_inv (store_step dp s e)"
  by (cases e)
    (auto simp: store_invD split: list.splits sum.splits
      intro: loadable_boot_inv commit_invs write_inv reject_inv reject_tmp_inv rename_inv)

text \<open>The store is an event-driven component with this invariant, for every \<open>Date.parse\<close>.\<close>

interpretation store_machine: event_machine "store_step dp" store_inv for dp
  by unfold_locales (rule store_step_inv)

section \<open>Which data a file holds\<close>

text \<open>
  Every text in the queue and the file on disk was the current data after some prefix of the
  run, so no crash leaves a mixture.
\<close>

definition from_history :: "(jsval \<Rightarrow> int option) \<Rightarrow> store \<Rightarrow> store_event list \<Rightarrow> jsval \<Rightarrow> bool" where
  "from_history dp s0 es c \<longleftrightarrow> (\<exists>n \<le> length es. c = doc_of (data (store_run dp s0 (take n es))))"

lemma from_history_snoc: "from_history dp s0 es c \<Longrightarrow> from_history dp s0 (es @ [e]) c"
  unfolding from_history_def by (metis diff_is_0_eq le_SucI length_append_singleton take_append take_0 append_Nil2)

lemma from_history_now: "from_history dp s0 es (doc_of (data (store_run dp s0 es)))"
  unfolding from_history_def by (rule exI [of _ "length es"]) simp

definition history_ok :: "(jsval \<Rightarrow> int option) \<Rightarrow> store \<Rightarrow> store_event list \<Rightarrow> store \<Rightarrow> bool" where
  "history_ok dp s0 es s \<longleftrightarrow> list_all (from_history dp s0 es) (queue s)
     \<and> (main_file s = main_file s0 \<or> (\<exists>c. main_file s = Holds (Some c) \<and> from_history dp s0 es c))"

lemma history_ok_weaken: "history_ok dp s0 es s \<Longrightarrow> history_ok dp s0 (es @ [e]) s"
  by (auto simp: history_ok_def list_all_iff intro: from_history_snoc)

text \<open>What one event does to the queue and the file.\<close>

lemma in_set_tlD: "x \<in> set (tl xs) \<Longrightarrow> x \<in> set xs"
  by (cases xs) auto

lemma boot_fields [simp]: "queue (boot f t) = []" "main_file (boot f t) = f"
  by (simp_all add: boot_def split: sum.splits)

lemma store_step_queue:
  "store_inv s \<Longrightarrow>
   set (queue (store_step dp s e)) \<subseteq> insert (doc_of (data (store_step dp s e))) (set (queue s))"
  by (cases e)
    (auto simp: commit_def save_def reject_def
      split: option.splits list.splits sum.splits dest: in_set_tlD)

lemma store_step_file:
  "store_inv s \<Longrightarrow> main_file (store_step dp s e) = main_file s
     \<or> (e = RenameDone \<and> queue s \<noteq> [] \<and> main_file (store_step dp s e) = Holds (Some (hd (queue s))))"
  by (cases e)
    (auto simp: commit_def save_def reject_def store_inv_def
      split: option.splits list.splits sum.splits)

lemma history_ok_run:
  assumes "store_inv s0" "queue s0 = []"
  shows "history_ok dp s0 es (store_run dp s0 es)"
proof (induction es rule: rev_induct)
  case Nil
  show ?case using assms by (simp add: history_ok_def)
next
  case (snoc e es)
  define s where "s = store_run dp s0 es"
  have inv: "store_inv s" unfolding s_def using assms(1) by (rule store_machine.run_inv)
  have run: "store_run dp s0 (es @ [e]) = store_step dp s e" by (simp add: s_def)
  have hist: "history_ok dp s0 (es @ [e]) s" using snoc by (simp add: s_def history_ok_weaken)
  have "from_history dp s0 (es @ [e]) (doc_of (data (store_step dp s e)))"
    using from_history_now [of dp s0 "es @ [e]"] by (simp only: run)
  with hist store_step_queue [OF inv, of dp e]
  have "list_all (from_history dp s0 (es @ [e])) (queue (store_step dp s e))"
    by (auto simp: history_ok_def list_all_iff)
  moreover have "main_file (store_step dp s e) = main_file s0 \<or>
      (\<exists>c. main_file (store_step dp s e) = Holds (Some c) \<and> from_history dp s0 (es @ [e]) c)"
    using store_step_file [OF inv, of dp e] hist
    by (auto simp: history_ok_def list_all_iff)
  ultimately show ?case unfolding run history_ok_def by blast
qed

lemma store_step_failed:
  "store_inv s \<Longrightarrow> failed s \<Longrightarrow> e \<noteq> Restart \<Longrightarrow>
   failed (store_step dp s e) \<and> main_file (store_step dp s e) = main_file s"
  by (cases e) (auto simp: commit_def save_def store_inv_def split: option.splits sum.splits)

lemma store_run_failed:
  "store_inv s \<Longrightarrow> failed s \<Longrightarrow> Restart \<notin> set es \<Longrightarrow>
   failed (store_run dp s es) \<and> main_file (store_run dp s es) = main_file s"
proof (induction es arbitrary: s)
  case (Cons e es)
  then have "failed (store_step dp s e) \<and> main_file (store_step dp s e) = main_file s"
    by (intro store_step_failed) auto
  with Cons show ?case using store_step_inv by fastforce
qed simp

text \<open>What the operations do to the data alone.\<close>

fun op_data :: "(jsval \<Rightarrow> int option) \<Rightarrow> store_data \<Rightarrow> store_event \<Rightarrow> store_data" where
  "op_data dp d (Update v) = or_else (updateSnapshot dp v d) d"
| "op_data dp d (Add v) = (case addDevice v d of Inr (Some d') \<Rightarrow> d' | _ \<Rightarrow> d)"
| "op_data dp d (Remove i) = or_else (removeDevice i d) d"
| "op_data dp d _ = d"

lemma store_run_data: "up s \<Longrightarrow> Restart \<notin> set es \<Longrightarrow> data (store_run dp s es) = foldl (op_data dp) (data s) es"
proof (induction es arbitrary: s)
  case (Cons e es)
  have "up (store_step dp s e) \<and> data (store_step dp s e) = op_data dp (data s) e"
    using Cons.prems
    by (cases e) (auto simp: commit_def save_def reject_def or_else_def split: option.splits sum.splits list.splits)
  with Cons show ?case by simp
qed simp

lemma boot_loaded: "load None (read_file f) = Inr d \<Longrightarrow> store_inv (boot f t)"
  by (rule loadable_boot_inv) (simp add: loadable_def)

text \<open>Any run keeps the device list in order, also of a process that could not start.\<close>

lemma store_run_down: "\<not> up s \<Longrightarrow> store_run dp s es = s"
proof (induction es)
  case (Cons e es)
  then have "store_step dp s e = s" by (cases e) (auto split: list.splits)
  with Cons show ?case by simp
qed simp

lemma store_run_devices_ok: "devices_ok (data (store_run dp (boot f t) es))"
proof (cases "load None (read_file f)")
  case (Inl e)
  then have "\<not> up (boot f t)" "devices_ok (data (boot f t))" by (simp_all add: boot_def)
  then show ?thesis by (simp add: store_run_down)
next
  case (Inr d)
  then show ?thesis
    by (intro store_invD(2) store_machine.run_inv) (rule boot_loaded)
qed

section \<open>The newest snapshot wins\<close>

definition date_of :: "(jsval \<Rightarrow> int option) \<Rightarrow> jsval \<Rightarrow> int option" where
  "date_of dp v = dp (get v (js ''observedAt''))"

text \<open>The snapshot after a sequence of updates, on the data alone.\<close>

lemma store_run_updates:
  "up s \<Longrightarrow> data (store_run dp s (map Update vs)) =
     foldl (\<lambda>d v. case updateSnapshot dp v d of None \<Rightarrow> d | Some d' \<Rightarrow> d') (data s) vs
   \<and> up (store_run dp s (map Update vs))"
proof (induction vs arbitrary: s)
  case (Cons v vs)
  have "up (store_step dp s (Update v))"
    "data (store_step dp s (Update v)) = (case updateSnapshot dp v (data s) of None \<Rightarrow> data s | Some d' \<Rightarrow> d')"
    using Cons.prems by (auto simp: commit_def save_def split: option.splits)
  with Cons.IH [of "store_step dp s (Update v)"] show ?case by simp
qed simp

definition dated :: "(jsval \<Rightarrow> int option) \<Rightarrow> jsval \<Rightarrow> bool" where
  "dated dp v \<longleftrightarrow> truthy v \<and> json_clean v \<and> date_of dp v \<noteq> None"

lemma update_dated:
  assumes "dated dp v" "dated dp (snapshot d)" "date_of dp (snapshot d) = Some a" "date_of dp v = Some b"
  defines "d' \<equiv> (case updateSnapshot dp v d of None \<Rightarrow> d | Some d' \<Rightarrow> d')"
  shows "dated dp (snapshot d')" and "date_of dp (snapshot d') = Some (max a b)"
  using assms by (auto simp: updateSnapshot_def dated_def date_of_def Let_def max_def)

lemma updates_max:
  assumes "dated dp (snapshot d)" "date_of dp (snapshot d) = Some a" "\<forall>v \<in> set vs. dated dp v"
  shows "date_of dp (snapshot (foldl (\<lambda>d v. case updateSnapshot dp v d of None \<Rightarrow> d | Some d' \<Rightarrow> d') d vs))
    = Some (fold max (map (the \<circ> date_of dp) vs) a)"
  using assms
proof (induction vs arbitrary: d a)
  case (Cons v vs)
  obtain b where b: "date_of dp v = Some b" using Cons.prems by (auto simp: dated_def)
  have v: "dated dp v" using Cons.prems by simp
  show ?case
    using Cons.IH [OF update_dated [OF v Cons.prems(1,2) b]] Cons.prems(3) b
    by (simp add: max.commute)
qed simp

lemma updates_max_empty:
  assumes "\<not> truthy (snapshot d)" "\<forall>v \<in> set (v # vs). dated dp v"
  shows "date_of dp (snapshot (foldl (\<lambda>d v. case updateSnapshot dp v d of None \<Rightarrow> d | Some d' \<Rightarrow> d') d (v # vs)))
    = Some (Max (set (map (the \<circ> date_of dp) (v # vs))))"
proof -
  have step: "updateSnapshot dp v d = Some (d\<lparr>snapshot := v\<rparr>)"
    using assms(1) by (simp add: updateSnapshot_def Let_def)
  obtain b where b: "date_of dp v = Some b" using assms by (auto simp: dated_def)
  have "dated dp (snapshot (d\<lparr>snapshot := v\<rparr>))" "date_of dp (snapshot (d\<lparr>snapshot := v\<rparr>)) = Some b"
    using assms b by simp_all
  from updates_max [OF this, of vs] assms(2) step b show ?thesis
    by (simp add: Max.set_eq_fold [symmetric] del: Max_insert)
qed

section \<open>Properties of the store\<close>

text \<open>A concrete \<open>Date.parse\<close> and concrete snapshots for the witnesses.\<close>

definition text_date :: "jsval \<Rightarrow> int option" where
  "text_date v = (case v of JStr s \<Rightarrow> iso_parse s | _ \<Rightarrow> None)"

definition sample_snapshot :: "int \<Rightarrow> jsval" where
  "sample_snapshot t = JObj [(js ''observedAt'', JStr (iso_string t)), (js ''stale'', JBool False)]"

definition sample_device :: jsval where
  "sample_device = JStr (js ''amzn1.ask.device.A1'')"

lemma sample_snapshot_simps [simp]:
  "truthy (sample_snapshot t)" "json_clean (sample_snapshot t)"
  "get (sample_snapshot t) (js ''observedAt'') = JStr (iso_string t)"
  by (simp_all add: sample_snapshot_def js_lit)

lemma load_absent: "load None (read_file Absent) = Inr emptyState"
  by (simp add: load_def)

lemma dated_sample: "iso_range t \<Longrightarrow> dated text_date (sample_snapshot t)"
  by (simp add: dated_def date_of_def text_date_def iso.parse_iso)

text \<open>
  C1. Crash safety: from a file that loads, after any sequence of operations, completed or failed
  writes and restarts, the process is up and the file on disk is the initial one or loads to
  exactly what JSON keeps of the data at some earlier point of the run; never a mixture.
\<close>

theorem store_crash_safe:
  assumes "load None (read_file f) = Inr d"
  shows "up (store_run dp (boot f t) es) \<and>
    (main_file (store_run dp (boot f t) es) = f \<or>
     (\<exists>n \<le> length es. load None (read_file (main_file (store_run dp (boot f t) es)))
        = Inr (persisted (data (store_run dp (boot f t) (take n es))))))"
proof -
  have inv: "store_inv (boot f t)" using assms by (rule boot_loaded)
  have "history_ok dp (boot f t) es (store_run dp (boot f t) es)"
    using inv by (rule history_ok_run) simp
  moreover have "up (store_run dp (boot f t) es)"
    by (rule store_invD(1)) (rule store_machine.run_inv [OF inv])
  ultimately show ?thesis
    using load_doc_of [OF store_invD(2) [OF store_machine.run_prefix_inv [OF inv]]]
    by (auto simp: history_ok_def from_history_def)
qed

lemma store_crash_safe_witness:
  "up (store_run text_date (boot Absent Absent) [Add sample_device, WriteDone, RenameDone, Restart])"
  by (rule conjunct1 [OF store_crash_safe [OF load_absent]])

text \<open>
  Durability: whenever no write has failed and the write queue is empty, loading the file on
  disk gives back the data in memory, up to what JSON keeps.
\<close>

lemma store_quiescent:
  assumes "load None (read_file f) = Inr d"
    and "\<not> failed (store_run dp (boot f t) es)" "queue (store_run dp (boot f t) es) = []"
  shows "\<exists>d'. load None (read_file (main_file (store_run dp (boot f t) es))) = Inr d'
     \<and> persisted d' = persisted (data (store_run dp (boot f t) es))"
proof -
  have "store_inv (store_run dp (boot f t) es)"
    by (rule store_machine.run_inv) (rule boot_loaded [OF assms(1)])
  with assms(2,3) show ?thesis
    by (auto simp: store_inv_def reloads_def split: sum.splits)
qed

lemma store_quiescent_witness:
  "\<exists>d'. load None (read_file (main_file (store_run text_date (boot Absent Absent)
        [Update (sample_snapshot 0), WriteDone, RenameDone]))) = Inr d' \<and> snapshot d' = sample_snapshot 0"
proof -
  define s where "s = store_run text_date (boot Absent Absent) [Update (sample_snapshot 0), WriteDone, RenameDone]"
  have "s = \<lparr>data = emptyState\<lparr>snapshot := sample_snapshot 0\<rparr>, queue = [], written = False, failed = False,
      main_file = Holds (Some (doc_of (emptyState\<lparr>snapshot := sample_snapshot 0\<rparr>))), tmp_file = Absent, up = True\<rparr>"
    by (simp add: s_def boot_def load_def updateSnapshot_def emptyState_def commit_def save_def)
  then have run: "data s = emptyState\<lparr>snapshot := sample_snapshot 0\<rparr>" "\<not> failed s" "queue s = []"
    and content: "main_file s = Holds (Some (doc_of (data s)))" by simp_all
  from store_quiescent [OF load_absent run(2,3) [unfolded s_def], folded s_def] obtain d' where
    d': "load None (read_file (main_file s)) = Inr d'" "persisted d' = persisted (data s)" by blast
  have "devices_ok (data s)" by (simp add: run(1) devices_ok_def emptyState_def)
  from load_doc_of [OF this] d'(1) have "d' = persisted (data s)" by (simp add: content)
  with d'(1) show ?thesis unfolding s_def [symmetric] by (simp add: run(1) emptyState_def)
qed

text \<open>
  C27. A single failed write rejects the write queue for good: until the process restarts, no later
  operation changes the file on disk, although each changes the data in memory just as it would have
  otherwise (\<open>op_data\<close>).
\<close>

theorem store_failed_forever:
  assumes "load None (read_file f) = Inr d" "failed (store_run dp (boot f t) es)"
    and "Restart \<notin> set es'"
  shows "main_file (store_run dp (boot f t) (es @ es')) = main_file (store_run dp (boot f t) es)
    \<and> failed (store_run dp (boot f t) (es @ es'))
    \<and> data (store_run dp (boot f t) (es @ es')) = foldl (op_data dp) (data (store_run dp (boot f t) es)) es'"
proof -
  have inv: "store_inv (store_run dp (boot f t) es)"
    by (rule store_machine.run_inv) (rule boot_loaded [OF assms(1)])
  show ?thesis using store_run_failed [OF inv assms(2,3)] store_run_data [OF store_invD(1) [OF inv] assms(3)] by simp
qed

lemma store_failed_forever_witness:
  "let es = [Update (sample_snapshot 0), WriteFailed Absent];
       es' = [Add sample_device, WriteDone, RenameDone];
       s = store_run text_date (boot Absent Absent) (es @ es') in
   main_file s = Absent \<and> failed s \<and> devices (data s) = [js ''amzn1.ask.device.A1'']"
proof -
  let ?es = "[Update (sample_snapshot 0), WriteFailed Absent]"
  let ?es' = "[Add sample_device, WriteDone, RenameDone]"
  define s1 s2 where "s1 = store_run text_date (boot Absent Absent) ?es"
    and "s2 = store_run text_date (boot Absent Absent) (?es @ ?es')"
  have fail: "failed s1" and f: "main_file s1 = Absent" and d: "devices (data s1) = []"
    by (simp_all add: s1_def boot_def load_def updateSnapshot_def emptyState_def commit_def save_def reject_def)
  have n: "Restart \<notin> set ?es'" by simp
  have "main_file s2 = main_file s1 \<and> failed s2 \<and> data s2 = foldl (op_data text_date) (data s1) ?es'"
    unfolding s1_def s2_def by (rule store_failed_forever [OF load_absent _ n]) (fact fail [unfolded s1_def])
  then show ?thesis unfolding Let_def s2_def [symmetric] using f d
    by (simp add: addDevice_def sample_device_def validDeviceId_def js_lit)
qed

text \<open>
  The device list: whatever file the process starts from and whatever happens, the list holds
  at most twenty identifiers, without duplicates, each a valid Alexa device identifier.
\<close>

lemma store_devices_bounded:
  "distinct (devices (data (store_run dp (boot f t) es)))
   \<and> length (devices (data (store_run dp (boot f t) es))) \<le> 20
   \<and> list_all (\<lambda>s. validDeviceId (JStr s)) (devices (data (store_run dp (boot f t) es)))"
  using store_run_devices_ok [of dp f t es] by (simp add: devices_ok_def)

text \<open>
  The newest snapshot wins: after snapshots with readable dates are received in any order by a
  relay without one, the snapshot kept has the latest of their dates.
\<close>

lemma store_newest_wins:
  assumes "up s" "\<not> truthy (snapshot (data s))" "\<forall>v \<in> set (v0 # vs). dated dp v"
  shows "date_of dp (snapshot (data (store_run dp s (map Update (v0 # vs)))))
    = Some (Max (set (map (the \<circ> date_of dp) (v0 # vs))))"
  using updates_max_empty [OF assms(2,3)] store_run_updates [OF assms(1), of dp "v0 # vs"] by simp

lemma store_newest_wins_witness:
  "date_of text_date (snapshot (data (store_run text_date (boot Absent Absent)
      (map Update [sample_snapshot 5000, sample_snapshot 9000, sample_snapshot 0])))) = Some 9000"
proof -
  have r: "iso_range 5000" "iso_range 9000" "iso_range 0" by code_simp+
  then have "dated text_date (sample_snapshot 5000)" "dated text_date (sample_snapshot 9000)"
    "dated text_date (sample_snapshot 0)" by (simp_all add: dated_sample)
  moreover have "up (boot Absent Absent)" "\<not> truthy (snapshot (data (boot Absent Absent)))"
    by (simp_all add: boot_def load_def emptyState_def)
  ultimately show ?thesis
    using store_newest_wins [of "boot Absent Absent" "sample_snapshot 5000" "[sample_snapshot 9000, sample_snapshot 0]" text_date] r
    by (simp add: date_of_def text_date_def iso.parse_iso)
qed

end
