(* ===== verification/JsShow.thy ===== *)
theory JsShow
  imports JsText
begin

text \<open>
  Numbers and text: \<open>String(x)\<close> of any number (the shortest decimal digits that read back as the
  number, laid out with or without an exponent) and \<open>Number(s)\<close> of the texts the source's decimal
  regular expression admits.

  The lemmas end in the round trip \<open>decimal_text_number\<close>: a number between \<open>10 ^ -6\<close> and
  \<open>10 ^ 15\<close> printed and read back is the same number. Its core is \<open>fl_rat_near\<close>: seventeen
  significant digits determine a binary64 value.
\<close>

section \<open>Decimal texts\<close>

text \<open>The sign, the digits before the point and the digits after it.\<close>

definition split_sign :: "jsstring \<Rightarrow> bool \<times> jsstring" where
  "split_sign s = (case s of [] \<Rightarrow> (False, []) | c # t \<Rightarrow> if c = 45 then (True, t) else if c = 43 then (False, t) else (False, s))"

definition whole_digits :: "jsstring \<Rightarrow> jsstring" where
  "whole_digits t = takeWhile is_digit t"

definition after_whole :: "jsstring \<Rightarrow> jsstring" where
  "after_whole t = dropWhile is_digit t"

text \<open>\<open>/^[+-]?(?:\d+(?:\.\d*)?|\.\d+)$/\<close>.\<close>

definition decimal_shape :: "jsstring \<Rightarrow> bool" where
  "decimal_shape s \<longleftrightarrow> (let t = snd (split_sign s); r = after_whole t in
     if whole_digits t \<noteq> [] then r = [] \<or> hd r = 46 \<and> list_all is_digit (tl r)
     else r \<noteq> [] \<and> hd r = 46 \<and> tl r \<noteq> [] \<and> list_all is_digit (tl r))"

definition decimal_value :: "jsstring \<Rightarrow> rat" where
  "decimal_value s = (let t = snd (split_sign s); f = tl (after_whole t);
     q = of_nat (digits_val (whole_digits t)) + of_nat (digits_val f) / 10 ^ length f in
     if fst (split_sign s) then - q else q)"

text \<open>\<open>Number(s)\<close> of such a text: the exact value, rounded.\<close>

definition number_of_decimal :: "jsstring \<Rightarrow> jsnum" where
  "number_of_decimal s = fl (decimal_value s)"

section \<open>Printing a number\<close>

text \<open>The \<open>n\<close> with \<open>10 ^ (n - 1) \<le> x < 10 ^ n\<close>, for positive \<open>x\<close>.\<close>

definition dec_exp :: "rat \<Rightarrow> int" where
  "dec_exp x = (if 1 \<le> x then int (length (show_nat (nat \<lfloor>x\<rfloor>)))
     else 1 - int (length (show_nat (nat (\<lceil>1 / x\<rceil> - 1)))))"

text \<open>An integer \<open>c\<close> and the exponent of its last digit, with \<open>k\<close> digits, that reads back as \<open>x\<close>.\<close>

definition digits_at :: "rat \<Rightarrow> nat \<Rightarrow> (int \<times> int) option" where
  "digits_at x k = (let p = dec_exp x - int k; t = x / 10 powi p; near = round_half_even t;
     cs = filter (\<lambda>c. fl_rat (of_int c * 10 powi p) = x) [near, if near = \<lfloor>t\<rfloor> then near + 1 else near - 1] in
     case cs of [] \<Rightarrow> None | c # _ \<Rightarrow> Some (if c = 10 ^ k then (10 ^ (k - 1), p + 1) else (c, p)))"

fun first_some :: "('a \<Rightarrow> 'b option) \<Rightarrow> 'a list \<Rightarrow> 'b option" where
  "first_some f [] = None"
| "first_some f (x # xs) = (case f x of None \<Rightarrow> first_some f xs | Some y \<Rightarrow> Some y)"

definition shortest :: "rat \<Rightarrow> (int \<times> int) option" where
  "shortest x = first_some (digits_at x) [1..<18]"

text \<open>The layout of \<open>Number::toString\<close>, with the digits \<open>d\<close> of \<open>c\<close>.\<close>

definition lay_out :: "jsstring \<Rightarrow> int \<Rightarrow> jsstring" where
  "lay_out d p = (let k = int (length d); n = p + k in
     if k \<le> n \<and> n \<le> 21 then d @ replicate (nat p) 48
     else if 0 < n \<and> n \<le> 21 then take (nat n) d @ [46] @ drop (nat n) d
     else if -6 < n \<and> n \<le> 0 then [48, 46] @ replicate (nat (- n)) 48 @ d
     else take 1 d @ (if length d = 1 then [] else [46] @ drop 1 d) @ [101]
       @ (if n - 1 < 0 then [45] else [43]) @ show_nat (nat \<bar>n - 1\<bar>))"

definition positive_text :: "rat \<Rightarrow> jsstring" where
  "positive_text x = (case shortest x of None \<Rightarrow> [] | Some (c, p) \<Rightarrow> lay_out (show_nat (nat c)) p)"

fun num_text :: "jsnum \<Rightarrow> jsstring" where
  "num_text NaN = js ''NaN''"
| "num_text PInf = js ''Infinity''"
| "num_text NInf = js ''-Infinity''"
| "num_text (Fin x) = (if x = 0 then [48] else if 0 < x then positive_text x else 45 # positive_text (- x))"

section \<open>Decimal exponents\<close>

lemma ten_powi_add: "(10::rat) powi (k + l) = 10 powi k * 10 powi l"
  by (rule power_int_add) simp

lemma ten_powi_pos [simp]: "0 < (10::rat) powi k"
  by simp

lemma ten_powi_mono: "k \<le> l \<Longrightarrow> (10::rat) powi k \<le> 10 powi l"
  by (rule power_int_increasing) simp_all

lemma powi_neg: "p < 0 \<Longrightarrow> (x::rat) * b powi p = x / b ^ nat (- p)"
proof -
  assume "p < 0"
  then have "\<not> 0 \<le> p" by simp
  then show ?thesis by (simp only: power_int_def if_False divide_inverse power_inverse)
qed

lemma ten_powi_less_cancel: "(10::rat) powi k < 10 powi l \<Longrightarrow> k < l"
  by (meson not_less ten_powi_mono)

lemma show_nat_upper: "n < 10 ^ length (show_nat n)"
  using digits_val_bound [OF show_nat_digits, of n] by simp

lemma show_nat_lower:
  assumes "0 < n"
  shows "10 ^ (length (show_nat n) - 1) \<le> n"
proof (rule ccontr)
  assume less: "\<not> 10 ^ (length (show_nat n) - 1) \<le> n"
  show False
  proof (cases "length (show_nat n) - 1 = 0")
    case True
    with less assms show False by simp
  next
    case False
    with less length_show_nat [of "length (show_nat n) - 1" n] show False by simp
  qed
qed

lemma length_show_nat_eq:
  assumes "10 ^ (k - 1) \<le> n" "n < 10 ^ k" "0 < k"
  shows "length (show_nat n) = k"
proof -
  have "(10::nat) ^ (k - 1) < 10 ^ length (show_nat n)"
    using assms show_nat_upper [of n] by linarith
  then have "k - 1 < length (show_nat n)" by simp
  moreover have "length (show_nat n) \<le> k" using assms by (intro length_show_nat)
  ultimately show ?thesis using assms by simp
qed

lemma show_nat_length_bounds:
  assumes "0 < n"
  shows "10 powi (int (length (show_nat n)) - 1) \<le> rat_of_nat n" "rat_of_nat n < 10 powi int (length (show_nat n))"
proof -
  obtain k where k: "length (show_nat n) = Suc k" using not0_implies_Suc [of "length (show_nat n)"] by auto
  have "rat_of_nat (10 ^ k) \<le> rat_of_nat n"
    using show_nat_lower [OF assms] unfolding k of_nat_le_iff by simp
  then show "10 powi (int (length (show_nat n)) - 1) \<le> rat_of_nat n"
    unfolding k by simp
  have "rat_of_nat n < rat_of_nat (10 ^ length (show_nat n))"
    using show_nat_upper [of n] by (simp only: of_nat_less_iff)
  then show "rat_of_nat n < 10 powi int (length (show_nat n))" by simp
qed

lemma dec_exp_bounds:
  assumes "0 < x"
  shows "10 powi (dec_exp x - 1) \<le> x" "x < 10 powi dec_exp x"
proof -
  have "10 powi (dec_exp x - 1) \<le> x \<and> x < 10 powi dec_exp x"
  proof (cases "1 \<le> x")
    case True
    define m where "m = nat \<lfloor>x\<rfloor>"
    have f: "1 \<le> \<lfloor>x\<rfloor>" using True by (simp add: le_floor_iff)
    then have m: "0 < m" "int m = \<lfloor>x\<rfloor>" by (simp_all add: m_def)
    have e: "dec_exp x = int (length (show_nat m))" using True by (simp add: dec_exp_def m_def)
    have lo: "rat_of_nat m \<le> x" using m(2) of_int_floor_le [of x] by (metis of_int_of_nat_eq)
    have "m + 1 \<le> 10 ^ length (show_nat m)" using show_nat_upper [of m] by simp
    then have "rat_of_nat (m + 1) \<le> rat_of_nat (10 ^ length (show_nat m))" by (simp only: of_nat_le_iff)
    then have hi: "rat_of_nat m + 1 \<le> 10 powi dec_exp x" by (simp add: e)
    have "x < of_int \<lfloor>x\<rfloor> + 1" by linarith
    also have "of_int \<lfloor>x\<rfloor> = rat_of_nat m" using m(2) by (metis of_int_of_nat_eq)
    finally have "x < 10 powi dec_exp x" using hi by linarith
    moreover have "10 powi (dec_exp x - 1) \<le> x"
      using show_nat_length_bounds(1) [OF m(1)] lo unfolding e by linarith
    ultimately show ?thesis by simp
  next
    case False
    define m where "m = nat (\<lceil>1 / x\<rceil> - 1)"
    have inv: "1 < 1 / x" using False assms by simp
    then have c: "1 < \<lceil>1 / x\<rceil>" by (metis less_ceiling_iff of_int_1)
    then have m: "0 < m" "int m = \<lceil>1 / x\<rceil> - 1" unfolding m_def by linarith+
    define l where "l = int (length (show_nat m))"
    have e: "dec_exp x = 1 - l" using False by (simp add: dec_exp_def m_def l_def)
    have "rat_of_int \<lceil>1 / x\<rceil> - 1 < 1 / x" by linarith
    moreover have "rat_of_nat m = rat_of_int \<lceil>1 / x\<rceil> - 1"
      using m(2) by (metis of_int_1 of_int_diff of_int_of_nat_eq)
    ultimately have lo: "rat_of_nat m < 1 / x" by simp
    have "m + 1 \<le> 10 ^ length (show_nat m)" using show_nat_upper [of m] by simp
    then have "rat_of_nat (m + 1) \<le> rat_of_nat (10 ^ length (show_nat m))" by (simp only: of_nat_le_iff)
    then have "rat_of_nat m + 1 \<le> 10 powi l" by (simp add: l_def)
    then have hi: "1 / x \<le> 10 powi l"
      using \<open>rat_of_nat m = rat_of_int \<lceil>1 / x\<rceil> - 1\<close> le_of_int_ceiling [of "1 / x"] by linarith
    have inv_powi: "10 powi (- k) = 1 / (10::rat) powi k" for k :: int by (simp add: power_int_minus divide_inverse)
    have "10 powi (l - 1) < 1 / x" using show_nat_length_bounds(1) [OF m(1)] lo by (simp add: l_def)
    then have "x < 1 / 10 powi (l - 1)" using assms by (simp add: field_simps)
    moreover have "1 / 10 powi l \<le> x" using hi assms by (simp add: field_simps)
    ultimately show ?thesis using inv_powi [of "l - 1"] inv_powi [of l] by (simp add: e)
  qed
  then show "10 powi (dec_exp x - 1) \<le> x" "x < 10 powi dec_exp x" by simp_all
qed

lemma dec_exp_unique:
  assumes "0 < x" "10 powi (n - 1) \<le> x" "x < 10 powi n"
  shows "dec_exp x = n"
proof -
  have "(10::rat) powi (n - 1) < 10 powi dec_exp x" "(10::rat) powi (dec_exp x - 1) < 10 powi n"
    using dec_exp_bounds [OF assms(1)] assms by linarith+
  then have "n - 1 < dec_exp x" "dec_exp x - 1 < n" by (auto dest: ten_powi_less_cancel)
  then show ?thesis by simp
qed

section \<open>Seventeen digits determine a number\<close>

lemma round_half_even_near:
  assumes "\<bar>z - of_int m\<bar> < 1 / 2"
  shows "round_half_even z = m"
proof (cases "of_int m \<le> z")
  case True
  with assms have "\<lfloor>z\<rfloor> = m" by (intro floor_unique) linarith+
  with assms True show ?thesis by (simp add: round_half_even_def)
next
  case False
  with assms have "\<lfloor>z\<rfloor> = m - 1" by (intro floor_unique) linarith+
  with assms False show ?thesis by (simp add: round_half_even_def)
qed

lemma fl_pos_fixed: "fl_pos x = x \<Longrightarrow> x = of_int (round_half_even (x / 2 powi ulp_exp x)) * 2 powi ulp_exp x"
  by (simp add: fl_pos_def)

lemma ilog2_near:
  assumes "0 < x" "fl_pos x = x" "0 < y" "\<bar>y - x\<bar> \<le> x / (2 * 10 ^ 16)"
  shows "ilog2 y \<le> ilog2 x"
proof -
  define E i where "E = ulp_exp x" and "i = ilog2 x"
  obtain m where m: "x = of_int m * 2 powi E" using fl_pos_fixed [OF assms(2)] unfolding E_def by blast
  have xi: "x < 2 powi (i + 1)" using ilog2_bounds(2) [OF assms(1)] by (simp add: i_def)
  have "0 < m"
  proof (rule ccontr)
    assume "\<not> 0 < m"
    then have "of_int m * (2::rat) powi E \<le> 0" by (intro mult_nonpos_nonneg) simp_all
    with m assms(1) show False by simp
  qed
  then have "(2::rat) powi E \<le> x" using m by simp
  with xi have "E < i + 1" by (intro two_powi_less_cancel) linarith
  then obtain k where k: "i + 1 = E + int k" using zle_iff_zadd [of E "i + 1"] by auto
  have "of_int m * 2 powi E < (2::rat) ^ k * 2 powi E" using xi m k by (simp add: two_powi_add mult.commute)
  then have "rat_of_int m < 2 ^ k" by simp
  then have "m < 2 ^ k" by (metis of_int_less_iff of_int_numeral of_int_power)
  then have "m + 1 \<le> 2 ^ k" by simp
  then have "rat_of_int (m + 1) \<le> of_int (2 ^ k)" by (simp only: of_int_le_iff)
  then have "(rat_of_int m + 1) * 2 powi E \<le> 2 ^ k * 2 powi E" by (intro mult_right_mono) simp_all
  then have top: "x + 2 powi E \<le> 2 powi (i + 1)" using m k by (simp add: two_powi_add algebra_simps)
  have "x / (2 * 10 ^ 16) < 2 powi (i - 52)"
  proof -
    have "2 powi (i + 1) = 2 ^ 53 * (2::rat) powi (i - 52)" using two_powi_add [of 53 "i - 52"] by (simp add: add.commute)
    with xi have "x < 2 ^ 53 * 2 powi (i - 52)" by simp
    also have "\<dots> \<le> (2 * 10 ^ 16) * 2 powi (i - 52)" by (intro mult_right_mono) simp_all
    finally show ?thesis by (simp add: field_simps)
  qed
  also have "\<dots> \<le> 2 powi E" unfolding E_def i_def ulp_exp_def by (intro two_powi_mono) simp
  finally have "y < 2 powi (i + 1)" using assms(4) top by linarith
  then have "(2::rat) powi ilog2 y < 2 powi (i + 1)" using ilog2_bounds(1) [OF assms(3)] by linarith
  then have "ilog2 y < i + 1" by (rule two_powi_less_cancel)
  then show ?thesis by (simp add: i_def)
qed

lemma fl_pos_near:
  assumes "0 < x" "fl_pos x = x" "\<bar>y - x\<bar> \<le> x / (2 * 10 ^ 16)"
  shows "0 < y" "fl_pos y = x"
proof -
  have "x / (2 * 10 ^ 16) < x" using assms(1) by simp
  then show y: "0 < y" using assms(3) by linarith
  define E e where "E = ulp_exp x" and "e = ulp_exp y"
  have "e \<le> E" using ilog2_near [OF assms(1,2) y assms(3)] by (simp add: E_def e_def ulp_exp_def)
  then obtain k where k: "E = e + int k" using zle_iff_zadd [of e E] by auto
  obtain m where m: "x = of_int m * 2 powi E" using fl_pos_fixed [OF assms(2)] unfolding E_def by blast
  define n where "n = m * 2 ^ k"
  have n: "x = of_int n * 2 powi e" using m k by (simp add: n_def two_powi_add)
  have "y < 2 powi (ilog2 y + 1)" using ilog2_bounds(2) [OF y] .
  also have "\<dots> \<le> 2 powi (e + 53)" unfolding e_def ulp_exp_def by (intro two_powi_mono) simp
  also have "\<dots> = 2 ^ 53 * 2 powi e" by (simp add: two_powi_add)
  finally have top: "y < 2 ^ 53 * 2 powi e" .
  have "\<bar>y - x\<bar> < 2 powi e / 2" using top assms(1,3) by (simp add: field_simps abs_if split: if_splits)
  then have "\<bar>y - x\<bar> / 2 powi e < 1 / 2" by (simp add: divide_less_eq)
  moreover have "y / 2 powi e - of_int n = (y - x) / 2 powi e" using n by (simp add: diff_divide_distrib)
  ultimately have "\<bar>y / 2 powi e - of_int n\<bar> < 1 / 2" by (simp add: abs_divide)
  then have "round_half_even (y / 2 powi e) = n" by (rule round_half_even_near)
  then show "fl_pos y = x" by (simp add: fl_pos_def e_def [symmetric] n)
qed

section \<open>The digits found\<close>

lemma round_half_even_cases: "round_half_even t = \<lfloor>t\<rfloor> \<or> round_half_even t = \<lfloor>t\<rfloor> + 1"
  by (simp add: round_half_even_def Let_def)

lemma round_half_even_error: "\<bar>of_int (round_half_even t) - t\<bar> \<le> 1 / 2"
proof -
  have "of_int \<lfloor>t\<rfloor> \<le> t" "t < of_int \<lfloor>t\<rfloor> + 1" by linarith+
  then show ?thesis unfolding round_half_even_def Let_def abs_if by (simp split: if_splits) linarith
qed

lemma scaled_bounds:
  assumes "0 < x" "0 < k" and t: "t = x / 10 powi (dec_exp x - int k)"
  shows "10 ^ (k - 1) \<le> t" "t < 10 ^ k" "10 ^ (k - 1) \<le> \<lfloor>t\<rfloor>" "\<lfloor>t\<rfloor> + 1 \<le> 10 ^ k"
proof -
  define p where "p = dec_exp x - int k"
  have e: "dec_exp x = int k + p" "dec_exp x - 1 = int (k - 1) + p" using assms(2) by (simp_all add: p_def)
  note b = dec_exp_bounds [OF assms(1)]
  have "(10::rat) ^ (k - 1) * 10 powi p \<le> x" using b(1) unfolding e(2) ten_powi_add by simp
  then show 1: "10 ^ (k - 1) \<le> t" by (simp add: t p_def [symmetric] pos_le_divide_eq)
  have "x < (10::rat) ^ k * 10 powi p" using b(2) unfolding e(1) ten_powi_add by simp
  then show 2: "t < 10 ^ k" by (simp add: t p_def [symmetric] pos_divide_less_eq)
  from 1 have "rat_of_int (10 ^ (k - 1)) \<le> t" by simp
  then show "10 ^ (k - 1) \<le> \<lfloor>t\<rfloor>" by (simp only: le_floor_iff)
  from 2 have "t < rat_of_int (10 ^ k)" by simp
  then have "\<lfloor>t\<rfloor> < 10 ^ k" by (simp only: floor_less_iff)
  then show "\<lfloor>t\<rfloor> + 1 \<le> 10 ^ k" by simp
qed

lemma digits_at_sound:
  assumes "0 < x" "0 < k" "digits_at x k = Some (c, p)"
  shows "fl_rat (of_int c * 10 powi p) = x" "10 ^ (k - 1) \<le> c" "c < 10 ^ k" "p + int k - dec_exp x \<in> {0, 1}"
proof -
  define q t where "q = dec_exp x - int k" and "t = x / 10 powi q"
  define near where "near = round_half_even t"
  define cs where "cs = filter (\<lambda>c. fl_rat (of_int c * 10 powi q) = x) [near, if near = \<lfloor>t\<rfloor> then near + 1 else near - 1]"
  have d: "digits_at x k = (case cs of [] \<Rightarrow> None | c # _ \<Rightarrow> Some (if c = 10 ^ k then (10 ^ (k - 1), q + 1) else (c, q)))"
    by (simp only: digits_at_def Let_def q_def t_def near_def cs_def)
  with assms(3) obtain a r where cs: "cs = a # r" and a: "(c, p) = (if a = 10 ^ k then (10 ^ (k - 1), q + 1) else (a, q))"
    by (cases cs) auto
  have "a \<in> set cs" by (simp add: cs)
  then have fl: "fl_rat (of_int a * 10 powi q) = x" and "a = near \<or> a = (if near = \<lfloor>t\<rfloor> then near + 1 else near - 1)"
    unfolding cs_def set_filter by simp_all
  then have "a = \<lfloor>t\<rfloor> \<or> a = \<lfloor>t\<rfloor> + 1" using round_half_even_cases [of t] by (auto simp: near_def)
  with scaled_bounds(3,4) [OF assms(1,2), of t] have b: "10 ^ (k - 1) \<le> a" "a \<le> 10 ^ k"
    by (auto simp: t_def q_def)
  show "fl_rat (of_int c * 10 powi p) = x" "10 ^ (k - 1) \<le> c" "c < 10 ^ k" "p + int k - dec_exp x \<in> {0, 1}"
  proof -
    have "(10::rat) ^ (k - 1) * 10 powi (q + 1) = 10 ^ k * 10 powi q"
      using assms(2) by (cases k) (simp_all add: ten_powi_add)
    with a fl show "fl_rat (of_int c * 10 powi p) = x" by (auto split: if_splits)
    show "10 ^ (k - 1) \<le> c" "c < 10 ^ k" using a b assms(2) by (auto split: if_splits)
    show "p + int k - dec_exp x \<in> {0, 1}" using a by (auto simp: q_def split: if_splits)
  qed
qed

lemma digits_at_17:
  assumes "0 < x" "fl_rat x = x"
  shows "digits_at x 17 \<noteq> None"
proof -
  define q t where "q = dec_exp x - 17" and "t = x / 10 powi q"
  have t: "x = t * 10 powi q" by (simp add: t_def)
  have "(10::rat) ^ 16 \<le> t" using scaled_bounds(1) [OF assms(1), of 17 t] by (simp add: t_def q_def)
  then have big: "10 ^ 16 * 10 powi q \<le> x" unfolding t by (intro mult_right_mono) simp_all
  have "\<bar>of_int (round_half_even t) * 10 powi q - x\<bar> = \<bar>of_int (round_half_even t) - t\<bar> * 10 powi q"
    by (subst t) (simp flip: left_diff_distrib add: abs_mult)
  also have "\<dots> \<le> 1 / 2 * 10 powi q" by (intro mult_right_mono round_half_even_error) simp
  also have "\<dots> \<le> x / (2 * 10 ^ 16)" using big by simp
  finally have "\<bar>of_int (round_half_even t) * 10 powi q - x\<bar> \<le> x / (2 * 10 ^ 16)" .
  moreover have "fl_pos x = x" using assms by (simp add: fl_rat_def)
  ultimately have "fl_rat (of_int (round_half_even t) * 10 powi q) = x"
    using fl_pos_near [OF assms(1), of "of_int (round_half_even t) * 10 powi q"] by (auto simp: fl_rat_def)
  then show ?thesis by (simp add: digits_at_def Let_def q_def [symmetric] t_def [symmetric])
qed

lemma first_some_None: "first_some f xs = None \<longleftrightarrow> (\<forall>x \<in> set xs. f x = None)"
  by (induction xs) (auto split: option.splits)

lemma first_some_upt:
  "first_some f [a..<b] = Some y \<Longrightarrow> \<exists>k. a \<le> k \<and> k < b \<and> f k = Some y \<and> (\<forall>j. a \<le> j \<and> j < k \<longrightarrow> f j = None)"
proof (induction "b - a" arbitrary: a)
  case (Suc n)
  then have less: "a < b" by simp
  show ?case
  proof (cases "f a")
    case None
    with Suc.prems less have "first_some f [Suc a..<b] = Some y" by (simp add: upt_conv_Cons)
    moreover have "n = b - Suc a" using Suc.hyps(2) by simp
    ultimately obtain k where k: "Suc a \<le> k" "k < b" "f k = Some y" "\<forall>j. Suc a \<le> j \<and> j < k \<longrightarrow> f j = None"
      using Suc.hyps(1) by blast
    have "f j = None" if "a \<le> j" "j < k" for j
      using that k(4) None by (cases "j = a") auto
    with k show ?thesis by (intro exI [of _ k]) simp
  next
    case (Some z)
    with Suc.prems less have "f a = Some y" by (simp add: upt_conv_Cons)
    with less show ?thesis by (intro exI [of _ a]) auto
  qed
qed simp

lemma shortest_exists:
  assumes "0 < x" "fl_rat x = x"
  obtains c p k where "shortest x = Some (c, p)" "1 \<le> k" "k \<le> 17" "digits_at x k = Some (c, p)"
    "\<And>j. 1 \<le> j \<Longrightarrow> j < k \<Longrightarrow> digits_at x j = None"
proof -
  have "17 \<in> set [1..<18::nat]" by (simp del: upt_Suc)
  then have "shortest x \<noteq> None"
    using digits_at_17 [OF assms] by (metis first_some_None shortest_def)
  then obtain c p where s: "shortest x = Some (c, p)" by auto
  from first_some_upt [OF this [unfolded shortest_def]]
  obtain k where "1 \<le> k" "k < 18" "digits_at x k = Some (c, p)" "\<forall>j. 1 \<le> j \<and> j < k \<longrightarrow> digits_at x j = None"
    by blast
  with s show ?thesis by (intro that [of c p k]) simp_all
qed

section \<open>Reading printed numbers\<close>

lemma takeWhile_digits [simp]:
  "list_all is_digit d \<Longrightarrow> whole_digits d = d" "list_all is_digit d \<Longrightarrow> whole_digits (d @ 46 # f) = d"
  by (simp_all add: whole_digits_def list_all_iff takeWhile_eq_all_conv takeWhile_append2 is_digit_def)

lemma dropWhile_digits [simp]:
  "list_all is_digit d \<Longrightarrow> after_whole d = []" "list_all is_digit d \<Longrightarrow> after_whole (d @ 46 # f) = 46 # f"
  by (simp_all add: after_whole_def list_all_iff dropWhile_append2 is_digit_def)

lemma split_sign_digit: "is_digit c \<Longrightarrow> split_sign (c # s) = (False, c # s)"
  by (auto simp: split_sign_def is_digit_def)

lemma split_sign_digits: "list_all is_digit d \<Longrightarrow> d \<noteq> [] \<Longrightarrow> split_sign (d @ s) = (False, d @ s)"
  by (cases d) (simp_all add: split_sign_digit)

lemma split_sign_minus: "split_sign (45 # s) = (True, s)"
  by (simp add: split_sign_def)

text \<open>The texts without exponent: digits, or digits around a point.\<close>

lemma decimal_whole:
  assumes "list_all is_digit d" "d \<noteq> []"
  shows "decimal_shape d" "decimal_value d = of_nat (digits_val d)"
  using assms split_sign_digits [OF assms, of "[]"] by (simp_all add: decimal_shape_def decimal_value_def Let_def)

lemma decimal_point:
  assumes "list_all is_digit d" "d \<noteq> []" "list_all is_digit f"
  shows "decimal_shape (d @ 46 # f)" "decimal_value (d @ 46 # f) = of_nat (digits_val (d @ f)) / 10 ^ length f"
  using assms split_sign_digits [OF assms(1,2), of "46 # f"]
  by (simp_all add: decimal_shape_def decimal_value_def Let_def digits_val_append add_divide_distrib)

lemma decimal_negative:
  assumes "list_all is_digit d" "d \<noteq> []"
  shows "decimal_shape (45 # d @ s) = decimal_shape (d @ s)" "decimal_value (45 # d @ s) = - decimal_value (d @ s)"
  using split_sign_digits [OF assms, of s]
  by (simp_all add: decimal_shape_def decimal_value_def Let_def split_sign_minus)

definition plain_text :: "jsstring \<Rightarrow> bool" where
  "plain_text s \<longleftrightarrow> (\<exists>d f. list_all is_digit d \<and> d \<noteq> [] \<and> list_all is_digit f \<and> (s = d \<or> s = d @ 46 # f))"

lemma plain_textI:
  "list_all is_digit d \<Longrightarrow> d \<noteq> [] \<Longrightarrow> plain_text d"
  "list_all is_digit d \<Longrightarrow> d \<noteq> [] \<Longrightarrow> list_all is_digit f \<Longrightarrow> plain_text (d @ 46 # f)"
  unfolding plain_text_def by (rule exI [of _ d], rule exI [of _ "[]"], simp) blast

lemma plain_text_decimal:
  assumes "plain_text s"
  shows "decimal_shape s" "decimal_shape (45 # s)" "decimal_value (45 # s) = - decimal_value s"
    "set s \<subseteq> {c. is_digit c} \<union> {46}"
  using assms decimal_whole decimal_point decimal_negative [where s = "[]"] decimal_negative
  by (auto simp: plain_text_def list_all_iff)

lemma digits_val_replicate [simp]: "digits_val (s @ replicate k 48) = digits_val s * 10 ^ k"
  by (simp add: digits_val_append)

lemma lay_out_plain:
  assumes "0 < c" "length (show_nat c) = k" "-6 < p + int k" "p + int k \<le> 21"
  shows "plain_text (lay_out (show_nat c) p) \<and> decimal_value (lay_out (show_nat c) p) = of_nat c * 10 powi p"
proof -
  let ?d = "show_nat c"
  have d: "list_all is_digit ?d" by (rule show_nat_digits)
  consider "0 \<le> p" | "p < 0" "0 < p + int k" | "p + int k \<le> 0" by linarith
  then show ?thesis
  proof cases
    case 1
    then have e: "lay_out ?d p = ?d @ replicate (nat p) 48" using assms by (simp add: lay_out_def Let_def)
    have "list_all is_digit (?d @ replicate (nat p) 48)" using d by (auto simp: list_all_iff)
    then show ?thesis using 1 decimal_whole [of "?d @ replicate (nat p) 48"]
      unfolding e by (auto simp: power_int_def intro: plain_textI)
  next
    case 2
    define j where "j = nat (p + int k)"
    have e: "lay_out ?d p = take j ?d @ 46 # drop j ?d" using 2 assms by (simp add: lay_out_def Let_def j_def)
    have t: "list_all is_digit (take j ?d)" "list_all is_digit (drop j ?d)" using d by (auto simp: list_all_iff dest: in_set_takeD in_set_dropD)
    have "j < k" "0 < j" using 2 by (simp_all add: j_def)
    then have ne: "take j ?d \<noteq> []" using assms(2) by (auto simp: take_eq_Nil)
    have "length (drop j ?d) = nat (- p)" using 2 assms(2) by (simp add: j_def)
    then have "decimal_value (lay_out ?d p) = of_nat c * 10 powi p"
      using 2 decimal_point(2) [OF t(1) ne t(2)] unfolding e by (simp only: append_take_drop_id digits_val_show_nat powi_neg)
    with t ne show ?thesis unfolding e by (auto intro: plain_textI)
  next
    case 3
    have "0 < k" using assms(2) show_nat_nonempty [of c] by (metis length_greater_0_conv)
    then have neg: "p < 0" using 3 by simp
    have e: "lay_out ?d p = [48] @ 46 # replicate (nat (- (p + int k))) 48 @ ?d"
      using 3 neg assms by (simp add: lay_out_def Let_def)
    have z: "list_all is_digit [48]" by simp
    have t: "list_all is_digit (replicate (nat (- (p + int k))) 48 @ ?d)" using d by (auto simp: list_all_iff)
    have l: "length (replicate (nat (- (p + int k))) 48 @ ?d) = nat (- p)" using 3 assms(2) by simp
    have v: "digits_val ([48] @ replicate (nat (- (p + int k))) 48 @ ?d) = c"
      using digits_val_append [of "replicate (Suc (nat (- (p + int k)))) 48" ?d] digits_val_zeros [of "Suc (nat (- (p + int k)))"] by simp
    have "decimal_value (lay_out ?d p) = of_nat c * 10 powi p"
      using neg decimal_point(2) [OF z _ t] unfolding e v l by (simp only: powi_neg) simp
    with plain_textI(2) [OF z _ t] show ?thesis unfolding e by simp
  qed
qed

section \<open>The round trip\<close>

text \<open>The range in which no exponent is printed and integers are exact.\<close>

definition readable_size :: "rat \<Rightarrow> bool" where
  "readable_size q \<longleftrightarrow> q = 0 \<or> 1 / 10 ^ 6 \<le> \<bar>q\<bar> \<and> \<bar>q\<bar> < 10 ^ 15"

lemma dec_exp_size:
  assumes "1 / 10 ^ 6 \<le> x" "x < 10 ^ n"
  shows "-6 < dec_exp x" "dec_exp x \<le> int n"
proof -
  have x: "0 < x" by (rule less_le_trans [OF _ assms(1)]) simp
  have "(10::rat) powi (-6) = 1 / 10 ^ 6" using powi_neg [of "-6" 1 10] by simp
  then have "(10::rat) powi (-6) < 10 powi dec_exp x"
    using le_less_trans [OF assms(1) dec_exp_bounds(2) [OF x]] by (simp only:)
  then show "-6 < dec_exp x" by (rule ten_powi_less_cancel)
  have "(10::rat) powi (dec_exp x - 1) < 10 powi int n"
    using dec_exp_bounds(1) [OF x] assms(2) by simp
  then have "dec_exp x - 1 < int n" by (rule ten_powi_less_cancel)
  then show "dec_exp x \<le> int n" by simp
qed

lemma positive_text_read:
  assumes "fl_rat x = x" "1 / 10 ^ 6 \<le> x" "x < 10 ^ 15"
  shows "plain_text (positive_text x)" "fl_rat (decimal_value (positive_text x)) = x"
proof -
  have x: "0 < x" by (rule less_le_trans [OF _ assms(2)]) simp
  obtain c p k where s: "shortest x = Some (c, p)" "1 \<le> k" "digits_at x k = Some (c, p)"
    by (rule shortest_exists [OF x assms(1)]) (rule that)
  have d: "fl_rat (of_int c * 10 powi p) = x" "10 ^ (k - 1) \<le> c" "c < 10 ^ k" "p + int k - dec_exp x \<in> {0, 1}"
    using digits_at_sound [OF x _ s(3)] s(2) by simp_all
  define m where "m = nat c"
  have "(0::int) < 10 ^ (k - 1)" by simp
  then have c: "0 < c" using d(2) by linarith
  then have m: "0 < m" "c = int m" by (simp_all add: m_def)
  have "10 ^ (k - 1) \<le> m" "m < 10 ^ k" using d(2,3) unfolding m(2) by (metis of_nat_le_iff of_nat_less_iff of_nat_numeral of_nat_power)+
  then have len: "length (show_nat m) = k" using s(2) by (intro length_show_nat_eq) simp_all
  have "-6 < p + int k" "p + int k \<le> 21" using d(4) dec_exp_size [OF assms(2,3)] by auto
  from lay_out_plain [OF m(1) len this]
  show "plain_text (positive_text x)" "fl_rat (decimal_value (positive_text x)) = x"
    using d(1) by (simp_all add: positive_text_def s(1) m(2))
qed

lemma fl_rat_neg: "fl_rat (- q) = - fl_rat q"
  by (simp add: fl_rat_def)

lemma fl_of_fixed:
  assumes "fl_rat y = q" "\<bar>q\<bar> < 10 ^ 15"
  shows "fl y = Fin q"
proof -
  have "\<bar>q\<bar> < 2 ^ 1024" using assms(2) by (rule less_trans) simp
  then show ?thesis using assms(1) by (auto simp: fl_def Let_def)
qed

theorem decimal_text_number:
  assumes "fl_rat q = q" "readable_size q"
  shows "decimal_shape (num_text (Fin q)) \<and> number_of_decimal (num_text (Fin q)) = Fin q
    \<and> set (num_text (Fin q)) \<subseteq> {c. is_digit c} \<union> {45, 46}"
proof -
  consider "q = 0" | "0 < q" | "q < 0" by linarith
  then show ?thesis
  proof cases
    case 1
    then show ?thesis using decimal_whole [of "[48]"] by (simp add: number_of_decimal_def digits_val_def digit_val_def)
  next
    case 2
    then have "1 / 10 ^ 6 \<le> q" "q < 10 ^ 15" using assms(2) by (simp_all add: readable_size_def)
    note t = positive_text_read [OF assms(1) this]
    from fl_of_fixed [OF t(2)] plain_text_decimal [OF t(1)] 2 \<open>q < 10 ^ 15\<close>
    show ?thesis by (auto simp: number_of_decimal_def)
  next
    case 3
    then have "1 / 10 ^ 6 \<le> - q" "- q < 10 ^ 15" using assms(2) by (simp_all add: readable_size_def)
    moreover have "fl_rat (- q) = - q" using assms(1) by (simp add: fl_rat_neg)
    ultimately have t: "plain_text (positive_text (- q))" "fl_rat (decimal_value (positive_text (- q))) = - q"
      using positive_text_read [of "- q"] by blast+
    have "fl_rat (- decimal_value (positive_text (- q))) = q" using t(2) by (simp add: fl_rat_neg)
    from fl_of_fixed [OF this] plain_text_decimal [OF t(1)] 3 \<open>- q < 10 ^ 15\<close>
    show ?thesis by (auto simp: number_of_decimal_def)
  qed
qed

section \<open>Natural numbers are printed by their digits\<close>

lemma show_nat_ten: "0 < n \<Longrightarrow> show_nat (n * 10) = show_nat n @ [48]"
  by (subst show_nat.simps) (simp add: digit_char_def)

lemma show_nat_zeros: "0 < n \<Longrightarrow> show_nat (n * 10 ^ j) = show_nat n @ replicate j 48"
proof (induction j)
  case (Suc j)
  then have "show_nat (n * 10 ^ j * 10) = show_nat (n * 10 ^ j) @ [48]" by (intro show_nat_ten) simp
  with Suc show ?case by (simp add: mult.assoc replicate_append_same mult.commute [of 10])
qed simp

lemma dec_exp_nat:
  assumes "0 < m"
  shows "dec_exp (of_nat m) = int (length (show_nat m))"
proof -
  have "1 \<le> rat_of_nat m" using assms by (simp add: Suc_le_eq)
  then show ?thesis by (simp add: dec_exp_def)
qed

lemma digits_at_nat:
  assumes "0 < m" "fl_rat (of_nat m) = of_nat m"
  shows "digits_at (of_nat m) (length (show_nat m)) \<noteq> None"
proof -
  have "round_half_even (of_nat m) = int m" using round_half_even_int [of "int m"] by simp
  then show ?thesis using assms(2) by (simp add: digits_at_def Let_def dec_exp_nat [OF assms(1)])
qed

lemma positive_text_nat:
  assumes "0 < m" "m < 10 ^ 14"
  shows "positive_text (of_nat m) = show_nat m"
proof -
  let ?x = "rat_of_nat m"
  define L where "L = length (show_nat m)"
  have L: "0 < L" "L \<le> 14" unfolding L_def using assms(2) length_show_nat [of 14 m] by simp_all
  have "m \<le> 10 ^ 14" using assms(2) by simp
  then have fx: "fl_rat ?x = ?x" using fl_rat_int [of "int m"] by simp
  have x: "0 < ?x" using assms(1) by simp
  obtain c p k where s: "shortest ?x = Some (c, p)" "1 \<le> k" "digits_at ?x k = Some (c, p)"
    and least: "\<And>j. 1 \<le> j \<Longrightarrow> j < k \<Longrightarrow> digits_at ?x j = None"
    by (rule shortest_exists [OF x fx]) (rule that)
  have d: "fl_rat (of_int c * 10 powi p) = ?x" "10 ^ (k - 1) \<le> c" "c < 10 ^ k" "p + int k - dec_exp ?x \<in> {0, 1}"
    using digits_at_sound [OF x _ s(3)] s(2) by simp_all
  have "k \<le> L"
  proof (rule ccontr)
    assume "\<not> k \<le> L"
    then have "digits_at ?x L = None" using L by (intro least) simp_all
    with digits_at_nat [OF assms(1) fx] show False by (simp add: L_def)
  qed
  moreover have e: "dec_exp ?x = int L" by (simp add: dec_exp_nat [OF assms(1)] L_def)
  ultimately have p: "0 \<le> p" "p + int k \<le> 15" using d(4) L by auto
  define n j where "n = nat c" and "j = nat p"
  have "(0::int) < 10 ^ (k - 1)" by simp
  then have "0 < c" using d(2) by linarith
  then have c: "0 < n" "c = int n" by (simp_all add: n_def)
  have "n < 10 ^ k" using d(3) unfolding c(2) by (metis of_nat_less_iff of_nat_numeral of_nat_power)
  then have "n * 10 ^ j < 10 ^ k * 10 ^ j" by simp
  also have "\<dots> = 10 ^ (k + j)" by (simp add: power_add)
  also have "\<dots> \<le> (10::nat) ^ 15" using p by (intro power_increasing) (simp_all add: j_def)
  finally have "n * 10 ^ j < 10 ^ 15" .
  from less_imp_le [OF this] have "n * 10 ^ j \<le> 9007199254740992" by (rule order.trans) simp
  then have "int (n * 10 ^ j) \<le> int 9007199254740992" by (simp only: of_nat_le_iff)
  then have small: "\<bar>int (n * 10 ^ j)\<bar> \<le> 2 ^ 53" by simp
  have "rat_of_int c * 10 powi p = of_int (int (n * 10 ^ j))"
    using p(1) c(2) by (simp add: power_int_def j_def)
  with d(1) fl_rat_int [OF small] have "rat_of_nat (n * 10 ^ j) = ?x" by simp
  then have m: "m = n * 10 ^ j" by (simp only: of_nat_eq_iff)
  have "10 ^ (k - 1) \<le> n" using d(2) unfolding c(2) by (metis of_nat_le_iff of_nat_numeral of_nat_power)
  then have "length (show_nat n) = k" using \<open>n < 10 ^ k\<close> s(2) by (intro length_show_nat_eq) simp_all
  then have "lay_out (show_nat n) p = show_nat n @ replicate j 48"
    using p by (simp add: lay_out_def Let_def j_def)
  then have "positive_text ?x = show_nat n @ replicate j 48" by (simp add: positive_text_def s(1) c(2))
  then show ?thesis by (simp only: m show_nat_zeros [OF c(1)])
qed

lemma num_text_nat: "m < 10 ^ 14 \<Longrightarrow> num_text (Fin (of_nat m)) = show_nat m"
  using positive_text_nat [of m] by (cases "m = 0") (simp_all add: show_nat.simps [of 0] digit_char_def)

end
