(* ===== verification/RelayIngest.thy ===== *)
theory RelayIngest
  imports RelayState JsShow
begin

text \<open>
  The relay's \<open>POST /ingest\<close>, \<open>integrations/alexa-relay/src/app.js\<close>: the signature check
  (\<open>verifySignature\<close>), the validation of a snapshot (\<open>parseSnapshot\<close>), the error answers and
  the route's pipeline, in the order its middleware runs.

  Parameters: \<open>hmac\<close> (HMAC-SHA256 of a key and a message), \<open>json\<close> (\<open>JSON.parse\<close> of the bytes
  decoded as UTF-8, \<open>None\<close> when it throws), \<open>dparse\<close> (\<open>Date.parse\<close> of a string, \<open>None\<close> for
  \<open>NaN\<close>). The two rate limiters are third-party middleware, so a request carries their verdicts;
  \<open>save_error\<close> is the code of the error the state's write raised, if any. Clock values are whole
  milliseconds; every number the clock check computes is an integer far below \<open>2 ^ 53\<close>, so
  integer arithmetic is exact there.
\<close>

section \<open>Errors\<close>

text \<open>A thrown error as \<open>sendRequestError\<close> reads it.\<close>

record thrown =
  err_status :: "int option"
  err_code :: "jsstring option"

definition requestError :: "int \<Rightarrow> jsstring \<Rightarrow> thrown" where
  "requestError status code = \<lparr>err_status = Some status, err_code = Some code\<rparr>"

text \<open>An answer: the status and, for an error, its code.\<close>

datatype reply = Failure int jsstring | Accepted bool

definition sendRequestError :: "thrown \<Rightarrow> reply" where
  "sendRequestError e = Failure (or_else (err_status e) 400) (or_else (err_code e) (js ''invalid_request''))"

section \<open>The signature\<close>

record ingest_request =
  body :: "byte list option"   \<comment> \<open>\<open>None\<close>: not a \<open>Buffer\<close>\<close>
  timestamp_header :: "jsstring option"
  signature_header :: "jsstring option"
  attempt_allowed :: bool      \<comment> \<open>verdict of \<open>ingestAttemptLimiter\<close>\<close>
  publisher_allowed :: bool    \<comment> \<open>verdict of \<open>authenticatedIngestLimiter\<close>\<close>

text \<open>Lower-case hexadecimal text of bytes: \<open>digest('hex')\<close>.\<close>

definition hex_digit :: "nat \<Rightarrow> jschar" where
  "hex_digit n = (if n < 10 then of_nat (48 + n) else of_nat (87 + n))"

definition hex_byte :: "byte \<Rightarrow> jsstring" where
  "hex_byte b = [hex_digit (unat b div 16), hex_digit (unat b mod 16)]"

definition hex :: "byte list \<Rightarrow> jsstring" where
  "hex bs = concat (map hex_byte bs)"

definition is_hex :: "jschar \<Rightarrow> bool" where
  [js_lit]: "is_hex c \<longleftrightarrow> is_digit c \<or> 97 \<le> c \<and> c \<le> 102"

text \<open>The bytes of a text of ASCII characters.\<close>

definition ascii_bytes :: "jsstring \<Rightarrow> byte list" where
  "ascii_bytes s = map ucast s"

text \<open>\<open>/^\d{10}$/\<close> and \<open>/^sha256=[a-f0-9]{64}$/\<close>.\<close>

definition timestamp_shape :: "jsstring \<Rightarrow> bool" where
  "timestamp_shape s \<longleftrightarrow> length s = 10 \<and> list_all is_digit s"

definition signature_shape :: "jsstring \<Rightarrow> bool" where
  "signature_shape s \<longleftrightarrow> starts_with (js ''sha256='') s \<and> length s = 71 \<and> list_all is_hex (drop 7 s)"

text \<open>What is signed: the timestamp, a dot, the body.\<close>

definition signed_message :: "jsstring \<Rightarrow> byte list \<Rightarrow> byte list" where
  "signed_message ts b = ascii_bytes ts @ ascii_bytes (js ''.'') @ b"

definition verifySignature ::
    "(byte list \<Rightarrow> byte list \<Rightarrow> byte list) \<Rightarrow> byte list \<Rightarrow> int \<Rightarrow> ingest_request \<Rightarrow> thrown + unit" where
  "verifySignature hmac secret currentTime req = (case body req of
      None \<Rightarrow> Inl (requestError 415 (js ''invalid_content_type''))
    | Some b \<Rightarrow>
        let timestamp = or_else (timestamp_header req) [] in
        if \<not> timestamp_shape timestamp
          \<or> \<not> is_safe_integer (num_of_int (int (digits_val timestamp)))
          \<or> 5 * 60 * 1000 < \<bar>currentTime - int (digits_val timestamp) * 1000\<bar>
        then Inl (requestError 401 (js ''expired_request''))
        else let provided = or_else (signature_header req) [] in
          if \<not> signature_shape provided then Inl (requestError 401 (js ''invalid_signature''))
          else let expected = js ''sha256='' @ hex (hmac secret (signed_message timestamp b)) in
            if length provided \<noteq> length expected
            then Inl \<lparr>err_status = None, err_code = Some (js ''ERR_CRYPTO_TIMING_SAFE_EQUAL_LENGTH'')\<rparr>
            else if provided \<noteq> expected then Inl (requestError 401 (js ''invalid_signature''))
            else Inr ())"

section \<open>The snapshot\<close>

definition finiteBetween :: "jsval \<Rightarrow> rat \<Rightarrow> rat \<Rightarrow> bool" where
  "finiteBetween v lo hi = (case v of JNum (Fin q) \<Rightarrow> lo \<le> q \<and> q \<le> hi | _ \<Rightarrow> False)"

text \<open>\<open>/^\d{4}-\d{2}-\d{2}T\d{2}:\d{2}:\d{2}(?:\.\d{1,9})?Z$/\<close>.\<close>

definition date_shape :: "jsstring \<Rightarrow> bool" where
  "date_shape s \<longleftrightarrow>
     list_all (\<lambda>(i, n). length (field i n s) = n \<and> list_all is_digit (field i n s))
       [(0, 4), (5, 2), (8, 2), (11, 2), (14, 2), (17, 2)]
   \<and> list_all (\<lambda>(i, c). field i 1 s = js c) [(4, ''-''), (7, ''-''), (10, ''T''), (13, '':''), (16, '':'')]
   \<and> (drop 19 s = js ''Z''
      \<or> (starts_with (js ''.'') (drop 19 s) \<and> 22 \<le> length s \<and> length s \<le> 30
         \<and> list_all is_digit (butlast (drop 20 s)) \<and> last s = hd (js ''Z'')))"

definition validDate :: "(jsstring \<Rightarrow> int option) \<Rightarrow> jsval \<Rightarrow> bool" where
  "validDate dparse v = (case v of JStr s \<Rightarrow> date_shape s \<and> dparse s \<noteq> None | _ \<Rightarrow> False)"

text \<open>\<open>/^[a-zA-Z0-9 _-]{1,64}$/\<close>.\<close>

definition status_shape :: "jsstring \<Rightarrow> bool" where
  "status_shape s \<longleftrightarrow> 1 \<le> length s \<and> length s \<le> 64
     \<and> list_all (\<lambda>c. is_lower c \<or> is_upper c \<or> is_digit c \<or> c = 32 \<or> c = 95 \<or> c = 45) s"

definition allowed_keys :: "jsstring list" where
  "allowed_keys = [js ''acPowerW'', js ''energyTodayWh'', js ''observedAt'', js ''stale'', js ''status'', js ''version'']"

fun object_keys :: "jsval \<Rightarrow> jsstring list" where
  "object_keys (JObj ps) = map fst ps"
| "object_keys _ = []"

text \<open>\<open>String(v)\<close> of a value of \<open>JSON.parse\<close>, an object with the \<open>toString\<close> all objects have.\<close>

fun to_text :: "jsval \<Rightarrow> jsstring" where
  "to_text JUndef = js ''undefined''"
| "to_text JNull = js ''null''"
| "to_text (JBool b) = (if b then js ''true'' else js ''false'')"
| "to_text (JNum n) = num_text n"
| "to_text (JStr s) = s"
| "to_text (JArr vs) = join [44] (map (\<lambda>v. if nullish v then [] else to_text v) vs)"
| "to_text (JObj ps) = js ''[object Object]''"

text \<open>\<open>Date.parse(v)\<close>, which first makes a text of the value.\<close>

definition date_ms :: "(jsstring \<Rightarrow> int option) \<Rightarrow> jsval \<Rightarrow> int option" where
  "date_ms dparse v = dparse (to_text v)"

definition snapshot_ok :: "(jsstring \<Rightarrow> int option) \<Rightarrow> int \<Rightarrow> jsval \<Rightarrow> bool" where
  "snapshot_ok dparse currentTime v \<longleftrightarrow>
     is_object v \<and> \<not> is_array v \<and> list_all (\<lambda>k. k \<in> set allowed_keys) (object_keys v)
   \<and> get v (js ''version'') = JNum (Fin 1)
   \<and> finiteBetween (get v (js ''acPowerW'')) 0 1000000
   \<and> finiteBetween (get v (js ''energyTodayWh'')) 0 100000000
   \<and> is_bool (get v (js ''stale''))
   \<and> (case get v (js ''status'') of JStr s \<Rightarrow> status_shape s | _ \<Rightarrow> False)
   \<and> validDate dparse (get v (js ''observedAt''))
   \<and> (case date_ms dparse (get v (js ''observedAt'')) of
        Some t \<Rightarrow> t \<le> currentTime + 5 * 60 * 1000 | None \<Rightarrow> True)"

definition snapshot_of :: "(jsstring \<Rightarrow> int option) \<Rightarrow> jsval \<Rightarrow> jsval" where
  "snapshot_of dparse v = JObj
     [(js ''version'', JNum (Fin 1)),
      (js ''observedAt'', JStr (iso_string (or_else (date_ms dparse (get v (js ''observedAt''))) 0))),
      (js ''acPowerW'', get v (js ''acPowerW'')),
      (js ''energyTodayWh'', get v (js ''energyTodayWh'')),
      (js ''status'', get v (js ''status'')),
      (js ''stale'', get v (js ''stale''))]"

definition parseSnapshot ::
    "(byte list \<Rightarrow> jsval option) \<Rightarrow> (jsstring \<Rightarrow> int option) \<Rightarrow> byte list \<Rightarrow> int \<Rightarrow> thrown + jsval" where
  "parseSnapshot json dparse raw currentTime = (case json raw of
      None \<Rightarrow> Inl (requestError 400 (js ''invalid_json''))
    | Some v \<Rightarrow>
        if \<not> truthy v \<or> \<not> snapshot_ok dparse currentTime v
        then Inl (requestError 422 (js ''invalid_snapshot''))
        else Inr (snapshot_of dparse v))"

section \<open>The route\<close>

text \<open>What a request does: its answer, the data after it, and whether a push was scheduled.\<close>

record ingest_result =
  answer :: reply
  after :: store_data
  scheduled :: bool

record ingest_config =
  cfg_hmac :: "byte list \<Rightarrow> byte list \<Rightarrow> byte list"
  cfg_json :: "byte list \<Rightarrow> jsval option"
  cfg_dparse :: "jsstring \<Rightarrow> int option"
  cfg_secret :: "byte list"

text \<open>
  The handler runs after the middleware; \<open>updateSnapshot\<close> changes the data before its write, so a
  failed write leaves the new snapshot in memory. The clock is read twice, at the signature check
  and at the validation.
\<close>

definition ingest_handler ::
    "ingest_config \<Rightarrow> int \<Rightarrow> jsstring option \<Rightarrow> byte list \<Rightarrow> store_data \<Rightarrow> ingest_result" where
  "ingest_handler cfg currentTime save_error raw d =
     (case parseSnapshot (cfg_json cfg) (cfg_dparse cfg) raw currentTime of
        Inl e \<Rightarrow> \<lparr>answer = sendRequestError e, after = d, scheduled = False\<rparr>
      | Inr snap \<Rightarrow> (case updateSnapshot (date_ms (cfg_dparse cfg)) snap d of
            None \<Rightarrow> \<lparr>answer = Accepted False, after = d, scheduled = False\<rparr>
          | Some d' \<Rightarrow> (case save_error of
                Some code \<Rightarrow> \<lparr>answer = sendRequestError \<lparr>err_status = None, err_code = Some code\<rparr>,
                              after = d', scheduled = False\<rparr>
              | None \<Rightarrow> \<lparr>answer = Accepted True, after = d', scheduled = True\<rparr>)))"

definition ingest ::
    "ingest_config \<Rightarrow> int \<Rightarrow> int \<Rightarrow> jsstring option \<Rightarrow> ingest_request \<Rightarrow> store_data \<Rightarrow> ingest_result" where
  "ingest cfg authTime currentTime save_error req d =
     (if \<not> attempt_allowed req
      then \<lparr>answer = Failure 429 (js ''rate_limited''), after = d, scheduled = False\<rparr>
      else case verifySignature (cfg_hmac cfg) (cfg_secret cfg) authTime req of
        Inl e \<Rightarrow> \<lparr>answer = sendRequestError e, after = d, scheduled = False\<rparr>
      | Inr _ \<Rightarrow>
          if \<not> publisher_allowed req
          then \<lparr>answer = Failure 429 (js ''rate_limited''), after = d, scheduled = False\<rparr>
          else ingest_handler cfg currentTime save_error (or_else (body req) []) d)"

text \<open>\<open>createApp\<close> refuses to start without a secret of 32 bytes and a skill identifier.\<close>

definition createApp_ok :: "byte list \<Rightarrow> jsval \<Rightarrow> bool" where
  "createApp_ok sharedSecret skillId \<longleftrightarrow> 32 \<le> length sharedSecret
     \<and> (case skillId of JStr s \<Rightarrow> starts_with (js ''amzn1.ask.skill.'') s | _ \<Rightarrow> False)"

section \<open>Hexadecimal text\<close>

lemma unat_hex_digit: "n < 16 \<Longrightarrow> unat (hex_digit n) = (if n < 10 then 48 + n else 87 + n)"
  unfolding hex_digit_def by (cases "n < 10") (simp_all only: if_True if_False unat_of_nat, simp_all)

lemma hex_digit_inj: "m < 16 \<Longrightarrow> n < 16 \<Longrightarrow> hex_digit m = hex_digit n \<Longrightarrow> m = n"
  by (drule arg_cong [of _ _ unat]) (simp add: unat_hex_digit split: if_splits)

lemma is_hex_unat: "is_hex c \<longleftrightarrow> 48 \<le> unat c \<and> unat c < 58 \<or> 97 \<le> unat c \<and> unat c < 103"
  unfolding is_hex_def is_digit_unat by (auto simp: word_le_nat_alt)

lemma hex_digit_hex: "n < 16 \<Longrightarrow> is_hex (hex_digit n)"
  by (simp add: is_hex_unat unat_hex_digit)

lemma byte_halves: "unat b div 16 < 16" "unat b mod 16 < 16" for b :: byte
  using unsigned_less [of b, where ?'a = nat] by simp_all

lemma hex_byte_inj: "hex_byte a = hex_byte b \<Longrightarrow> a = b"
proof -
  assume "hex_byte a = hex_byte b"
  then have "unat a div 16 = unat b div 16" "unat a mod 16 = unat b mod 16"
    by (auto simp: hex_byte_def intro: hex_digit_inj byte_halves)
  then have "unat a = unat b" by (metis div_mult_mod_eq)
  then show "a = b" by (simp add: word_unat_eq_iff)
qed

lemma length_hex [simp]: "length (hex bs) = 2 * length bs"
  by (induction bs) (simp_all add: hex_def hex_byte_def)

lemma hex_is_hex: "list_all is_hex (hex bs)"
  by (induction bs) (simp_all add: hex_def hex_byte_def hex_digit_hex byte_halves)

lemma hex_inj: "hex as = hex bs \<Longrightarrow> as = bs"
proof (induction as arbitrary: bs)
  case Nil
  then show ?case by (cases bs) (simp_all add: hex_def hex_byte_def)
next
  case (Cons a as)
  then obtain b bs' where bs: "bs = b # bs'" by (cases bs) (simp_all add: hex_def hex_byte_def)
  with Cons.prems have "hex_byte a = hex_byte b" "hex as = hex bs'"
    by (simp_all add: hex_def hex_byte_def)
  with Cons.IH [of bs'] bs show ?case by (simp add: hex_byte_inj)
qed

lemma signature_shape_hex: "length bs = 32 \<Longrightarrow> signature_shape (js ''sha256='' @ hex bs)"
  by (simp add: signature_shape_def hex_is_hex)

lemma timestamp_safe: "timestamp_shape ts \<Longrightarrow> is_safe_integer (num_of_int (int (digits_val ts)))"
proof -
  assume "timestamp_shape ts"
  then have "digits_val ts < 10 ^ 10" using digits_val_bound [of ts] by (simp add: timestamp_shape_def)
  then show ?thesis using fl_nat_safe [of "digits_val ts"] by (simp add: num_of_int_def)
qed

text \<open>The timestamp has a fixed width, so what is signed determines timestamp and body.\<close>

lemma ascii_digits_inj:
  "list_all is_digit s \<Longrightarrow> list_all is_digit t \<Longrightarrow> ascii_bytes s = ascii_bytes t \<Longrightarrow> s = t"
proof (induction s arbitrary: t)
  case Nil
  then show ?case by (simp add: ascii_bytes_def)
next
  case (Cons c s)
  then obtain d t' where t: "t = d # t'" by (cases t) (simp_all add: ascii_bytes_def)
  have small: "unat c < 58" "unat d < 58" using Cons.prems t by (simp_all add: is_digit_unat)
  have "(ucast c :: byte) = ucast d" using Cons.prems t by (simp add: ascii_bytes_def)
  then have "unat (ucast c :: byte) = unat (ucast d :: byte)" by simp
  with small have "unat c = unat d" by (simp add: unsigned_ucast_eq take_bit_nat_eq_self)
  then have "c = d" by (simp add: word_unat_eq_iff)
  with Cons.IH [of t'] Cons.prems t show ?case by (simp add: ascii_bytes_def)
qed

lemma signed_message_inj:
  assumes "timestamp_shape ts" "timestamp_shape ts'" "signed_message ts b = signed_message ts' b'"
  shows "ts = ts' \<and> b = b'"
proof -
  have "length (ascii_bytes ts) = length (ascii_bytes ts')"
    using assms(1,2) by (simp add: timestamp_shape_def ascii_bytes_def)
  with assms(3) have "ascii_bytes ts = ascii_bytes ts' \<and> b = b'"
    unfolding signed_message_def by (simp add: append_eq_append_conv)
  with assms(1,2) show ?thesis by (auto simp: timestamp_shape_def intro: ascii_digits_inj)
qed

section \<open>When a request is accepted\<close>

lemma verifySignature_cases:
  assumes "\<And>m. length (hmac secret m) = 32"
  shows "verifySignature hmac secret now req = Inr () \<longleftrightarrow>
    (\<exists>b ts. body req = Some b \<and> timestamp_header req = Some ts \<and> timestamp_shape ts
       \<and> \<bar>now - int (digits_val ts) * 1000\<bar> \<le> 300000
       \<and> signature_header req = Some (js ''sha256='' @ hex (hmac secret (signed_message ts b))))"
  (is "?l \<longleftrightarrow> ?r")
proof
  assume ?l
  then obtain b where b: "body req = Some b" by (cases "body req") (simp_all add: verifySignature_def)
  define ts where "ts = or_else (timestamp_header req) []"
  define sg where "sg = or_else (signature_header req) []"
  have r: "timestamp_shape ts" "\<bar>now - int (digits_val ts) * 1000\<bar> \<le> 300000"
    "sg = js ''sha256='' @ hex (hmac secret (signed_message ts b))"
    using \<open>?l\<close> unfolding verifySignature_def b option.case Let_def ts_def [symmetric] sg_def [symmetric]
    by (simp_all split: if_splits)
  moreover have "timestamp_header req = Some ts"
    using r(1) ts_def by (cases "timestamp_header req") (simp_all add: timestamp_shape_def)
  moreover have "signature_header req = Some sg"
    using r(3) sg_def by (cases "signature_header req") simp_all
  ultimately show ?r using b by blast
next
  assume ?r
  then show ?l
    using assms by (auto simp: verifySignature_def Let_def timestamp_safe signature_shape_hex)
qed

text \<open>The errors of the check, when the digest has its 32 bytes.\<close>

lemma verifySignature_error:
  assumes "\<And>m. length (hmac secret m) = 32" "verifySignature hmac secret now req = Inl e"
  shows "e \<in> {requestError 415 (js ''invalid_content_type''), requestError 401 (js ''expired_request''),
      requestError 401 (js ''invalid_signature'')}"
  using assms(2)
  by (auto simp: verifySignature_def Let_def signature_shape_def assms(1) split: option.splits if_splits)

section \<open>A snapshot is its own normal form\<close>

text \<open>
  What the code relies on of \<open>Date.parse\<close> beyond \<open>date_parser\<close>: a text with a year of four
  digits denotes an instant whose own text has one. (The one exception, hour 24 of the last day
  of year 9999, is no date \<open>iso_parse\<close> accepts.)
\<close>

locale snapshot_dates = date_parser dparse for dparse :: "jsstring \<Rightarrow> int option" +
  assumes parse_range: "date_shape s \<Longrightarrow> dparse s = Some t \<Longrightarrow> iso_range t"
begin

lemma date_shape_iso: "iso_range t \<Longrightarrow> date_shape (iso_string t)"
proof -
  assume r: "iso_range t"
  have p3: "length (padded 3 (t mod 1000)) = 3" by (rule length_padded) simp_all
  have "padded 3 (t mod 1000) @ js ''Z'' \<noteq> []" by simp
  have d20: "drop 20 (iso_string t) = padded 3 (t mod 1000) @ js ''Z''"
    using iso_string_layout(16) [OF r] drop_drop [of 1 19 "iso_string t"] by simp
  have "last (iso_string t) = last (drop 19 (iso_string t))"
    using iso_string_layout(1) [OF r] by simp
  also have "\<dots> = hd (js ''Z'')" by (simp add: iso_string_layout(16) [OF r] js_def)
  finally have last: "last (iso_string t) = hd (js ''Z'')" .
  have body: "butlast (drop 20 (iso_string t)) = padded 3 (t mod 1000)"
    by (simp add: d20 butlast_append js_def)
  have digits: "length (field i n (iso_string t)) = n \<and> list_all is_digit (field i n (iso_string t))"
    if "field i n (iso_string t) = padded n k" "i + n \<le> 24" for i n k
  proof -
    have "length (field i n (iso_string t)) = n"
      using that(2) iso_string_layout(1) [OF r] by (simp add: field_def)
    with that(1) show ?thesis by simp
  qed
  note f = iso_string_layout(2-7) [OF r]
  have "starts_with (js ''.'') (drop 19 (iso_string t))"
    by (simp only: iso_string_layout(16) [OF r] starts_with_append)
  then show ?thesis
    using digits [OF f(1)] digits [OF f(2)] digits [OF f(3)] digits [OF f(4)] digits [OF f(5)] digits [OF f(6)]
    by (simp add: date_shape_def body last iso_string_layout(1,9-13) [OF r, simplified One_nat_def])
qed

lemma parse_idempotent:
  assumes "parseSnapshot json dparse raw now = Inr s" "json raw' = Some s"
  shows "parseSnapshot json dparse raw' now = Inr s"
proof -
  obtain v where v: "json raw = Some v" "snapshot_ok dparse now v" "s = snapshot_of dparse v"
    using assms(1) by (auto simp: parseSnapshot_def split: option.splits if_splits)
  obtain d t where d: "get v (js ''observedAt'') = JStr d" "date_shape d" "dparse d = Some t"
    using v(2) by (auto simp: snapshot_ok_def validDate_def split: jsval.splits)
  have r: "iso_range t" using d(2,3) by (rule parse_range)
  have keys: "get s (js ''observedAt'') = JStr (iso_string t)" "get s (js ''version'') = JNum (Fin 1)"
    "get s (js ''acPowerW'') = get v (js ''acPowerW'')"
    "get s (js ''energyTodayWh'') = get v (js ''energyTodayWh'')"
    "get s (js ''status'') = get v (js ''status'')" "get s (js ''stale'') = get v (js ''stale'')"
    unfolding v(3) snapshot_of_def by (simp_all add: d date_ms_def) (simp_all add: js_lit)
  have "t \<le> now + 5 * 60 * 1000" using v(2) d by (simp add: snapshot_ok_def date_ms_def)
  moreover have "list_all (\<lambda>k. k \<in> set allowed_keys) (object_keys s)"
    unfolding v(3) by (simp add: snapshot_of_def allowed_keys_def)
  moreover have "is_object s" "\<not> is_array s" "truthy s" unfolding v(3) by (simp_all add: snapshot_of_def)
  ultimately have "snapshot_ok dparse now s"
    using v(2) date_shape_iso [OF r] parse_iso [OF r]
    unfolding snapshot_ok_def keys by (simp add: validDate_def date_ms_def)
  moreover have "snapshot_of dparse s = s"
    unfolding v(3) snapshot_of_def [of dparse "snapshot_of dparse v"] keys [unfolded v(3)]
    by (simp add: snapshot_of_def d date_ms_def parse_iso [OF r])
  ultimately show ?thesis using assms(2) \<open>truthy s\<close> by (simp add: parseSnapshot_def)
qed

end

interpretation snap: snapshot_dates iso_parse
  by unfold_locales (rule iso_parse_range)

section \<open>Properties of the route\<close>

text \<open>A request that is fresh and signed with the shared secret.\<close>

definition authentic :: "ingest_config \<Rightarrow> int \<Rightarrow> ingest_request \<Rightarrow> bool" where
  "authentic cfg now req \<longleftrightarrow> (case (body req, timestamp_header req) of
      (Some b, Some ts) \<Rightarrow> timestamp_shape ts \<and> \<bar>now - int (digits_val ts) * 1000\<bar> \<le> 300000
        \<and> signature_header req = Some (js ''sha256='' @ hex (cfg_hmac cfg (cfg_secret cfg) (signed_message ts b)))
    | _ \<Rightarrow> False)"

lemma verify_authentic:
  assumes "\<And>m. length (cfg_hmac cfg (cfg_secret cfg) m) = 32"
  shows "verifySignature (cfg_hmac cfg) (cfg_secret cfg) now req = Inr () \<longleftrightarrow> authentic cfg now req"
  using verifySignature_cases [of "cfg_hmac cfg" "cfg_secret cfg" now req, OF assms]
  by (auto simp: authentic_def split: option.splits)

text \<open>A concrete configuration for the witnesses: a short body is the sample snapshot.\<close>

definition sample_reading :: jsval where
  "sample_reading = JObj [(js ''version'', JNum (Fin 1)), (js ''observedAt'', JStr (iso_string 0)),
     (js ''acPowerW'', JNum (Fin 1500)), (js ''energyTodayWh'', JNum (Fin 0)),
     (js ''status'', JStr (js ''normal'')), (js ''stale'', JBool False)]"

definition sample_config :: ingest_config where
  "sample_config = \<lparr>cfg_hmac = (\<lambda>k m. replicate 32 (of_nat (length m))), cfg_json = (\<lambda>raw. Some sample_reading),
     cfg_dparse = iso_parse, cfg_secret = replicate 32 7\<rparr>"

definition sample_request :: "byte list \<Rightarrow> ingest_request" where
  "sample_request b = \<lparr>body = Some b, timestamp_header = Some (js ''0000000000''),
     signature_header = Some (js ''sha256='' @ hex (replicate 32 (of_nat (11 + length b)))),
     attempt_allowed = True, publisher_allowed = True\<rparr>"

lemma sample_hmac: "length (cfg_hmac sample_config (cfg_secret sample_config) m) = 32"
  by (simp add: sample_config_def)

lemma sample_authentic: "authentic sample_config 0 (sample_request b)"
  by (simp add: authentic_def sample_request_def sample_config_def signed_message_def ascii_bytes_def)
    (simp add: timestamp_shape_def digits_val_def digit_val_def js_lit)

lemma sample_parse: "parseSnapshot (cfg_json sample_config) iso_parse b 0 = Inr sample_reading"
proof -
  have r: "iso_range 0" by code_simp
  have shape: "date_shape (iso_string 0)" by (rule snap.date_shape_iso [OF r])
  have g: "get sample_reading (js ''observedAt'') = JStr (iso_string 0)"
    "get sample_reading (js ''version'') = JNum (Fin 1)" "get sample_reading (js ''acPowerW'') = JNum (Fin 1500)"
    "get sample_reading (js ''energyTodayWh'') = JNum (Fin 0)"
    "get sample_reading (js ''status'') = JStr (js ''normal'')" "get sample_reading (js ''stale'') = JBool False"
    by (simp_all add: sample_reading_def) (simp_all add: js_lit)
  have st: "status_shape (js ''normal'')" by (simp add: status_shape_def js_lit)
  have "list_all (\<lambda>k. k \<in> set allowed_keys) (object_keys sample_reading)"
    "is_object sample_reading" "\<not> is_array sample_reading" "truthy sample_reading"
    by (simp_all add: sample_reading_def allowed_keys_def)
  then show ?thesis
    using shape iso.parse_iso [OF r] st
    by (simp add: parseSnapshot_def sample_config_def snapshot_ok_def g finiteBetween_def validDate_def date_ms_def
        snapshot_of_def) (simp add: sample_reading_def)
qed

text \<open>
  C7. The signature check passes exactly for the requests with a raw body, a ten-digit timestamp
  within five minutes of the clock, and the HMAC of the timestamp, a dot and the body as signature;
  every other request gets one of three answers.
\<close>

theorem verifySignature_iff:
  assumes "\<And>m. length (cfg_hmac cfg (cfg_secret cfg) m) = 32"
  shows "if authentic cfg now req then verifySignature (cfg_hmac cfg) (cfg_secret cfg) now req = Inr ()
    else sendRequestError (projl (verifySignature (cfg_hmac cfg) (cfg_secret cfg) now req))
      \<in> {Failure 415 (js ''invalid_content_type''), Failure 401 (js ''expired_request''),
         Failure 401 (js ''invalid_signature'')}"
proof (cases "verifySignature (cfg_hmac cfg) (cfg_secret cfg) now req")
  case (Inl e)
  then show ?thesis
    using verifySignature_error [OF assms Inl] verify_authentic [OF assms, of now req]
    by (auto simp: sendRequestError_def requestError_def)
next
  case (Inr u)
  then show ?thesis using verify_authentic [OF assms, of now req] by simp
qed

lemma verifySignature_iff_witness:
  "verifySignature (cfg_hmac sample_config) (cfg_secret sample_config) 0 (sample_request []) = Inr ()"
  using verifySignature_iff [OF sample_hmac, of 0 "sample_request []"] by (simp add: sample_authentic)

text \<open>
  A signature binds timestamp and body: two accepted requests with the same signature have the
  same timestamp and the same body, or two different messages have the same HMAC.
\<close>

lemma signature_binds:
  assumes "authentic cfg now req" "authentic cfg now' req'"
    and "signature_header req = signature_header req'"
  shows "timestamp_header req = timestamp_header req' \<and> body req = body req'
    \<or> (\<exists>m m'. m \<noteq> m' \<and> cfg_hmac cfg (cfg_secret cfg) m = cfg_hmac cfg (cfg_secret cfg) m')"
proof -
  obtain b ts where r: "body req = Some b" "timestamp_header req = Some ts" "timestamp_shape ts"
    "signature_header req = Some (js ''sha256='' @ hex (cfg_hmac cfg (cfg_secret cfg) (signed_message ts b)))"
    using assms(1) by (auto simp: authentic_def split: option.splits)
  obtain b' ts' where r': "body req' = Some b'" "timestamp_header req' = Some ts'" "timestamp_shape ts'"
    "signature_header req' = Some (js ''sha256='' @ hex (cfg_hmac cfg (cfg_secret cfg) (signed_message ts' b')))"
    using assms(2) by (auto simp: authentic_def split: option.splits)
  have "cfg_hmac cfg (cfg_secret cfg) (signed_message ts b) = cfg_hmac cfg (cfg_secret cfg) (signed_message ts' b')"
    using assms(3) r(4) r'(4) by (simp add: hex_inj)
  then show ?thesis
    using signed_message_inj [OF r(3) r'(3)] r r' by (cases "signed_message ts b = signed_message ts' b'") auto
qed

lemma signature_binds_witness:
  "authentic sample_config 0 (sample_request [1]) \<and> authentic sample_config 0 (sample_request [2]) \<and>
   (\<exists>m m'. m \<noteq> m' \<and> cfg_hmac sample_config (cfg_secret sample_config) m = cfg_hmac sample_config (cfg_secret sample_config) m')"
proof -
  have "signature_header (sample_request [1]) = signature_header (sample_request [2])"
    "body (sample_request [1]) \<noteq> body (sample_request [2])"
    by (simp_all add: sample_request_def)
  with signature_binds [OF sample_authentic sample_authentic this(1)] show ?thesis
    by (blast intro: sample_authentic)
qed

lemma sample_scheduled: "scheduled (ingest sample_config 0 0 None (sample_request []) emptyState)"
proof -
  have "verifySignature (cfg_hmac sample_config) (cfg_secret sample_config) 0 (sample_request []) = Inr ()"
    using sample_authentic [of "[]"] verify_authentic [OF sample_hmac] by blast
  then show ?thesis
    using sample_parse [of "[]"]
    by (simp add: ingest_def ingest_handler_def sample_request_def emptyState_def)
      (simp add: sample_config_def updateSnapshot_def)
qed

text \<open>
  C2. Only authentic requests within both limits change the data, schedule a push or are accepted;
  the device list never changes, and the new snapshot is one the validation produced.
\<close>

theorem ingest_guarded:
  assumes "\<And>m. length (cfg_hmac cfg (cfg_secret cfg) m) = 32"
    and "r = ingest cfg authTime now save_error req d"
    and "after r \<noteq> d \<or> scheduled r \<or> answer r = Accepted u"
  shows "attempt_allowed req \<and> publisher_allowed req \<and> authentic cfg authTime req
    \<and> devices (after r) = devices d
    \<and> (\<exists>b s. body req = Some b \<and> parseSnapshot (cfg_json cfg) (cfg_dparse cfg) b now = Inr s
         \<and> snapshot (after r) \<in> {snapshot d, s})"
proof -
  have ok: "attempt_allowed req" "publisher_allowed req"
    "verifySignature (cfg_hmac cfg) (cfg_secret cfg) authTime req = Inr ()"
    and r: "r = ingest_handler cfg now save_error (or_else (body req) []) d"
    using assms(2,3)
    by (auto simp: ingest_def sendRequestError_def split: if_splits sum.splits)
  then have auth: "authentic cfg authTime req" using verify_authentic [OF assms(1)] by blast
  then obtain b where b: "body req = Some b" by (auto simp: authentic_def split: option.splits)
  obtain s where s: "parseSnapshot (cfg_json cfg) (cfg_dparse cfg) b now = Inr s"
    using assms(3) by (auto simp: r b ingest_handler_def sendRequestError_def split: sum.splits)
  then have "devices (after r) = devices d \<and> snapshot (after r) \<in> {snapshot d, s}"
    by (auto simp: r b ingest_handler_def updateSnapshot_def Let_def split: option.splits if_splits)
  with ok auth b s show ?thesis by blast
qed

lemma ingest_guarded_witness:
  "devices (after (ingest sample_config 0 0 None (sample_request []) emptyState)) = []
   \<and> scheduled (ingest sample_config 0 0 None (sample_request []) emptyState)"
  using ingest_guarded [OF sample_hmac refl disjI2 [OF disjI1 [OF sample_scheduled]]] sample_scheduled
  by (simp add: emptyState_def)

text \<open>
  C29. What the validation lets through: an answer without error is the six checked fields and
  nothing else, with the power and the energy within their bounds, a short status text, and a date
  at most five minutes ahead of the clock, written in the normal form of \<open>toISOString\<close>.
\<close>

theorem parseSnapshot_sound:
  assumes "parseSnapshot json dparse raw now = Inr s"
  shows "\<exists>t p e st stale. s = JObj [(js ''version'', JNum (Fin 1)), (js ''observedAt'', JStr (iso_string t)),
      (js ''acPowerW'', JNum (Fin p)), (js ''energyTodayWh'', JNum (Fin e)),
      (js ''status'', JStr st), (js ''stale'', JBool stale)]
    \<and> t \<le> now + 300000 \<and> 0 \<le> p \<and> p \<le> 1000000 \<and> 0 \<le> e \<and> e \<le> 100000000
    \<and> 1 \<le> length st \<and> length st \<le> 64"
proof -
  obtain v where v: "snapshot_ok dparse now v" "s = snapshot_of dparse v"
    using assms by (auto simp: parseSnapshot_def split: option.splits if_splits)
  obtain d t where d: "get v (js ''observedAt'') = JStr d" "dparse d = Some t"
    using v(1) by (auto simp: snapshot_ok_def validDate_def split: jsval.splits)
  obtain p e where "get v (js ''acPowerW'') = JNum (Fin p)" "0 \<le> p" "p \<le> 1000000"
    "get v (js ''energyTodayWh'') = JNum (Fin e)" "0 \<le> e" "e \<le> 100000000"
    using v(1) by (auto simp: snapshot_ok_def finiteBetween_def split: jsval.splits jsnum.splits)
  moreover obtain st b where "get v (js ''status'') = JStr st" "status_shape st" "get v (js ''stale'') = JBool b"
    using v(1) by (auto simp: snapshot_ok_def is_bool_iff split: jsval.splits)
  moreover have "t \<le> now + 300000" using v(1) d by (simp add: snapshot_ok_def date_ms_def)
  ultimately show ?thesis
    unfolding v(2) snapshot_of_def status_shape_def by (auto simp: d date_ms_def)
qed

lemma parseSnapshot_sound_witness:
  "\<exists>t p e st stale. sample_reading = JObj [(js ''version'', JNum (Fin 1)), (js ''observedAt'', JStr (iso_string t)),
      (js ''acPowerW'', JNum (Fin p)), (js ''energyTodayWh'', JNum (Fin e)),
      (js ''status'', JStr st), (js ''stale'', JBool stale)] \<and> p \<le> 1000000"
  using parseSnapshot_sound [OF sample_parse] by blast

text \<open>
  The validated snapshot is its own normal form: sent again at the same time, as any body that
  parses to it, it is accepted and comes out unchanged.
\<close>

lemma parseSnapshot_normal_form:
  assumes "snapshot_dates dparse"
    and "parseSnapshot json dparse raw now = Inr s" "json raw' = Some s"
  shows "parseSnapshot json dparse raw' now = Inr s"
  using assms by (rule snapshot_dates.parse_idempotent)

lemma parseSnapshot_normal_form_witness:
  "parseSnapshot (cfg_json sample_config) iso_parse [9] 0 = Inr sample_reading"
  by (rule parseSnapshot_normal_form [OF snap.snapshot_dates_axioms sample_parse [of "[1]"]])
    (simp add: sample_config_def)

text \<open>
  C30. A failed write loses its push: an authentic snapshot whose write fails is answered with the
  status 400 and the file system's error code, and the same request sent again, while it is fresh, is
  answered as already known; neither of the two schedules a push, although memory holds the reading
  from the first one on, whatever becomes of the file. (A later request that schedules a push makes it
  read that memory.)
\<close>

theorem ingest_retry_lost:
  assumes "attempt_allowed req" "publisher_allowed req"
    and "verifySignature (cfg_hmac cfg) (cfg_secret cfg) authTime req = Inr ()"
    and "parseSnapshot (cfg_json cfg) (cfg_dparse cfg) (or_else (body req) []) now = Inr s"
    and "updateSnapshot (date_ms (cfg_dparse cfg)) s d = Some d'"
    and "verifySignature (cfg_hmac cfg) (cfg_secret cfg) authTime' req = Inr ()"
    and "parseSnapshot (cfg_json cfg) (cfg_dparse cfg) (or_else (body req) []) now' = Inr s"
  shows "ingest cfg authTime now (Some code) req d = \<lparr>answer = Failure 400 code, after = d', scheduled = False\<rparr>
    \<and> snapshot d' = s
    \<and> ingest cfg authTime' now' save_error req d' = \<lparr>answer = Accepted False, after = d', scheduled = False\<rparr>"
proof -
  have "truthy s"
    using assms(4) by (auto simp: parseSnapshot_def snapshot_of_def split: option.splits if_splits)
  moreover have s: "snapshot d' = s" using assms(5) by (auto simp: updateSnapshot_def Let_def split: if_splits)
  ultimately have "updateSnapshot (date_ms (cfg_dparse cfg)) s d' = None"
    by (simp add: updateSnapshot_def Let_def)
  then show ?thesis
    using assms s by (simp add: ingest_def ingest_handler_def sendRequestError_def)
qed

lemma ingest_retry_lost_witness:
  "answer (ingest sample_config 0 0 (Some (js ''ENOSPC'')) (sample_request []) emptyState) = Failure 400 (js ''ENOSPC'')"
proof -
  have v: "verifySignature (cfg_hmac sample_config) (cfg_secret sample_config) 0 (sample_request []) = Inr ()"
    using sample_authentic [of "[]"] verify_authentic [OF sample_hmac] by blast
  have c: "cfg_dparse sample_config = iso_parse" by (simp add: sample_config_def)
  have u: "updateSnapshot (date_ms (cfg_dparse sample_config)) sample_reading emptyState
      = Some (emptyState\<lparr>snapshot := sample_reading\<rparr>)"
    by (simp add: updateSnapshot_def emptyState_def)
  show ?thesis
    by (subst conjunct1 [OF ingest_retry_lost [OF _ _ v sample_parse [folded c] u v sample_parse [folded c]]])
      (simp_all add: sample_request_def)
qed

end
