(* ===== verification/RelayScheduler.thy ===== *)
theory RelayScheduler
  imports Prelude
begin

text \<open>
  The coalescing scheduler of widget updates, \<open>pushScheduler\<close> in
  \<open>integrations/alexa-relay/src/app.js\<close>: two flags and an asynchronous loop.

  \<open>schedule\<close> runs the loop up to its first \<open>await\<close> at once; the rest of the loop runs when the
  push settles (fulfilled or rejected, both are caught), the \<open>finally\<close> callback runs later, and
  \<open>setImmediate(schedule)\<close> later still. Each of these is an event, so other code may run between
  any two of them. \<open>loops\<close> lists the asynchronous loops in progress: that there is never more than
  one is a theorem, not part of the model. \<open>'d\<close> is the data a push reads (\<open>state.snapshot()\<close> and
  \<open>state.devices()\<close>); \<open>pushed\<close> records what each push read. The log lines are not modelled.
\<close>

datatype loop_phase =
    AwaitPush   \<comment> \<open>suspended at \<open>await dataStore.push(...)\<close>\<close>
  | LoopLeft    \<comment> \<open>the function has returned, its \<open>finally\<close> has not run\<close>

record 'd scheduler =
  running :: bool
  pending :: bool
  loops :: "loop_phase list"
  immediates :: nat
  current :: 'd
  pushed :: "'d list"

datatype 'd sched_event =
    SetData 'd
  | Schedule
  | PushSettles nat
  | FinallyRuns nat
  | ImmediateRuns

definition idle :: "'d \<Rightarrow> 'd scheduler" where
  "idle d = \<lparr>running = False, pending = False, loops = [], immediates = 0, current = d, pushed = []\<rparr>"

text \<open>\<open>while (pending) { pending = false; ... push ... }\<close>, up to the next suspension.\<close>

definition loop_check :: "'d scheduler \<Rightarrow> 'd scheduler \<times> loop_phase" where
  "loop_check s =
     (if pending s then (s\<lparr>pending := False, pushed := pushed s @ [current s]\<rparr>, AwaitPush)
      else (s, LoopLeft))"

definition schedule :: "'d scheduler \<Rightarrow> 'd scheduler" where
  "schedule s =
     (let s1 = s\<lparr>pending := True\<rparr> in
      if running s1 then s1
      else let (s2, phase) = loop_check (s1\<lparr>running := True\<rparr>) in s2\<lparr>loops := loops s2 @ [phase]\<rparr>)"

definition push_settles :: "nat \<Rightarrow> 'd scheduler \<Rightarrow> 'd scheduler" where
  "push_settles i s =
     (if i < length (loops s) \<and> loops s ! i = AwaitPush
      then let (s', phase) = loop_check s in s'\<lparr>loops := (loops s')[i := phase]\<rparr>
      else s)"

definition finally_runs :: "nat \<Rightarrow> 'd scheduler \<Rightarrow> 'd scheduler" where
  "finally_runs i s =
     (if i < length (loops s) \<and> loops s ! i = LoopLeft
      then let s1 = s\<lparr>loops := take i (loops s) @ drop (Suc i) (loops s), running := False\<rparr> in
           if pending s1 then s1\<lparr>immediates := Suc (immediates s1)\<rparr> else s1
      else s)"

definition immediate_runs :: "'d scheduler \<Rightarrow> 'd scheduler" where
  "immediate_runs s =
     (if 0 < immediates s then schedule (s\<lparr>immediates := immediates s - 1\<rparr>) else s)"

fun sched_step :: "'d scheduler \<Rightarrow> 'd sched_event \<Rightarrow> 'd scheduler" where
  "sched_step s (SetData d) = s\<lparr>current := d\<rparr>"
| "sched_step s Schedule = schedule s"
| "sched_step s (PushSettles i) = push_settles i s"
| "sched_step s (FinallyRuns i) = finally_runs i s"
| "sched_step s ImmediateRuns = immediate_runs s"

abbreviation sched_run :: "'d scheduler \<Rightarrow> 'd sched_event list \<Rightarrow> 'd scheduler" where
  "sched_run \<equiv> foldl sched_step"

text \<open>Nothing is left to run.\<close>

definition quiescent :: "'d scheduler \<Rightarrow> bool" where
  "quiescent s \<longleftrightarrow> loops s = [] \<and> immediates s = 0"

section \<open>The invariant\<close>

definition sched_inv :: "'d scheduler \<Rightarrow> bool" where
  "sched_inv s \<longleftrightarrow> (loops s = [] \<and> \<not> running s \<or> length (loops s) = 1 \<and> running s)
     \<and> (pending s \<longrightarrow> running s \<or> 0 < immediates s)"

lemma idle_inv [simp]: "sched_inv (idle d)"
  by (simp add: sched_inv_def idle_def)

lemma schedule_inv: "sched_inv s \<or> (sched_inv (s\<lparr>immediates := Suc (immediates s)\<rparr>)) \<Longrightarrow> sched_inv (schedule s)"
  by (auto simp: sched_inv_def schedule_def loop_check_def Let_def)

lemma push_settles_inv: "sched_inv s \<Longrightarrow> sched_inv (push_settles i s)"
  by (auto simp: sched_inv_def push_settles_def loop_check_def Let_def)

lemma finally_runs_inv: "sched_inv s \<Longrightarrow> sched_inv (finally_runs i s)"
  by (auto simp: sched_inv_def finally_runs_def Let_def)

lemma immediate_runs_inv: "sched_inv s \<Longrightarrow> sched_inv (immediate_runs s)"
  unfolding immediate_runs_def by (auto intro!: schedule_inv)

lemma sched_step_inv: "sched_inv s \<Longrightarrow> sched_inv (sched_step s e)"
  by (cases e) (auto simp: schedule_inv push_settles_inv finally_runs_inv immediate_runs_inv,
      simp add: sched_inv_def)

interpretation scheduler: event_machine sched_step sched_inv
  by unfold_locales (rule sched_step_inv)

section \<open>No update is lost\<close>

text \<open>The current data has been pushed, or will be.\<close>

definition covered :: "'d scheduler \<Rightarrow> bool" where
  "covered s \<longleftrightarrow> pending s \<or> pushed s \<noteq> [] \<and> last (pushed s) = current s"

lemma schedule_covered: "covered (schedule s)"
  by (simp add: covered_def schedule_def loop_check_def Let_def)

lemma step_covered: "covered s \<Longrightarrow> (\<And>d. e \<noteq> SetData d) \<Longrightarrow> covered (sched_step s e)"
proof (cases e)
  case (PushSettles i)
  assume "covered s"
  with PushSettles show ?thesis by (auto simp: covered_def push_settles_def loop_check_def Let_def)
next
  case (FinallyRuns i)
  assume "covered s"
  with FinallyRuns show ?thesis by (auto simp: covered_def finally_runs_def Let_def)
qed (auto simp: schedule_covered immediate_runs_def)

lemma run_covered: "covered s \<Longrightarrow> (\<And>d. SetData d \<notin> set es) \<Longrightarrow> covered (sched_run s es)"
proof (induction es arbitrary: s)
  case (Cons e es)
  have "covered (sched_step s e)" using Cons.prems by (intro step_covered) auto
  with Cons show ?case by simp
qed simp

section \<open>The scheduler comes to rest\<close>

text \<open>The internal event that runs next, if any: what the event loop does when nobody schedules.\<close>

definition service :: "'d scheduler \<Rightarrow> 'd scheduler" where
  "service s = (case loops s of
      AwaitPush # _ \<Rightarrow> push_settles 0 s
    | LoopLeft # _ \<Rightarrow> finally_runs 0 s
    | [] \<Rightarrow> immediate_runs s)"

definition work :: "'d scheduler \<Rightarrow> nat" where
  "work s = 4 * immediates s + (case loops s of
      [] \<Rightarrow> 0
    | AwaitPush # _ \<Rightarrow> (if pending s then 3 else 2)
    | LoopLeft # _ \<Rightarrow> (if pending s then 5 else 1))"

lemma service_inv: "sched_inv s \<Longrightarrow> sched_inv (service s)"
  unfolding service_def
  by (auto split: list.splits loop_phase.splits intro: push_settles_inv finally_runs_inv immediate_runs_inv)

lemma service_covered: "covered s \<Longrightarrow> covered (service s)"
  using step_covered [of s "PushSettles 0"] step_covered [of s "FinallyRuns 0"]
    step_covered [of s ImmediateRuns]
  by (auto simp: service_def split: list.splits loop_phase.splits)

lemma service_current [simp]: "current (service s) = current s"
  by (auto simp: service_def push_settles_def finally_runs_def immediate_runs_def schedule_def
      loop_check_def Let_def split: list.splits loop_phase.splits)

lemma service_work: "sched_inv s \<Longrightarrow> \<not> quiescent s \<Longrightarrow> work (service s) < work s"
proof (cases "loops s")
  case Nil
  assume "sched_inv s" "\<not> quiescent s"
  with Nil show ?thesis
    by (auto simp: service_def sched_inv_def quiescent_def immediate_runs_def schedule_def loop_check_def
        work_def Let_def)
next
  case (Cons p ps)
  assume "sched_inv s"
  with Cons have "ps = []" by (auto simp: sched_inv_def)
  with Cons show ?thesis
    by (cases p) (auto simp: service_def push_settles_def finally_runs_def loop_check_def work_def Let_def)
qed

lemma service_drains: "sched_inv s \<Longrightarrow> \<exists>n \<le> work s. quiescent ((service ^^ n) s)"
proof (induction "work s" arbitrary: s rule: less_induct)
  case less
  show ?case
  proof (cases "quiescent s")
    case True
    then show ?thesis by (intro exI [of _ 0]) simp
  next
    case False
    have w: "work (service s) < work s" using less.prems False by (rule service_work)
    from less.hyps [OF this service_inv [OF less.prems]] obtain n where
      "n \<le> work (service s)" "quiescent ((service ^^ n) (service s))" by blast
    with w show ?thesis by (intro exI [of _ "Suc n"]) (simp add: funpow_swap1)
  qed
qed

lemma services_covered: "covered s \<Longrightarrow> covered ((service ^^ n) s)"
  by (induction n) (simp_all add: service_covered)

lemma services_inv: "sched_inv s \<Longrightarrow> sched_inv ((service ^^ n) s)"
  by (induction n) (simp_all add: service_inv)

lemma services_current [simp]: "current ((service ^^ n) s) = current s"
  by (induction n) simp_all

lemma covered_quiescent: "covered s \<Longrightarrow> sched_inv s \<Longrightarrow> quiescent s \<Longrightarrow> pushed s \<noteq> [] \<and> last (pushed s) = current s"
  by (auto simp: covered_def sched_inv_def quiescent_def)

section \<open>Properties of the scheduler\<close>

text \<open>
  Pushes never overlap: after any interleaving of calls and callbacks at most one loop is in
  progress, and \<open>running\<close> says whether there is one.
\<close>

lemma pushes_serial:
  "length (loops (sched_run (idle d) es)) \<le> 1
   \<and> (running (sched_run (idle d) es) \<longleftrightarrow> loops (sched_run (idle d) es) \<noteq> [])"
  using scheduler.run_inv [OF idle_inv, of d es] by (auto simp: sched_inv_def)

text \<open>
  No update is lost: once a push has been requested and the data does not change any more, the
  scheduler can only be at rest after a push that read exactly the current data.
\<close>

lemma last_update_pushed:
  assumes "\<And>d'. SetData d' \<notin> set es'"
    and "quiescent (sched_run (idle d) (es @ Schedule # es'))"
  shows "pushed (sched_run (idle d) (es @ Schedule # es')) \<noteq> []
    \<and> last (pushed (sched_run (idle d) (es @ Schedule # es'))) = current (sched_run (idle d) (es @ Schedule # es'))"
proof -
  have "covered (sched_run (sched_run (idle d) (es @ [Schedule])) es')"
    by (rule run_covered) (simp_all add: schedule_covered assms(1))
  then have "covered (sched_run (idle d) (es @ Schedule # es'))" by simp
  then show ?thesis by (rule covered_quiescent [OF _ scheduler.run_inv [OF idle_inv] assms(2)])
qed

lemma last_update_pushed_witness:
  "last (pushed (sched_run (idle (0 :: nat))
     ([Schedule, SetData 5] @ Schedule # [PushSettles 0, PushSettles 0, FinallyRuns 0]))) = 5"
proof -
  let ?es = "[PushSettles 0, PushSettles 0, FinallyRuns 0] :: nat sched_event list"
  have "quiescent (sched_run (idle (0 :: nat)) ([Schedule, SetData 5] @ Schedule # ?es))"
    and c: "current (sched_run (idle (0 :: nat)) ([Schedule, SetData 5] @ Schedule # ?es)) = 5"
    by (simp_all add: quiescent_def idle_def schedule_def push_settles_def finally_runs_def loop_check_def Let_def)
  from last_update_pushed [OF _ this(1)] show ?thesis by (simp only: c) simp
qed

text \<open>
  C6. The scheduler comes to rest: from every reachable state, if nobody schedules again, letting
  the pending callbacks run reaches rest within \<open>4 * immediates + 5\<close> of them, without a change of
  data; and when a push has been requested since the data last changed, what the last push read is
  then the current data.
\<close>

theorem scheduler_drains:
  "\<exists>n \<le> 4 * immediates (sched_run (idle d) es) + 5.
     let s = sched_run (idle d) es; s' = (service ^^ n) s in
     quiescent s' \<and> current s' = current s
     \<and> (\<forall>before after. es = before @ Schedule # after \<and> (\<forall>d'. SetData d' \<notin> set after)
          \<longrightarrow> pushed s' \<noteq> [] \<and> last (pushed s') = current s)"
proof -
  define s where "s = sched_run (idle d) es"
  have inv: "sched_inv s" unfolding s_def by (intro scheduler.run_inv idle_inv)
  obtain n where n: "n \<le> work s" "quiescent ((service ^^ n) s)" using service_drains [OF inv] by blast
  have "pushed ((service ^^ n) s) \<noteq> [] \<and> last (pushed ((service ^^ n) s)) = current s"
    if "es = before @ Schedule # after" "\<forall>d'. SetData d' \<notin> set after" for before after
  proof -
    have "covered s" using run_covered [OF schedule_covered, of after] that by (simp add: s_def)
    from covered_quiescent [OF services_covered [OF this] services_inv [OF inv] n(2)] show ?thesis by simp
  qed
  moreover have "n \<le> 4 * immediates s + 5"
    using n(1) by (rule order_trans) (auto simp: work_def split: list.splits loop_phase.splits)
  ultimately show ?thesis using n(2) unfolding s_def [symmetric] Let_def by auto
qed

text \<open>A request while a push is under way, after a change of the data: the second push reads it.\<close>

lemma scheduler_drains_witness:
  "\<exists>n. pushed ((service ^^ n) (sched_run (idle (0 :: nat)) [Schedule, SetData 5, Schedule])) \<noteq> []
     \<and> last (pushed ((service ^^ n) (sched_run (idle (0 :: nat)) [Schedule, SetData 5, Schedule]))) = 5"
proof -
  let ?es = "[Schedule, SetData 5, Schedule] :: nat sched_event list"
  have "?es = [Schedule, SetData 5] @ Schedule # []" "\<forall>d'. SetData d' \<notin> set ([] :: nat sched_event list)" by simp_all
  moreover have "current (sched_run (idle 0) ?es) = 5"
    by (simp add: idle_def schedule_def loop_check_def Let_def)
  ultimately show ?thesis using scheduler_drains [of 0 ?es] unfolding Let_def by metis
qed

end
