(* ===== verification/RelayClient.thy ===== *)
theory RelayClient
  imports JsValue
begin

text \<open>
  The client of the Alexa Data Store, \<open>integrations/alexa-relay/src/alexa-client.js\<close>: the class
  \<open>AlexaDataStoreClient\<close> with its cached token, the retry after a 401, the batches of twenty, and
  the display form of a snapshot.

  The network is a script: the outcomes of the requests still to come, in order, each with the
  time it arrives; a request beyond the script is aborted, as the ten-second timeout does. \<open>sent\<close>
  records the requests made. Time passes only while a request is awaited. The bodies of the
  requests keep what varies: the token, the devices and the content.

  Parameters: \<open>intl\<close>, the locale formats of \<open>Intl\<close> (\<open>None\<close> where the formatter throws).
\<close>

section \<open>The display form\<close>

record intl =
  whole_number :: "jsval \<Rightarrow> jsstring"        \<comment> \<open>\<open>maximumFractionDigits: 0\<close>\<close>
  two_decimals :: "jsval \<Rightarrow> jsstring"        \<comment> \<open>of the value divided by 1000\<close>
  clock_text :: "jsstring \<Rightarrow> jsval \<Rightarrow> jsstring option"   \<comment> \<open>of a time zone and a date\<close>

definition below_1000 :: "jsval \<Rightarrow> bool" where
  "below_1000 v = (case v of JNum n \<Rightarrow> jlt n (Fin 1000) | _ \<Rightarrow> False)"

definition formatEnergy :: "intl \<Rightarrow> jsval \<Rightarrow> jsstring \<Rightarrow> jsstring \<Rightarrow> jsstring" where
  "formatEnergy I v base kilo =
     (if below_1000 v then whole_number I v @ js '' '' @ base else two_decimals I v @ js '' '' @ kilo)"

definition displaySnapshot :: "intl \<Rightarrow> jsval \<Rightarrow> jsstring \<Rightarrow> jsval option" where
  "displaySnapshot I snap timezone =
     (let stale = (get snap (js ''stale'') = JBool True);
          normal = (get snap (js ''status'') = JStr (js ''normal'')) in
      case clock_text I timezone (get snap (js ''observedAt'')) of
        None \<Rightarrow> None
      | Some txt \<Rightarrow> Some (JObj
         [(js ''power'', JStr (formatEnergy I (get snap (js ''acPowerW'')) (js ''W'') (js ''kW''))),
          (js ''energyToday'', JStr (formatEnergy I (get snap (js ''energyTodayWh'')) (js ''Wh'') (js ''kWh''))),
          (js ''status'', JStr (if stale then js ''Dados desatualizados''
             else if normal then js ''Sistema normal'' else js ''Verificar sistema'')),
          (js ''statusColor'', JStr (if stale then js ''#D6A84B'' else if normal then js ''#56C596'' else js ''#F07A6A'')),
          (js ''updated'', JStr (js ''Atualizado '' @ txt)),
          (js ''observedAt'', get snap (js ''observedAt'')),
          (js ''stale'', JBool stale)]))"

section \<open>Requests\<close>

datatype request =
    TokenRequest
  | Command jsstring jsval "jsstring list"   \<comment> \<open>token, content, devices\<close>

text \<open>An outcome: rejected, or a status and the parsed body (\<open>None\<close>: \<open>json()\<close> rejects).\<close>

datatype outcome = Rejected | Http int "jsval option"

datatype client_error =
    NetworkError | DisplayError | CommandHttp int | BadBody | LoginHttp int | InvalidToken

record client =
  clientId :: jsstring
  clientSecret :: jsstring
  timezone :: jsstring
  token :: "(jsstring \<times> jsnum) option"   \<comment> \<open>value and \<open>expiresAt\<close>\<close>
  now_ms :: int
  script :: "(int \<times> outcome) list"
  sent :: "request list"

definition fetch :: "request \<Rightarrow> client \<Rightarrow> outcome \<times> client" where
  "fetch r c = (case script c of
      [] \<Rightarrow> (Rejected, c\<lparr>sent := sent c @ [r]\<rparr>)
    | (t, out) # rest \<Rightarrow> (out, c\<lparr>sent := sent c @ [r], script := rest, now_ms := t\<rparr>))"

definition ok_status :: "int \<Rightarrow> bool" where
  "ok_status s \<longleftrightarrow> 200 \<le> s \<and> s \<le> 299"

definition token_expiry :: "int \<Rightarrow> jsnum \<Rightarrow> jsnum" where
  "token_expiry t expires_in = jadd (num_of_int t) (jmul (jmax (Fin 60) (jsub expires_in (Fin 60))) (Fin 1000))"

definition request_token :: "client \<Rightarrow> (client_error + jsstring) \<times> client" where
  "request_token c = (case fetch TokenRequest c of
      (Rejected, c1) \<Rightarrow> (Inl NetworkError, c1)
    | (Http status b, c1) \<Rightarrow>
        if \<not> ok_status status then (Inl (LoginHttp status), c1)
        else (case b of None \<Rightarrow> (Inl BadBody, c1) | Some v \<Rightarrow>
          if nullish v then (Inl BadBody, c1)
          else (case (get v (js ''access_token''), get v (js ''expires_in'')) of
              (JStr tok, JNum (Fin e)) \<Rightarrow>
                (Inr tok, c1\<lparr>token := Some (tok, token_expiry (now_ms c1) (Fin e))\<rparr>)
            | _ \<Rightarrow> (Inl InvalidToken, c1))))"

definition accessToken :: "client \<Rightarrow> (client_error + jsstring) \<times> client" where
  "accessToken c = (case token c of
      Some (v, expiresAt) \<Rightarrow>
        if jlt (num_of_int (now_ms c)) expiresAt then (Inr v, c) else request_token c
    | None \<Rightarrow> request_token c)"

text \<open>One attempt of \<open>#send\<close>: \<open>Inr None\<close> asks for the retry.\<close>

definition send_once ::
    "intl \<Rightarrow> jsval \<Rightarrow> jsstring list \<Rightarrow> bool \<Rightarrow> client \<Rightarrow> (client_error + jsval list option) \<times> client" where
  "send_once I snap ds retry c = (case accessToken c of
      (Inl e, c1) \<Rightarrow> (Inl e, c1)
    | (Inr tok, c1) \<Rightarrow> (case displaySnapshot I snap (timezone c1) of
          None \<Rightarrow> (Inl DisplayError, c1)
        | Some content \<Rightarrow> (case fetch (Command tok content ds) c1 of
              (Rejected, c2) \<Rightarrow> (Inl NetworkError, c2)
            | (Http status b, c2) \<Rightarrow>
                if status = 401 \<and> retry then (Inr None, c2\<lparr>token := None\<rparr>)
                else if \<not> ok_status status then (Inl (CommandHttp status), c2)
                else (case b of None \<Rightarrow> (Inl BadBody, c2) | Some v \<Rightarrow>
                  if nullish v then (Inl BadBody, c2)
                  else (Inr (Some (case get v (js ''results'') of JArr rs \<Rightarrow> rs | _ \<Rightarrow> [])), c2)))))"

definition send :: "intl \<Rightarrow> jsval \<Rightarrow> jsstring list \<Rightarrow> client \<Rightarrow> (client_error + jsval list) \<times> client" where
  "send I snap ds c = (case send_once I snap ds True c of
      (Inl e, c1) \<Rightarrow> (Inl e, c1)
    | (Inr (Some rs), c1) \<Rightarrow> (Inr rs, c1)
    | (Inr None, c1) \<Rightarrow> (case send_once I snap ds False c1 of
          (Inl e, c2) \<Rightarrow> (Inl e, c2)
        | (Inr r, c2) \<Rightarrow> (Inr (or_else r []), c2)))"

text \<open>The number of successes; reading \<open>type\<close> of a null result throws.\<close>

definition successes :: "jsval list \<Rightarrow> nat option" where
  "successes rs =
     (if list_ex nullish rs then None
      else Some (length (filter (\<lambda>r. get r (js ''type'') = JStr (js ''SUCCESS'')) rs)))"

function push_batches ::
    "intl \<Rightarrow> jsval \<Rightarrow> jsstring list \<Rightarrow> nat \<Rightarrow> nat \<Rightarrow> client \<Rightarrow> (client_error + nat \<times> nat) \<times> client" where
  "push_batches I snap ds attempted delivered c =
     (if ds = [] then (Inr (attempted, delivered), c)
      else case send I snap (take 20 ds) c of
          (Inl e, c1) \<Rightarrow> (Inl e, c1)
        | (Inr rs, c1) \<Rightarrow> (case successes rs of
              None \<Rightarrow> (Inl BadBody, c1)
            | Some n \<Rightarrow> push_batches I snap (drop 20 ds) (attempted + length (take 20 ds)) (delivered + n) c1))"
  by pat_completeness auto
termination by (relation "measure (\<lambda>(I, snap, ds, a, d, c). length ds)") auto

declare push_batches.simps [simp del]

definition configured :: "client \<Rightarrow> bool" where
  "configured c \<longleftrightarrow> clientId c \<noteq> [] \<and> clientSecret c \<noteq> []"

definition push :: "intl \<Rightarrow> jsval \<Rightarrow> jsstring list \<Rightarrow> client \<Rightarrow> (client_error + nat \<times> nat) \<times> client" where
  "push I snap ds c =
     (if \<not> truthy snap \<or> ds = [] \<or> \<not> configured c then (Inr (0, 0), c)
      else push_batches I snap ds 0 0 c)"

text \<open>\<open>endpoint.replace(/\/+$/, '')\<close>.\<close>

definition client_endpoint :: "jsstring \<Rightarrow> jsstring" where
  "client_endpoint s = rev (dropWhile (\<lambda>c. c = 47) (rev s))"

section \<open>What is sent\<close>

fun command_devices :: "request \<Rightarrow> jsstring list" where
  "command_devices TokenRequest = []"
| "command_devices (Command _ _ ds) = ds"

text \<open>From \<open>c\<close> to \<open>c'\<close> at most \<open>k\<close> requests were sent, each command for exactly \<open>ds\<close>.\<close>

definition sends :: "nat \<Rightarrow> jsstring list \<Rightarrow> client \<Rightarrow> client \<Rightarrow> bool" where
  "sends k ds c c' \<longleftrightarrow> (\<exists>rs. sent c' = sent c @ rs \<and> length rs \<le> k
     \<and> list_all (\<lambda>r. r = TokenRequest \<or> command_devices r = ds) rs)"

lemma sends_refl [simp]: "sends k ds c c"
  by (simp add: sends_def)

lemma sends_trans: "sends k ds a b \<Longrightarrow> sends l ds b c \<Longrightarrow> sends (k + l) ds a c"
  unfolding sends_def by force

lemma sends_token [simp]: "sends k ds c (c'\<lparr>token := t\<rparr>) \<longleftrightarrow> sends k ds c c'"
  by (simp add: sends_def)

lemma fetch_sent: "fetch r c = (out, c') \<Longrightarrow> sent c' = sent c @ [r]"
  by (auto simp: fetch_def split: list.splits)

lemma fetch_sends: "fetch r c = (out, c') \<Longrightarrow> r = TokenRequest \<or> command_devices r = ds \<Longrightarrow> sends 1 ds c c'"
  unfolding sends_def by (drule fetch_sent) auto

lemma request_token_sends: "request_token c = (r, c') \<Longrightarrow> sends 1 ds c c'"
  by (auto simp: request_token_def dest: fetch_sends [of _ _ _ _ ds]
      split: prod.splits outcome.splits if_splits option.splits jsval.splits jsnum.splits)

lemma accessToken_sends: "accessToken c = (r, c') \<Longrightarrow> sends 1 ds c c'"
  by (auto simp: accessToken_def simp del: One_nat_def dest: request_token_sends [where ds = ds] split: option.splits if_splits)

lemma send_once_sends: "send_once I snap ds retry c = (r, c') \<Longrightarrow> sends 2 ds c c'"
proof -
  assume *: "send_once I snap ds retry c = (r, c')"
  obtain a c1 where a: "accessToken c = (a, c1)" by force
  then have c1: "sends 1 ds c c1" by (rule accessToken_sends)
  moreover have "sends 1 ds c1 c'"
    using * a by (auto simp: send_once_def dest: fetch_sends [of _ _ _ _ ds]
      split: sum.splits option.splits prod.splits outcome.splits if_splits)
  ultimately show ?thesis using sends_trans [of 1 ds c c1 1 c'] by (simp add: numeral_2_eq_2)
qed

lemma send_sends: "send I snap ds c = (r, c') \<Longrightarrow> sends 4 ds c c'"
proof -
  assume *: "send I snap ds c = (r, c')"
  obtain a c1 where a: "send_once I snap ds True c = (a, c1)" by force
  obtain b c2 where b: "send_once I snap ds False c1 = (b, c2)" by force
  have s: "sends 2 ds c c1" "sends 2 ds c1 c2" using a b by (auto dest: send_once_sends)
  from * a b have "c' = c1 \<or> c' = c2"
    by (auto simp: send_def split: sum.splits option.splits)
  then show ?thesis using s sends_trans [of 2 ds c c1 2 c'] sends_trans [of 2 ds c c1 2 c1] by auto
qed

text \<open>A successful attempt sent its command.\<close>

lemma send_once_command:
  "send_once I snap ds retry c = (Inr r, c') \<Longrightarrow> \<exists>r \<in> set (drop (length (sent c)) (sent c')). command_devices r = ds"
proof -
  assume *: "send_once I snap ds retry c = (Inr r, c')"
  obtain a c1 where a: "accessToken c = (a, c1)" by force
  obtain rs where rs: "sent c1 = sent c @ rs" using accessToken_sends [OF a] by (auto simp: sends_def)
  obtain tok content where "sent c' = sent c1 @ [Command tok content ds]"
    using * a by (auto simp: send_once_def dest!: fetch_sent
      split: sum.splits option.splits prod.splits outcome.splits if_splits)
  with rs show ?thesis by simp
qed

lemma sent_grows: "sends k ds c c' \<Longrightarrow> \<exists>rs. sent c' = sent c @ rs"
  by (auto simp: sends_def)

lemma send_command:
  "send I snap ds c = (Inr rs, c') \<Longrightarrow> \<exists>r \<in> set (drop (length (sent c)) (sent c')). command_devices r = ds"
proof -
  assume *: "send I snap ds c = (Inr rs, c')"
  obtain a c1 where a: "send_once I snap ds True c = (a, c1)" by force
  obtain b c2 where b: "send_once I snap ds False c1 = (b, c2)" by force
  obtain r where r: "a = Inr r" using * a by (cases a) (auto simp: send_def)
  note first = send_once_command [OF a [unfolded r]]
  have "c' = c1 \<or> c' = c2" using * a b by (auto simp: send_def split: sum.splits option.splits)
  moreover obtain xs where "sent c1 = sent c @ xs" using sent_grows [OF send_once_sends [OF a]] by blast
  moreover obtain ys where "sent c2 = sent c1 @ ys" using sent_grows [OF send_once_sends [OF b]] by blast
  ultimately show ?thesis using first by auto
qed

lemma send_success:
  assumes "send I snap ds c = (Inr rs, c')"
  shows "\<exists>news. sent c' = sent c @ news \<and> length news \<le> 4
     \<and> list_all (\<lambda>r. r = TokenRequest \<or> command_devices r = ds) news \<and> (\<exists>r \<in> set news. command_devices r = ds)"
  using send_sends [OF assms] send_command [OF assms] by (auto simp: sends_def)

section \<open>Batches\<close>

lemma div_batches: "ds \<noteq> [] \<Longrightarrow> (length ds + 19) div 20 = Suc ((length (drop 20 ds) + 19) div 20)"
proof (cases "length ds \<le> 20")
  case True
  moreover assume "ds \<noteq> []"
  then have "0 < length ds" by simp
  ultimately have "(length ds + 19) div 20 = 1" by (intro div_nat_eqI) (simp_all add: Suc_le_eq)
  with True show ?thesis by simp
next
  case False
  then have "length ds + 19 = (length (drop 20 ds) + 19) + 20" by simp
  then show ?thesis by (simp only: div_add_self2)
qed

lemma push_batches_requests:
  "push_batches I snap ds a d c = (r, c') \<Longrightarrow>
   \<exists>news. sent c' = sent c @ news \<and> length news \<le> 4 * ((length ds + 19) div 20)
     \<and> list_all (\<lambda>q. length (command_devices q) \<le> 20 \<and> set (command_devices q) \<subseteq> set ds) news"
proof (induction I snap ds a d c arbitrary: r c' rule: push_batches.induct)
  case (1 I snap ds a d c)
  show ?case
  proof (cases "ds = []")
    case True
    with 1(2) show ?thesis by (simp add: push_batches.simps [of I snap "[]"])
  next
    case False
    obtain s c1 where s: "send I snap (take 20 ds) c = (s, c1)" by force
    obtain n1 where n1: "sent c1 = sent c @ n1" "length n1 \<le> 4"
      "list_all (\<lambda>r. r = TokenRequest \<or> command_devices r = take 20 ds) n1"
      using send_sends [OF s] by (auto simp: sends_def)
    then have b1: "list_all (\<lambda>q. length (command_devices q) \<le> 20 \<and> set (command_devices q) \<subseteq> set ds) n1"
      by (auto simp: list_all_iff dest!: bspec intro: in_set_takeD)
    have len: "4 \<le> 4 * ((length ds + 19) div 20)" using div_batches [OF False] by simp
    show ?thesis
    proof (cases "\<exists>rs n. s = Inr rs \<and> successes rs = Some n")
      case False
      with 1(2) s \<open>ds \<noteq> []\<close> have "c' = c1"
        by (auto simp: push_batches.simps [of I snap ds] split: sum.splits option.splits)
      with n1 b1 len show ?thesis by (intro exI [of _ n1]) simp
    next
      case True
      then obtain rs n where rs: "s = Inr rs" "successes rs = Some n" by blast
      with 1(2) s \<open>ds \<noteq> []\<close> have
        rest: "push_batches I snap (drop 20 ds) (a + length (take 20 ds)) (d + n) c1 = (r, c')"
        by (simp add: push_batches.simps [of I snap ds])
      from 1(1) [OF \<open>ds \<noteq> []\<close> s [symmetric] rs(1) rs(2) rest] obtain n2 where
        n2: "sent c' = sent c1 @ n2" "length n2 \<le> 4 * ((length (drop 20 ds) + 19) div 20)"
          "list_all (\<lambda>q. length (command_devices q) \<le> 20 \<and> set (command_devices q) \<subseteq> set (drop 20 ds)) n2"
        by blast
      have "length (n1 @ n2) \<le> 4 * ((length ds + 19) div 20)"
        using n1(2) n2(2) div_batches [OF \<open>ds \<noteq> []\<close>] by simp
      moreover have "list_all (\<lambda>q. length (command_devices q) \<le> 20 \<and> set (command_devices q) \<subseteq> set ds) n2"
        using n2(3) by (auto simp: list_all_iff dest: in_set_dropD)
      ultimately show ?thesis using n1(1) n2(1) b1 by (intro exI [of _ "n1 @ n2"]) simp
    qed
  qed
qed

lemma push_batches_success:
  "push_batches I snap ds a d c = (Inr (a', d'), c') \<Longrightarrow>
   a' = a + length ds \<and> (\<forall>x \<in> set ds. \<exists>q \<in> set (drop (length (sent c)) (sent c')). x \<in> set (command_devices q))"
proof (induction I snap ds a d c arbitrary: a' d' c' rule: push_batches.induct)
  case (1 I snap ds a d c)
  show ?case
  proof (cases "ds = []")
    case True
    with 1(2) show ?thesis by (simp add: push_batches.simps [of I snap "[]"])
  next
    case False
    obtain s c1 where s: "send I snap (take 20 ds) c = (s, c1)" by force
    obtain rs n where rs: "s = Inr rs" "successes rs = Some n"
      and rest: "push_batches I snap (drop 20 ds) (a + length (take 20 ds)) (d + n) c1 = (Inr (a', d'), c')"
      using 1(2) s False
      by (auto simp: push_batches.simps [of I snap ds] split: sum.splits option.splits)
    note IH = 1(1) [OF False s [symmetric] rs(1) rs(2) rest]
    obtain n1 where n1: "sent c1 = sent c @ n1" "\<exists>r \<in> set n1. command_devices r = take 20 ds"
      using send_success [OF s [unfolded rs(1)]] by blast
    obtain n2 where n2: "sent c' = sent c1 @ n2" using push_batches_requests [OF rest] by blast
    have sent: "drop (length (sent c)) (sent c') = n1 @ n2" "drop (length (sent c1)) (sent c') = n2"
      using n1 n2 by simp_all
    have "a' = a + length ds" using IH by simp
    moreover have "\<exists>q \<in> set (n1 @ n2). x \<in> set (command_devices q)" if "x \<in> set ds" for x
    proof (cases "x \<in> set (take 20 ds)")
      case True
      moreover obtain q where "q \<in> set n1" "command_devices q = take 20 ds" using n1(2) by blast
      ultimately show ?thesis by (intro bexI [of _ q]) simp_all
    next
      case False
      with that have "x \<in> set (drop 20 ds)" by (metis Un_iff append_take_drop_id set_append)
      then show ?thesis using IH unfolding sent by auto
    qed
    ultimately show ?thesis unfolding sent by blast
  qed
qed

section \<open>How long a token is kept\<close>

lemma token_lifetime: "jle (Fin 60000) (jmul (jmax (Fin 60) (jsub (Fin e) (Fin 60))) (Fin 1000))"
proof -
  have k: "fl 60000 = Fin 60000" by (rule fl_numeral) simp
  have m: "jle (Fin 60000) (fl (m * 1000))" if "60 \<le> m" for m
    using fl_mono [of 60000 "m * 1000"] k that by simp
  show ?thesis
  proof (cases "jsub (Fin e) (Fin 60)")
    case (Fin x)
    then show ?thesis using m [of "max 60 x"] by simp
  qed (use m [of 60] in \<open>simp_all add: jmax_def signed_inf_def jsub_def\<close>)
qed

lemma token_expiry_min:
  assumes "\<bar>t\<bar> \<le> 8640000000000000"
  shows "jle (num_of_int (t + 60000)) (token_expiry t (Fin e))"
proof -
  have t: "num_of_int t = Fin (of_int t)" using assms by (intro num_of_int_exact) (simp add: exact_int_def)
  have t': "num_of_int (t + 60000) = jadd (Fin (of_int t)) (Fin 60000)"
    by (simp add: num_of_int_def)
  have "jadd (Fin (of_int t)) m \<noteq> NaN" if "jle (Fin 60000) m" for m
    using that by (cases m) simp_all
  with token_lifetime [of e] show ?thesis
    unfolding token_expiry_def t t' by (intro jadd_mono) (simp_all add: jle_refl)
qed

lemma jlt_le_trans: "jlt x y \<Longrightarrow> jle y z \<Longrightarrow> jlt x z"
  unfolding jlt_def by (metis jle_trans)

lemma clock_jlt: "\<bar>s\<bar> \<le> 9007199254740992 \<Longrightarrow> \<bar>t\<bar> \<le> 9007199254740992 \<Longrightarrow> s < t \<Longrightarrow> jlt (num_of_int s) (num_of_int t)"
  by (simp add: num_of_int_def fl_int)

lemma request_token_expiry:
  assumes "request_token c = (Inr v, c')"
  shows "\<exists>e. token c' = Some (v, token_expiry (now_ms c') (Fin e))"
  using assms
  by (auto simp: request_token_def split: prod.splits outcome.splits if_splits option.splits jsval.splits jsnum.splits)

section \<open>Properties of the client\<close>

text \<open>A concrete configured client, formats and snapshot for the witnesses.\<close>

definition sample_intl :: intl where
  "sample_intl = \<lparr>whole_number = (\<lambda>_. js ''0''), two_decimals = (\<lambda>_. js ''1,50''), clock_text = (\<lambda>_ _. Some (js ''10:00''))\<rparr>"

definition sample_client :: "(int \<times> outcome) list \<Rightarrow> client" where
  "sample_client outs = \<lparr>clientId = js ''id'', clientSecret = js ''s'', timezone = js ''UTC'', token = None,
     now_ms = 0, script = outs, sent = []\<rparr>"

definition token_body :: jsval where
  "token_body = JObj [(js ''access_token'', JStr (js ''T'')), (js ''expires_in'', JNum (Fin 3600))]"

definition results_body :: jsval where
  "results_body = JObj [(js ''results'', JArr [JObj [(js ''type'', JStr (js ''SUCCESS''))]])]"

text \<open>
  A push is bounded and stays within its audience: whatever the network answers, a push to
  \<open>n\<close> devices makes at most four requests per batch of twenty, and every command goes to at most
  twenty devices, all of them given.
\<close>

lemma push_bounded:
  "\<exists>news. sent (snd (push I snap ds c)) = sent c @ news \<and> length news \<le> 4 * ((length ds + 19) div 20)
     \<and> list_all (\<lambda>q. length (command_devices q) \<le> 20 \<and> set (command_devices q) \<subseteq> set ds) news"
proof (cases "\<not> truthy snap \<or> ds = [] \<or> \<not> configured c")
  case True
  then show ?thesis by (intro exI [of _ "[]"]) (simp add: push_def)
next
  case False
  obtain r c' where "push_batches I snap ds 0 0 c = (r, c')" by force
  with False push_batches_requests [OF this] show ?thesis by (simp add: push_def)
qed

text \<open>
  C28. A push that reports attempts is complete: it reports every device as attempted, and every
  device is among those of a command that was sent.
\<close>

theorem push_complete:
  assumes "push I snap ds c = (Inr (a, d), c')" "a \<noteq> 0"
  shows "a = length ds \<and> (\<Union>q \<in> set (drop (length (sent c)) (sent c')). set (command_devices q)) = set ds"
proof -
  have go: "push_batches I snap ds 0 0 c = (Inr (a, d), c')"
    using assms by (simp add: push_def split: if_splits)
  obtain news where news: "sent c' = sent c @ news"
    "list_all (\<lambda>q. length (command_devices q) \<le> 20 \<and> set (command_devices q) \<subseteq> set ds) news"
    using push_batches_requests [OF go] by blast
  with push_batches_success [OF go] show ?thesis by (fastforce simp: list_all_iff)
qed

lemma push_complete_witness:
  "let out = push sample_intl (JObj []) [js ''A'']
        (sample_client [(5, Http 200 (Some token_body)), (9, Http 200 (Some results_body))]) in
   fst out = Inr (1, 1) \<and> (\<Union>q \<in> set (sent (snd out)). set (command_devices q)) = {js ''A''}"
proof -
  define out where "out = push sample_intl (JObj []) [js ''A'']
        (sample_client [(5, Http 200 (Some token_body)), (9, Http 200 (Some results_body))])"
  have f: "fst out = Inr (1, 1)"
    by (simp add: out_def push_def configured_def sample_client_def push_batches.simps send_def send_once_def
        accessToken_def request_token_def fetch_def ok_status_def token_body_def results_body_def nullish_def
        displaySnapshot_def sample_intl_def successes_def) (simp add: js_lit)
  then have "out = (Inr (1, 1), snd out)" by (metis prod.collapse)
  from push_complete [OF this [unfolded out_def], folded out_def] f show ?thesis
    unfolding out_def [symmetric] by (simp add: Let_def sample_client_def)
qed

text \<open>
  A token is reused: after a token request that succeeds at time \<open>t\<close>, any later call that finds
  this token before \<open>t\<close> plus one minute returns it without a request, whatever lifetime the server
  announced (a time is a \<open>Date\<close>'s, at most 8.64e15 milliseconds).
\<close>

lemma token_reused:
  assumes "request_token c = (Inr v, c1)" "token c2 = token c1"
    and "\<bar>now_ms c1\<bar> \<le> 8640000000000000" "\<bar>now_ms c2\<bar> \<le> 8640000000000000" "now_ms c2 < now_ms c1 + 60000"
  shows "accessToken c2 = (Inr v, c2)"
proof -
  obtain e where e: "token c1 = Some (v, token_expiry (now_ms c1) (Fin e))"
    using request_token_expiry [OF assms(1)] by blast
  have "jlt (num_of_int (now_ms c2)) (num_of_int (now_ms c1 + 60000))"
    using assms(3-5) by (intro clock_jlt) simp_all
  then have "jlt (num_of_int (now_ms c2)) (token_expiry (now_ms c1) (Fin e))"
    using token_expiry_min [OF assms(3)] by (rule jlt_le_trans)
  then show ?thesis by (simp add: accessToken_def assms(2) e)
qed

lemma token_reused_witness:
  "fst (accessToken (snd (request_token (sample_client [(5, Http 200 (Some token_body))])))) = Inr (js ''T'')"
proof -
  define c1 where "c1 = snd (request_token (sample_client [(5, Http 200 (Some token_body))]))"
  have "request_token (sample_client [(5, Http 200 (Some token_body))]) = (Inr (js ''T''), c1)"
    and n: "now_ms c1 = 5"
    by (simp_all add: c1_def request_token_def fetch_def sample_client_def ok_status_def token_body_def nullish_def)
      (simp_all add: js_lit)
  from token_reused [OF this(1), of c1] n show ?thesis by (simp add: c1_def)
qed

end
