(* ===== verification/RelaySkill.thy ===== *)
theory RelaySkill
  imports RelayIngest RelayScheduler RelayClient
begin

text \<open>
  The Alexa skill of the relay, the request handlers of \<open>integrations/alexa-relay/src/app.js\<close>, and
  the checks of \<open>integrations/alexa-relay/src/server.js\<close> at start.

  The Alexa SDK, third-party code, calls the first handler whose \<open>canHandle\<close> holds, and the error
  handler when there is none or the handler throws; that documented dispatch is \<open>dispatch\<close>. A
  request carries its type, its intent (of an \<open>IntentRequest\<close>) and the device identifier found at
  \<open>context.System.device.deviceId\<close> (\<open>JUndef\<close> where the path is missing).

  Parameters: \<open>num_text\<close> (\<open>String\<close> of a rounded number), \<open>local_text\<close> (\<open>toLocaleString\<close> with two
  decimals), \<open>to_num\<close> (the number a value converts to in arithmetic); for \<open>decodeSecret\<close>, the
  base64 decoder and encoder of \<open>Buffer\<close>.
\<close>

section \<open>Handlers\<close>

record skill_request =
  req_type :: jsstring
  intent_name :: jsstring
  device_value :: jsval

datatype handler =
    PackageInstalled | PackageRemoved | DataStoreEvent | LaunchSkill | HelpSkill | StopSkill | SessionEnded

definition handlers :: "handler list" where
  "handlers = [PackageInstalled, PackageRemoved, DataStoreEvent, LaunchSkill, HelpSkill, StopSkill, SessionEnded]"

fun canHandle :: "handler \<Rightarrow> skill_request \<Rightarrow> bool" where
  "canHandle PackageInstalled rq = (req_type rq = js ''Alexa.DataStore.PackageManager.UsagesInstalled'')"
| "canHandle PackageRemoved rq = (req_type rq = js ''Alexa.DataStore.PackageManager.UsagesRemoved'')"
| "canHandle DataStoreEvent rq = starts_with (js ''Alexa.DataStore.'') (req_type rq)"
| "canHandle LaunchSkill rq = (req_type rq = js ''LaunchRequest''
     \<or> req_type rq = js ''IntentRequest'' \<and> intent_name rq = js ''GetSolarIntent'')"
| "canHandle HelpSkill rq = (req_type rq = js ''IntentRequest''
     \<and> intent_name rq \<in> {js ''AMAZON.HelpIntent'', js ''AMAZON.FallbackIntent''})"
| "canHandle StopSkill rq = (req_type rq = js ''IntentRequest''
     \<and> intent_name rq \<in> {js ''AMAZON.CancelIntent'', js ''AMAZON.StopIntent''})"
| "canHandle SessionEnded rq = (req_type rq = js ''SessionEndedRequest'')"

text \<open>What is said and whether the session ends; errors the handlers throw.\<close>

datatype speech =
    Silent
  | NoData                  \<comment> \<open>\<open>Helio ainda nao recebeu dados\<close>, with its accents\<close>
  | StalePower jsstring     \<comment> \<open>\<open>Dados desatualizados. Ultima potencia registrada: ...\<close>\<close>
  | CurrentPower jsstring   \<comment> \<open>\<open>Geracao solar atual: ...\<close>\<close>
  | HelpText | Goodbye | Apology

record skill_response =
  said :: speech
  ends_session :: bool

datatype skill_error = NoDeviceId | StateError state_error | NoHandler

record skill_env =
  num_text :: "jsnum \<Rightarrow> jsstring"
  local_text :: "jsnum \<Rightarrow> jsstring"
  to_num :: "jsval \<Rightarrow> jsnum"
  write_error :: "jsstring option"   \<comment> \<open>outcome of the state's write, if there is one\<close>

definition deviceId :: "skill_request \<Rightarrow> skill_error + jsstring" where
  "deviceId rq = (case device_value rq of
      JStr s \<Rightarrow> if starts_with (js ''amzn1.ask.device.'') s then Inr s else Inl NoDeviceId
    | _ \<Rightarrow> Inl NoDeviceId)"

definition power_text :: "skill_env \<Rightarrow> jsval \<Rightarrow> jsstring" where
  "power_text E v =
     (if jlt (to_num E v) (Fin 1000) then num_text E (jround (to_num E v)) @ js '' watts''
      else local_text E (jdiv (to_num E v) (Fin 1000)) @ js '' quilowatts'')"

definition launch :: "skill_env \<Rightarrow> store_data \<Rightarrow> skill_response" where
  "launch E d =
     (let snap = get_snapshot d in
      if \<not> truthy snap then \<lparr>said = NoData, ends_session = True\<rparr>
      else let power = power_text E (get snap (js ''acPowerW'')) in
        \<lparr>said = (if truthy (get snap (js ''stale'')) then StalePower power else CurrentPower power),
         ends_session = True\<rparr>)"

text \<open>A handler's response, the data after it, and whether a push was scheduled.\<close>

type_synonym handled = "(skill_error + skill_response) \<times> store_data \<times> bool"

definition quiet :: skill_response where
  "quiet = \<lparr>said = Silent, ends_session = False\<rparr>"

definition handle_installed :: "skill_env \<Rightarrow> skill_request \<Rightarrow> store_data \<Rightarrow> handled" where
  "handle_installed E rq d = (case deviceId rq of
      Inl e \<Rightarrow> (Inl e, d, False)
    | Inr s \<Rightarrow> (case addDevice (JStr s) d of
          Inl e \<Rightarrow> (Inl (StateError e), d, False)
        | Inr None \<Rightarrow> (Inr quiet, d, True)
        | Inr (Some d') \<Rightarrow> (case write_error E of
              Some code \<Rightarrow> (Inl (StateError (FsError code)), d', False)
            | None \<Rightarrow> (Inr quiet, d', True))))"

definition handle_removed :: "skill_env \<Rightarrow> skill_request \<Rightarrow> store_data \<Rightarrow> handled" where
  "handle_removed E rq d = (case deviceId rq of
      Inl e \<Rightarrow> (Inl e, d, False)
    | Inr s \<Rightarrow> (case removeDevice s d of
          None \<Rightarrow> (Inr quiet, d, False)
        | Some d' \<Rightarrow> (case write_error E of
              Some code \<Rightarrow> (Inl (StateError (FsError code)), d', False)
            | None \<Rightarrow> (Inr quiet, d', False))))"

fun handle :: "skill_env \<Rightarrow> handler \<Rightarrow> skill_request \<Rightarrow> store_data \<Rightarrow> handled" where
  "handle E PackageInstalled rq d = handle_installed E rq d"
| "handle E PackageRemoved rq d = handle_removed E rq d"
| "handle E DataStoreEvent rq d = (Inr quiet, d, False)"
| "handle E LaunchSkill rq d = (Inr (launch E d), d, False)"
| "handle E HelpSkill rq d = (Inr \<lparr>said = HelpText, ends_session = False\<rparr>, d, False)"
| "handle E StopSkill rq d = (Inr \<lparr>said = Goodbye, ends_session = False\<rparr>, d, False)"
| "handle E SessionEnded rq d = (Inr quiet, d, False)"

definition errorHandler :: "skill_error \<Rightarrow> skill_response" where
  "errorHandler e = \<lparr>said = Apology, ends_session = True\<rparr>"

definition dispatch :: "skill_env \<Rightarrow> skill_request \<Rightarrow> store_data \<Rightarrow> handled" where
  "dispatch E rq d = (case find (\<lambda>h. canHandle h rq) handlers of
      None \<Rightarrow> (Inl NoHandler, d, False)
    | Some h \<Rightarrow> handle E h rq d)"

definition alexa :: "skill_env \<Rightarrow> skill_request \<Rightarrow> store_data \<Rightarrow> skill_response \<times> store_data \<times> bool" where
  "alexa E rq d = (case dispatch E rq d of
      (Inl e, d', sched) \<Rightarrow> (errorHandler e, d', sched)
    | (Inr r, d', sched) \<Rightarrow> (r, d', sched))"

section \<open>Start of the server\<close>

definition strip_padding :: "jsstring \<Rightarrow> jsstring" where
  "strip_padding s = rev (dropWhile (\<lambda>c. c = 61) (rev s))"

definition decodeSecret ::
    "(jsstring \<Rightarrow> byte list) \<Rightarrow> (byte list \<Rightarrow> jsstring) \<Rightarrow> jsstring \<Rightarrow> byte list option" where
  "decodeSecret from64 to64 value =
     (let decoded = from64 value in
      if length decoded < 32 \<or> strip_padding (to64 decoded) \<noteq> strip_padding value then None
      else Some decoded)"

text \<open>\<open>env\<close> is \<open>process.env\<close>; \<open>None\<close> stands for the error.\<close>

definition required :: "(jsstring \<Rightarrow> jsstring option) \<Rightarrow> jsstring \<Rightarrow> jsstring option" where
  "required env name = (case map_option trim (env name) of
      None \<Rightarrow> None
    | Some value \<Rightarrow> if value = [] then None else Some value)"

section \<open>Lemmas\<close>

lemma removed_type [simp]:
  "js ''Alexa.DataStore.PackageManager.UsagesRemoved'' \<noteq> js ''Alexa.DataStore.PackageManager.UsagesInstalled''"
  by (simp add: js_lit)

lemma dispatch_installed:
  "req_type rq = js ''Alexa.DataStore.PackageManager.UsagesInstalled'' \<Longrightarrow> dispatch E rq d = handle_installed E rq d"
  by (simp add: dispatch_def handlers_def)

lemma dispatch_removed:
  "req_type rq = js ''Alexa.DataStore.PackageManager.UsagesRemoved'' \<Longrightarrow> dispatch E rq d = handle_removed E rq d"
  by (simp add: dispatch_def handlers_def)

lemma handle_other:
  "h \<notin> {PackageInstalled, PackageRemoved} \<Longrightarrow> snd (handle E h rq d) = (d, False)"
  by (cases h) simp_all

lemma dispatch_other:
  assumes "req_type rq \<noteq> js ''Alexa.DataStore.PackageManager.UsagesInstalled''"
    "req_type rq \<noteq> js ''Alexa.DataStore.PackageManager.UsagesRemoved''"
  shows "snd (dispatch E rq d) = (d, False)"
proof (cases "find (\<lambda>h. canHandle h rq) handlers")
  case (Some h)
  then have "canHandle h rq" by (auto simp: find_Some_iff)
  with assms have "h \<notin> {PackageInstalled, PackageRemoved}" by auto
  with Some show ?thesis by (simp add: dispatch_def handle_other)
qed (simp add: dispatch_def)

lemma alexa_snd: "snd (alexa E rq d) = snd (dispatch E rq d)"
  by (simp add: alexa_def split: prod.splits sum.splits)

lemma installed_data:
  "handle_installed E rq d = (r, d', sched) \<Longrightarrow>
   snapshot d' = snapshot d \<and> (devices d' = devices d \<or>
     (\<exists>s. device_value rq = JStr s \<and> validDeviceId (JStr s) \<and> s \<notin> set (devices d) \<and> devices d' = devices d @ [s]))"
  by (auto simp: handle_installed_def deviceId_def addDevice_def
      split: jsval.splits if_splits option.splits)

lemma removed_data:
  "handle_removed E rq d = (r, d', sched) \<Longrightarrow>
   snapshot d' = snapshot d \<and> (d' = d \<or> (\<exists>s. device_value rq = JStr s \<and> set (devices d') = set (devices d) - {s}))"
  by (auto simp: handle_removed_def deviceId_def removeDevice_def Let_def
      split: jsval.splits if_splits option.splits)

lemma dropWhile_twice [simp]: "dropWhile P (dropWhile P xs) = dropWhile P xs"
  by (induction xs) simp_all

lemma strip_padding_idem [simp]: "strip_padding (strip_padding s) = strip_padding s"
  by (simp add: strip_padding_def)

section \<open>Properties\<close>

text \<open>Concrete requests for the witnesses.\<close>

definition sample_env :: skill_env where
  "sample_env = \<lparr>num_text = (\<lambda>_. js ''0''), local_text = (\<lambda>_. js ''1,5''), to_num = (\<lambda>_. Fin 0), write_error = None\<rparr>"

definition sample_skill :: "jsstring \<Rightarrow> skill_request" where
  "sample_skill ty = \<lparr>req_type = ty, intent_name = [], device_value = sample_device\<rparr>"

text \<open>
  An install registers the device: for a valid identifier that fits the list and a write that
  succeeds, the answer is silent, the device is in the list afterwards, and a push is scheduled.
\<close>

lemma install_registers:
  assumes "req_type rq = js ''Alexa.DataStore.PackageManager.UsagesInstalled''"
    and "device_value rq = JStr s" "validDeviceId (JStr s)" "write_error E = None"
    and "s \<in> set (devices d) \<or> length (devices d) < 20"
  shows "\<exists>d'. alexa E rq d = (quiet, d', True) \<and> set (devices d') = insert s (set (devices d))
    \<and> snapshot d' = snapshot d"
proof -
  have "starts_with (js ''amzn1.ask.device.'') s" using assms(3) by (simp add: validDeviceId_def)
  then have id: "deviceId rq = Inr s" using assms(2) by (simp add: deviceId_def)
  show ?thesis
    using assms(3-5) unfolding alexa_def dispatch_installed [OF assms(1)] handle_installed_def id
    by (auto simp: addDevice_def)
qed

text \<open>
  A removal unregisters the device: the identifier is gone afterwards, the others stay, and
  with the write successful the answer is silent.
\<close>

lemma remove_unregisters:
  assumes "req_type rq = js ''Alexa.DataStore.PackageManager.UsagesRemoved''"
    and "device_value rq = JStr s" "starts_with (js ''amzn1.ask.device.'') s" "write_error E = None"
  shows "\<exists>d'. alexa E rq d = (quiet, d', False) \<and> set (devices d') = set (devices d) - {s}
    \<and> snapshot d' = snapshot d"
proof -
  have id: "deviceId rq = Inr s" using assms(2,3) by (simp add: deviceId_def)
  show ?thesis
    using removeDevice_result [of s d "removeDevice s d"] assms(4)
    unfolding alexa_def dispatch_removed [OF assms(1)] handle_removed_def id
    by (auto simp: removeDevice_def Let_def split: option.splits if_splits)
qed

text \<open>
  Installing and removing a device: for a valid identifier that fits the list and writes that
  succeed, an install request is answered silently, adds exactly the device and schedules a push; a
  removal request after it is answered silently and takes exactly the device away; neither touches
  the reading.
\<close>

lemma install_then_remove:
  assumes "req_type rq = js ''Alexa.DataStore.PackageManager.UsagesInstalled''"
    and "device_value rq = JStr s" "validDeviceId (JStr s)" "write_error E = None"
    and "s \<in> set (devices d) \<or> length (devices d) < 20"
  shows "\<exists>d1 d2. alexa E rq d = (quiet, d1, True) \<and> set (devices d1) = insert s (set (devices d)) \<and> snapshot d1 = snapshot d
    \<and> alexa E (rq\<lparr>req_type := js ''Alexa.DataStore.PackageManager.UsagesRemoved''\<rparr>) d1 = (quiet, d2, False)
    \<and> set (devices d2) = set (devices d) - {s} \<and> snapshot d2 = snapshot d"
proof -
  have "starts_with (js ''amzn1.ask.device.'') s" using assms(3) by (simp add: validDeviceId_def)
  moreover obtain d1 where "alexa E rq d = (quiet, d1, True)" "set (devices d1) = insert s (set (devices d))"
    "snapshot d1 = snapshot d"
    using install_registers [OF assms] by blast
  ultimately show ?thesis
    using remove_unregisters [of "rq\<lparr>req_type := js ''Alexa.DataStore.PackageManager.UsagesRemoved''\<rparr>" s E d1] assms(2,4)
    by auto
qed

lemma install_then_remove_witness:
  "\<exists>d1 d2. alexa sample_env (sample_skill (js ''Alexa.DataStore.PackageManager.UsagesInstalled'')) emptyState = (quiet, d1, True)
     \<and> set (devices d1) = {js ''amzn1.ask.device.A1''}
     \<and> alexa sample_env (sample_skill (js ''Alexa.DataStore.PackageManager.UsagesRemoved'')) d1 = (quiet, d2, False)
     \<and> devices d2 = []"
proof -
  have "validDeviceId (JStr (js ''amzn1.ask.device.A1''))" by (simp add: validDeviceId_def js_lit)
  from install_then_remove [OF _ _ this, of "sample_skill (js ''Alexa.DataStore.PackageManager.UsagesInstalled'')"
      sample_env emptyState]
  show ?thesis by (auto simp: sample_skill_def sample_env_def sample_device_def emptyState_def)
qed

text \<open>
  The skill always answers and is otherwise read-only: every request of another type leaves the
  data as it was and schedules nothing, and a request no handler takes gets the apology.
\<close>

lemma skill_read_only:
  assumes "req_type rq \<noteq> js ''Alexa.DataStore.PackageManager.UsagesInstalled''"
    and "req_type rq \<noteq> js ''Alexa.DataStore.PackageManager.UsagesRemoved''"
  shows "\<exists>r. alexa E rq d = (r, d, False) \<and>
    (list_all (\<lambda>h. \<not> canHandle h rq) handlers \<longrightarrow> r = \<lparr>said = Apology, ends_session = True\<rparr>)"
proof -
  have "snd (alexa E rq d) = (d, False)" using dispatch_other [OF assms] by (simp add: alexa_snd)
  then obtain r where r: "alexa E rq d = (r, d, False)" by (metis prod.collapse)
  moreover have "r = \<lparr>said = Apology, ends_session = True\<rparr>" if "list_all (\<lambda>h. \<not> canHandle h rq) handlers"
  proof -
    have "find (\<lambda>h. canHandle h rq) handlers = None"
      using that by (auto simp: find_None_iff list_all_iff)
    with r show ?thesis by (simp add: alexa_def dispatch_def errorHandler_def)
  qed
  ultimately show ?thesis by blast
qed

lemma skill_read_only_witness:
  "alexa sample_env (sample_skill (js ''Other'')) emptyState = (\<lparr>said = Apology, ends_session = True\<rparr>, emptyState, False)"
proof -
  have "req_type (sample_skill (js ''Other'')) \<noteq> js ''Alexa.DataStore.PackageManager.UsagesInstalled''"
    "req_type (sample_skill (js ''Other'')) \<noteq> js ''Alexa.DataStore.PackageManager.UsagesRemoved''"
    and none: "list_all (\<lambda>h. \<not> canHandle h (sample_skill (js ''Other''))) handlers"
    by (simp_all add: sample_skill_def handlers_def) (simp_all add: js_lit)
  from skill_read_only [OF this(1,2), of sample_env emptyState] none show ?thesis by blast
qed

text \<open>
  The start accepts exactly usable secrets: a decoded secret satisfies what \<open>createApp\<close>
  demands, and every secret of at least 32 bytes is accepted from its base64 text, with its padding
  or without (\<open>from64\<close> reads what \<open>to64\<close> wrote, padded or not).
\<close>

lemma decodeSecret_accepts:
  assumes "\<And>b. from64 (to64 b) = b" "\<And>b. from64 (strip_padding (to64 b)) = b"
  shows "(case decodeSecret from64 to64 value of
      Some b \<Rightarrow> createApp_ok b (JStr (js ''amzn1.ask.skill.'' @ skill))
    | None \<Rightarrow> value \<notin> to64 ` {b. 32 \<le> length b} \<union> (strip_padding \<circ> to64) ` {b. 32 \<le> length b})"
proof (cases "decodeSecret from64 to64 value")
  case None
  have "value \<noteq> to64 b" "value \<noteq> strip_padding (to64 b)" if "32 \<le> length b" for b
    using None that assms by (auto simp: decodeSecret_def Let_def split: if_splits)
  with None show ?thesis by auto
next
  case (Some b)
  then show ?thesis by (auto simp: decodeSecret_def createApp_ok_def Let_def split: if_splits)
qed

text \<open>An encoder for the witness that writes no \<open>=\<close>: each byte as the character 100 places on.\<close>

definition shift_encode :: "byte list \<Rightarrow> jsstring" where
  "shift_encode b = map (\<lambda>x. ucast x + 100) b"

definition shift_decode :: "jsstring \<Rightarrow> byte list" where
  "shift_decode s = map (\<lambda>c. ucast (c - 100)) s"

lemma unat_ucast_up: "unat (ucast (x :: byte) :: jschar) = unat x"
  using unsigned_less [of x, where ?'a = nat] by (simp add: unsigned_ucast_eq take_bit_nat_eq_self)

lemma ucast_up_down: "ucast (ucast (x :: byte) :: jschar) = x"
  using unsigned_less [of x, where ?'a = nat]
  by (simp add: word_unat_eq_iff unsigned_ucast_eq [where ?'a = nat] unat_ucast_up take_bit_nat_eq_self)

lemma shift_decode_encode: "shift_decode (shift_encode b) = b"
  by (simp add: shift_decode_def shift_encode_def comp_def ucast_up_down)

lemma shift_no_padding: "(ucast (x :: byte) + 100 :: jschar) \<noteq> 61"
proof
  assume "(ucast x + 100 :: jschar) = 61"
  then have "(ucast x :: jschar) = 61 - 100" by (metis add_diff_cancel)
  then have "unat (ucast x :: jschar) = 65497" by simp
  then show False using unsigned_less [of x, where ?'a = nat] by (simp add: unat_ucast_up)
qed

lemma shift_strip: "strip_padding (shift_encode b) = shift_encode b"
proof -
  have "dropWhile (\<lambda>c. c = 61) (rev (shift_encode b)) = rev (shift_encode b)"
    by (cases b rule: rev_cases) (simp_all add: shift_encode_def shift_no_padding)
  then show ?thesis by (simp add: strip_padding_def)
qed

lemma decodeSecret_accepts_witness:
  "decodeSecret shift_decode shift_encode (shift_encode (replicate 32 1)) \<noteq> None"
  using decodeSecret_accepts [of shift_decode shift_encode "shift_encode (replicate 32 1)" "[]"]
  by (auto simp: shift_decode_encode shift_strip split: option.splits)

end
