(* ===== verification/Markup.thy ===== *)
theory Markup
  imports JsText
begin

text \<open>
  The pages as React renders them: an element with its attributes, its event handlers and its
  children, or a text. A handler turns the value of the event (\<open>event.target.value\<close>, or nothing of
  interest for a click) into an event \<open>'e\<close> of the component's machine, so that a page and its
  machine form a loop. Attributes are those the browser and assistive technology read; class names
  are kept only where they depend on the state, and hints to the keyboard are left out.

  The queries of the document the source uses or relies on: \<open>getElementById\<close>, \<open>[name="..."]\<close>, the
  references between elements (\<open>for\<close>, \<open>aria-describedby\<close>, \<open>aria-labelledby\<close>), the accessible name
  of an input and the text of an element. \<open>page_ok\<close> says that a page refers only to elements it has,
  once each, and that its inputs have names.
\<close>

section \<open>Texts\<close>

text \<open>Letters and signs outside ASCII are written as their HTML names.\<close>

definition entities :: "(string \<times> jschar) list" where
  "entities = [(''aacute'', 0xE1), (''acirc'', 0xE2), (''atilde'', 0xE3), (''agrave'', 0xE0), (''ccedil'', 0xE7),
     (''eacute'', 0xE9), (''ecirc'', 0xEA), (''iacute'', 0xED), (''oacute'', 0xF3), (''ocirc'', 0xF4), (''otilde'', 0xF5),
     (''uacute'', 0xFA), (''Uacute'', 0xDA), (''middot'', 0xB7), (''times'', 0xD7), (''bull'', 0x2022), (''mdash'', 0x2014),
     (''hellip'', 0x2026)]"

function jsx :: "string \<Rightarrow> jsstring" where
  "jsx [] = []"
| "jsx (c # s) = (if c \<noteq> CHR ''&'' then of_char c # jsx s
     else (case map_of entities (takeWhile (\<lambda>x. x \<noteq> CHR '';'') s) of
         Some u \<Rightarrow> u # jsx (tl (dropWhile (\<lambda>x. x \<noteq> CHR '';'') s))
       | None \<Rightarrow> of_char c # jsx s))"
  by pat_completeness auto
termination
  by (relation "measure length") (auto simp: less_Suc_eq_le intro: le_trans [OF diff_le_self length_dropWhile_le])

declare jsx.simps(2) [simp del]

section \<open>Elements\<close>

datatype tag = Div | Form | Fieldset | Legend | Label | Input | Output | Button | Paragraph | Heading | Strong | Small
  | Nav | OrderedList | UnorderedList | Item | Time | Details | Summary | Select | Choice | Table | TableHead | TableBody | Row | HeadCell | Cell | Span | Section | Article | Header | MainPart | Aside | Link | DescriptionList | Term | Description | Icon

datatype attr = Id | Name | For | Type | Value | Min | Max | Step | MaxLength | Placeholder | Checked | Disabled | Required
  | DescribedBy | LabelledBy | AriaLabel | Invalid | Hidden | LiveRegion | Atomic | Busy | Current | Expanded | HasPopup | AriaChecked
  | Role | TabIndex | Href | ClassName | Pressed | DateTime | Scope | Download

datatype hook = OnChange | OnClick | OnSubmit | OnKeyDown | OnFocus | OnBlur | OnMouseEnter | OnMouseLeave | OnToggle

datatype 'e node = Txt jsstring
  | El tag "(attr \<times> jsstring) list" "(hook \<times> (jsstring \<Rightarrow> 'e)) list" "'e node list"

fun attr_of :: "attr \<Rightarrow> 'e node \<Rightarrow> jsstring option" where
  "attr_of a (Txt s) = None"
| "attr_of a (El t as hs ns) = map_of as a"

fun hook_of :: "hook \<Rightarrow> 'e node \<Rightarrow> (jsstring \<Rightarrow> 'e) option" where
  "hook_of h (Txt s) = None"
| "hook_of h (El t as hs ns) = map_of hs h"

fun tag_of :: "'e node \<Rightarrow> tag option" where
  "tag_of (Txt s) = None"
| "tag_of (El t as hs ns) = Some t"

text \<open>\<open>{ ...props, a: v }\<close>, where \<open>undefined\<close> leaves the attribute out.\<close>

definition set_attr :: "attr \<Rightarrow> jsstring option \<Rightarrow> (attr \<times> jsstring) list \<Rightarrow> (attr \<times> jsstring) list" where
  "set_attr a v as = (case v of None \<Rightarrow> filter (\<lambda>(b, x). b \<noteq> a) as | Some x \<Rightarrow> put a x as)"

text \<open>Conditional children and attributes: \<open>{c && ...}\<close>, \<open>a={c ? v : undefined}\<close>, \<open>a={c}\<close> of a switch.\<close>

definition only_if :: "bool \<Rightarrow> 'a list \<Rightarrow> 'a list" where
  "only_if c xs = (if c then xs else [])"

definition bool_text :: "bool \<Rightarrow> jsstring" where
  "bool_text b = (if b then js ''true'' else js ''false'')"

section \<open>The document\<close>

text \<open>The elements of a tree in document order.\<close>

fun elements :: "'e node \<Rightarrow> 'e node list" where
  "elements (Txt s) = []"
| "elements (El t as hs ns) = El t as hs ns # concat (map elements ns)"

fun text_content :: "'e node \<Rightarrow> jsstring" where
  "text_content (Txt s) = s"
| "text_content (El t as hs ns) = concat (map text_content ns)"

text \<open>What \<open>querySelectorAll\<close> finds, read off each element by \<open>f\<close>.\<close>

definition collect :: "('e node \<Rightarrow> 'b list) \<Rightarrow> 'e node \<Rightarrow> 'b list" where
  "collect f n = concat (map f (elements n))"

definition get_by_id :: "jsstring \<Rightarrow> 'e node \<Rightarrow> 'e node option" where
  "get_by_id i n = find (\<lambda>e. attr_of Id e = Some i) (elements n)"

definition get_by_name :: "jsstring \<Rightarrow> 'e node \<Rightarrow> 'e node option" where
  "get_by_name s n = find (\<lambda>e. attr_of Name e = Some s) (elements n)"

text \<open>The values of an attribute that lists identifiers.\<close>

definition tokens :: "jsstring \<Rightarrow> jsstring list" where
  "tokens s = filter (\<lambda>t. t \<noteq> []) (split_on 32 s)"

definition listed :: "attr \<Rightarrow> 'e node \<Rightarrow> jsstring list" where
  "listed a e = (case attr_of a e of None \<Rightarrow> [] | Some s \<Rightarrow> tokens s)"

definition ids :: "'e node \<Rightarrow> jsstring list" where
  "ids n = concat (map (\<lambda>e. case attr_of Id e of None \<Rightarrow> [] | Some i \<Rightarrow> [i]) (elements n))"

definition references :: "'e node \<Rightarrow> jsstring list" where
  "references n = concat (map (\<lambda>e. listed For e @ listed DescribedBy e @ listed LabelledBy e) (elements n))"

definition labels_for :: "'e node \<Rightarrow> jsstring list" where
  "labels_for n = concat (map (\<lambda>e. if tag_of e = Some Label then listed For e else []) (elements n))"

text \<open>Inputs have a name of their own, a label that refers to them, or a label around them.\<close>

fun inputs_named :: "jsstring list \<Rightarrow> bool \<Rightarrow> 'e node \<Rightarrow> bool" where
  "inputs_named ls inside (Txt s) = True"
| "inputs_named ls inside (El t as hs ns) =
     ((t = Input \<longrightarrow> inside \<or> map_of as AriaLabel \<noteq> None \<or> (case map_of as Id of None \<Rightarrow> False | Some i \<Rightarrow> i \<in> set ls))
      \<and> list_all (inputs_named ls (inside \<or> t = Label)) ns)"

definition page_ok :: "'e node \<Rightarrow> bool" where
  "page_ok n \<longleftrightarrow> distinct (ids n) \<and> set (references n) \<subseteq> set (ids n) \<and> inputs_named (labels_for n) False n"

section \<open>What the user can do\<close>

text \<open>A form can be submitted while a button of it that submits is enabled.\<close>

fun can_submit :: "'e node \<Rightarrow> bool" where
  "can_submit (Txt s) = False"
| "can_submit (El t as hs ns) = (t = Button \<and> map_of as Type = Some (js ''submit'') \<and> map_of as Disabled = None \<or> list_ex can_submit ns)"

text \<open>The handlers of clicks, changes and submissions that the browser may call.\<close>

fun event_handlers :: "'e node \<Rightarrow> (jsstring \<Rightarrow> 'e) list" where
  "event_handlers (Txt s) = []"
| "event_handlers (El t as hs ns) =
     (if map_of as Disabled \<noteq> None then [] else map snd (filter (\<lambda>(k, h). k = OnClick \<or> k = OnChange) hs))
     @ (if t = Form \<and> list_ex can_submit ns then map snd (filter (\<lambda>(k, h). k = OnSubmit) hs) else [])
     @ concat (map event_handlers ns)"

definition offers :: "'e node \<Rightarrow> 'e \<Rightarrow> bool" where
  "offers n e \<longleftrightarrow> (\<exists>h \<in> set (event_handlers n). \<exists>s. h s = e)"

definition with_role :: "string \<Rightarrow> 'e node \<Rightarrow> jsstring list" where
  "with_role k = collect (\<lambda>e. if attr_of Role e = Some (js k) then [text_content e] else [])"

section \<open>Numbers in a number field\<close>

text \<open>
  \<open>type="number"\<close>: the browser replaces a value that is not a valid floating-point number of HTML by
  the empty string: an optional minus, digits or digits after a point or both, an optional
  exponent.
\<close>

definition html_exponent :: "jsstring \<Rightarrow> bool" where
  "html_exponent s \<longleftrightarrow> s = [] \<or> (hd s = 101 \<or> hd s = 69)
     \<and> all_digits (if tl s \<noteq> [] \<and> (hd (tl s) = 43 \<or> hd (tl s) = 45) then tl (tl s) else tl s)"

definition html_number :: "jsstring \<Rightarrow> bool" where
  "html_number s \<longleftrightarrow> (let u = (if s \<noteq> [] \<and> hd s = 45 then tl s else s); w = takeWhile is_digit u; r = dropWhile is_digit u in
     if r \<noteq> [] \<and> hd r = 46
     then takeWhile is_digit (tl r) \<noteq> [] \<and> html_exponent (dropWhile is_digit (tl r))
     else w \<noteq> [] \<and> html_exponent r)"

text \<open>What an input shows for its \<open>value\<close>.\<close>

definition shown_value :: "'e node \<Rightarrow> jsstring" where
  "shown_value e = (let v = or_else (attr_of Value e) [] in
     if attr_of Type e = Some (js ''number'') \<and> \<not> html_number v then [] else v)"

section \<open>Facts\<close>

lemma set_attr_simps:
  "map_of (set_attr a v as) b = (if b = a then v else map_of as b)"
proof (cases v)
  case None
  have "map_of (filter (\<lambda>(b, x). b \<noteq> a) as) b = (if b = a then None else map_of as b)" by (induction as) auto
  with None show ?thesis by (simp add: set_attr_def)
next
  case (Some x)
  then show ?thesis by (simp add: set_attr_def map_of_put)
qed

text \<open>The queries of a tree from those of its children.\<close>

lemma concat_elements: "concat (map f (concat (map elements ns))) = concat (map (\<lambda>n. concat (map f (elements n))) ns)"
  by (induction ns) simp_all

lemma ids_simps [simp]:
  "ids (Txt s) = []"
  "ids (El t as hs ns) = (case map_of as Id of None \<Rightarrow> [] | Some i \<Rightarrow> [i]) @ concat (map ids ns)"
  by (simp_all add: ids_def [abs_def] concat_elements)

lemma references_simps [simp]:
  "references (Txt s) = []"
  "references (El t as hs ns) = listed For (El t as hs ns) @ listed DescribedBy (El t as hs ns) @ listed LabelledBy (El t as hs ns)
     @ concat (map references ns)"
  by (simp_all add: references_def [abs_def] concat_elements)

lemma labels_for_simps [simp]:
  "labels_for (Txt s) = []"
  "labels_for (El t as hs ns) = (if t = Label then listed For (El t as hs ns) else []) @ concat (map labels_for ns)"
  by (simp_all add: labels_for_def [abs_def] concat_elements)

lemma collect_simps [simp]:
  "collect f (Txt s) = []"
  "collect f (El t as hs ns) = f (El t as hs ns) @ concat (map (collect f) ns)"
  by (simp_all add: collect_def [abs_def] concat_elements)

lemma bex_handlers:
  "(\<exists>h \<in> set (if c then map snd (filter P hs) else []). Q h) \<longleftrightarrow> c \<and> list_ex (\<lambda>x. P x \<and> Q (snd x)) hs"
  "(\<exists>h \<in> set (if c then [] else map snd (filter P hs)). Q h) \<longleftrightarrow> \<not> c \<and> list_ex (\<lambda>x. P x \<and> Q (snd x)) hs"
  "(\<exists>h \<in> set (concat (map event_handlers ns)). Q h) \<longleftrightarrow> list_ex (\<lambda>n. \<exists>h \<in> set (event_handlers n). Q h) ns"
proof -
  have "(\<exists>h \<in> set (map snd (filter P hs)). Q h) \<longleftrightarrow> list_ex (\<lambda>x. P x \<and> Q (snd x)) hs" by (induction hs) auto
  then show "(\<exists>h \<in> set (if c then map snd (filter P hs) else []). Q h) \<longleftrightarrow> c \<and> list_ex (\<lambda>x. P x \<and> Q (snd x)) hs"
    "(\<exists>h \<in> set (if c then [] else map snd (filter P hs)). Q h) \<longleftrightarrow> \<not> c \<and> list_ex (\<lambda>x. P x \<and> Q (snd x)) hs"
    by (cases c; simp only: if_True if_False list.set bex_empty simp_thms)+
qed (simp add: list_ex_iff)

lemma offers_simps:
  "offers (Txt s) e = False"
  "offers (El t as hs ns) e \<longleftrightarrow>
     \<not> map_of as Disabled \<noteq> None \<and> list_ex (\<lambda>x. (case x of (k, h) \<Rightarrow> k = OnClick \<or> k = OnChange) \<and> (\<exists>s. snd x s = e)) hs
     \<or> (t = Form \<and> list_ex can_submit ns) \<and> list_ex (\<lambda>x. (case x of (k, h) \<Rightarrow> k = OnSubmit) \<and> (\<exists>s. snd x s = e)) hs
     \<or> list_ex (\<lambda>n. offers n e) ns"
  by (simp add: offers_def) (simp only: offers_def event_handlers.simps set_append bex_Un bex_handlers)

lemma listed_simps: "listed a (El t as hs ns) = (case map_of as a of None \<Rightarrow> [] | Some s \<Rightarrow> tokens s)"
  by (simp add: listed_def)

text \<open>More labels, and more of the tree around an input, only add names.\<close>

lemma inputs_named_mono: "inputs_named ls inside n \<Longrightarrow> set ls \<subseteq> set ls' \<Longrightarrow> (inside \<Longrightarrow> inside') \<Longrightarrow> inputs_named ls' inside' n"
proof (induction n arbitrary: inside inside')
  case (El t as hs ns)
  have "list_all (inputs_named ls' (inside' \<or> t = Label)) ns"
    using El.prems El.IH [of _ "inside \<or> t = Label" "inside' \<or> t = Label"] by (auto simp: list_all_iff)
  with El.prems show ?case by (auto split: option.splits)
qed simp

text \<open>Looking for an element from the root down.\<close>

lemma bex_elements:
  "(\<exists>e \<in> set (elements (El t as hs ns)). P e) \<longleftrightarrow> P (El t as hs ns) \<or> list_ex (\<lambda>n. \<exists>e \<in> set (elements n). P e) ns"
  by (auto simp: list_ex_iff)

text \<open>An element of the page is found by its identifier, which no other has.\<close>

lemma find_in: "x \<in> set xs \<Longrightarrow> P x \<Longrightarrow> \<exists>y \<in> set xs. P y \<and> find P xs = Some y"
  by (induction xs) auto

lemma find_unique:
  assumes "x \<in> set xs" "P x" "\<And>y. y \<in> set xs \<Longrightarrow> P y \<Longrightarrow> y = x"
  shows "find P xs = Some x"
proof -
  obtain y where y: "y \<in> set xs" "P y" "find P xs = Some y" using find_in [of x xs P] assms(1,2) by blast
  from assms(3) [OF y(1,2)] y(3) show ?thesis by simp
qed

lemma key_listed: "z \<in> set es \<Longrightarrow> f z = Some i \<Longrightarrow> i \<in> set (concat (map (\<lambda>e. case f e of None \<Rightarrow> [] | Some i \<Rightarrow> [i]) es))"
  by (induction es) auto

lemma distinct_keys:
  assumes "distinct (concat (map (\<lambda>e. case f e of None \<Rightarrow> [] | Some i \<Rightarrow> [i]) es))" "x \<in> set es" "y \<in> set es"
    "f x = Some i" "f y = Some i"
  shows "x = y"
  using assms(1-3)
proof (induction es)
  case (Cons e es)
  let ?keys = "concat (map (\<lambda>e. case f e of None \<Rightarrow> [] | Some i \<Rightarrow> [i]) es)"
  have rest: "distinct ?keys" and new: "f e = Some i \<Longrightarrow> i \<notin> set ?keys" using Cons.prems(1) by simp_all
  have out: "f e = Some i \<Longrightarrow> z \<in> set es \<Longrightarrow> f z \<noteq> Some i" for z using new key_listed [of z es f i] by blast
  have "x \<in> set es \<Longrightarrow> y \<in> set es \<Longrightarrow> x = y" by (rule Cons.IH [OF rest])
  then show ?case using Cons.prems(2,3) out assms(4,5) by (cases "x = e"; cases "y = e") auto
qed simp

lemma get_by_id_found: "distinct (ids n) \<Longrightarrow> e \<in> set (elements n) \<Longrightarrow> attr_of Id e = Some i \<Longrightarrow> get_by_id i n = Some e"
  unfolding get_by_id_def ids_def by (rule find_unique) (auto dest: distinct_keys)

lemma id_present: "get_by_id i n \<noteq> None \<longleftrightarrow> i \<in> set (ids n)"
  by (auto simp: get_by_id_def find_None_iff ids_def split: option.splits) (metis option.exhaust)

lemma id_absent: "get_by_id i n = None \<longleftrightarrow> i \<notin> set (ids n)"
  using id_present by blast

lemma only_if_simps [simp]: "only_if True xs = xs" "only_if False xs = []"
  by (simp_all add: only_if_def)

lemma tokens_word: "32 \<notin> set s \<Longrightarrow> s \<noteq> [] \<Longrightarrow> tokens s = [s]"
  by (simp add: tokens_def split_on_free)

lemma tokens_words: "32 \<notin> set s \<Longrightarrow> s \<noteq> [] \<Longrightarrow> tokens (s @ 32 # t) = s # tokens t"
  by (simp add: tokens_def split_on_append)

lemma tokens_join: "(\<And>w. w \<in> set ws \<Longrightarrow> 32 \<notin> set w \<and> w \<noteq> []) \<Longrightarrow> ws \<noteq> [] \<Longrightarrow> tokens (join [32] ws) = ws"
  by (induction "[32 :: jschar]" ws rule: join.induct) (simp_all add: tokens_word tokens_words)

lemma js_tokens: "CHR '' '' \<notin> set k \<Longrightarrow> k \<noteq> [] \<Longrightarrow> tokens (js k) = [js k]"
  by (rule tokens_word) (auto simp: js_def of_char_blank)

end
