(* ===== verification/RelayApp.thy ===== *)
theory RelayApp
  imports RelaySkill Markup
begin

text \<open>
  The relay as a whole, \<open>createApp\<close> of \<open>integrations/alexa-relay/src/app.js\<close>: the routes in their
  order with the headers every answer carries, and the machine that composes the store
  (\<open>RelayState\<close>), the route \<open>/ingest\<close> (\<open>RelayIngest\<close>), the skill (\<open>RelaySkill\<close>) and the scheduler
  of pushes (\<open>RelayScheduler\<close>).

  A request that changes the data waits for its write, and schedules the push after it; other
  requests and callbacks run in between. So a request is two events here: its arrival, with the change
  of the data, and the end of its write. Writes end in the order they were queued (\<open>#writeQueue\<close>).

  The main result, \<open>relay_delivers\<close>: from an accepted reading on, if the writes succeed, the relay can
  only come to rest after a push of the newest reading to every registered device, and it does come
  to rest.

  Parameters: \<open>matches\<close> is Express's matching of a route's path, exact or as a prefix; \<open>asset\<close> is the
  static file middleware (its status and file, \<open>None\<close> when it passes an error on); the verdicts of the rate limits and
  the body parser are part of a request.
\<close>

section \<open>Routes\<close>

datatype app_body = StatusOk | PrivacyPage jsstring | AssetFile jsstring | IngestBody reply | SkillBody skill_response
  | ErrorBody jsstring

record app_response =
  p_status :: int
  p_headers :: "(jsstring \<times> jsstring) list"
  p_body :: app_body

definition security_headers :: "(jsstring \<times> jsstring) list" where
  "security_headers =
     [(js ''cache-control'', js ''no-store''), (js ''content-security-policy'', js ''default-src '' @ [39] @ js ''none'' @ [39]),
      (js ''referrer-policy'', js ''no-referrer''), (js ''x-content-type-options'', js ''nosniff'')]"

definition privacy_page :: jsstring where
  "privacy_page = js ''<!doctype html>'' @ 10 # js ''<html lang='' @ [34] @ js ''pt-BR'' @ [34] @ js ''><meta charset='' @ [34] @ js ''utf-8''
     @ [34] @ jsx ''><title>Privacidade &mdash; Helio Alexa</title>'' @ 10 # jsx ''<main><h1>Privacidade &mdash; Helio Alexa</h1>''
     @ 10 # jsx ''<p>Esta integra&ccedil;&atilde;o pessoal recebe somente pot&ecirc;ncia atual, energia gerada no dia, estado e hor&aacute;rio da leitura.</p>''
     @ 10 # jsx ''<p>N&atilde;o recebe endere&ccedil;o, localiza&ccedil;&atilde;o, serial do inversor, credenciais ou hist&oacute;rico completo do Helio.</p>''
     @ 10 # jsx ''<p>Dados ficam no servidor privado do propriet&aacute;rio e no Data Store da skill instalado no dispositivo Alexa.</p></main></html>''"

datatype route = Healthz | Privacy | Assets | IngestRoute | AlexaRoute | NotFound

record web_request =
  q_method :: jsstring
  q_path :: jsstring

text \<open>\<open>get\<close> also answers \<open>HEAD\<close>; \<open>use('/assets')\<close> any method below the path.\<close>

definition route_of :: "(bool \<Rightarrow> jsstring \<Rightarrow> jsstring \<Rightarrow> bool) \<Rightarrow> web_request \<Rightarrow> route" where
  "route_of matches q = (let reads = (q_method q = js ''GET'' \<or> q_method q = js ''HEAD''); posts = (q_method q = js ''POST'') in
     if reads \<and> matches True (js ''/healthz'') (q_path q) then Healthz
     else if reads \<and> matches True (js ''/privacy'') (q_path q) then Privacy
     else if matches False (js ''/assets'') (q_path q) then Assets
     else if posts \<and> matches True (js ''/ingest'') (q_path q) then IngestRoute
     else if posts \<and> matches True (js ''/alexa'') (q_path q) then AlexaRoute
     else NotFound)"

definition respond :: "int \<Rightarrow> app_body \<Rightarrow> app_response" where
  "respond st b = \<lparr>p_status = st, p_headers = security_headers, p_body = b\<rparr>"

definition no_route :: app_response where
  "no_route = respond 404 (ErrorBody (js ''not_found''))"

text \<open>The error handler: whatever the error is.\<close>

definition internal_error :: app_response where
  "internal_error = respond 500 (ErrorBody (js ''internal_error''))"

definition reply_response :: "reply \<Rightarrow> app_response" where
  "reply_response r = (case r of Failure st code \<Rightarrow> respond st (IngestBody r) | Accepted u \<Rightarrow> respond 202 (IngestBody r))"

definition static_response :: "(web_request \<Rightarrow> (int \<times> jsstring) option) \<Rightarrow> web_request \<Rightarrow> route \<Rightarrow> app_response" where
  "static_response asset q r = (case r of
       Healthz \<Rightarrow> respond 200 StatusOk
     | Privacy \<Rightarrow> respond 200 (PrivacyPage privacy_page)
     | Assets \<Rightarrow> (case asset q of Some (st, f) \<Rightarrow> respond st (AssetFile f) | None \<Rightarrow> internal_error)
     | _ \<Rightarrow> no_route)"

section \<open>The running relay\<close>

text \<open>A request that waits for its write: what it answers, and whether it schedules a push after it.\<close>

datatype waiting_write = IngestWrite | SkillWrite skill_response bool

record relay =
  r_sched :: "store_data scheduler"
  r_writes :: "waiting_write list"
  r_answers :: "app_response list"

datatype relay_event =
    Static web_request
  | BodyRejected                                   \<comment> \<open>\<open>express.raw\<close> passes an error on\<close>
  | Ingest int int ingest_request                  \<comment> \<open>the two readings of the clock\<close>
  | SkillCall skill_env skill_request
  | WriteEnds "jsstring option"
  | PushEnds nat | LoopEnds nat | ImmediateDue     \<comment> \<open>the callbacks of the scheduler\<close>

definition relay_boot :: "store_data \<Rightarrow> relay" where
  "relay_boot d = \<lparr>r_sched = idle d, r_writes = [], r_answers = []\<rparr>"

definition relay_data :: "relay \<Rightarrow> store_data" where
  "relay_data r = current (r_sched r)"

definition set_data :: "store_data \<Rightarrow> relay \<Rightarrow> relay" where
  "set_data d r = r\<lparr>r_sched := sched_step (r_sched r) (SetData d)\<rparr>"

definition answer_with :: "app_response \<Rightarrow> relay \<Rightarrow> relay" where
  "answer_with a r = r\<lparr>r_answers := r_answers r @ [a]\<rparr>"

definition schedulePush :: "relay \<Rightarrow> relay" where
  "schedulePush r = r\<lparr>r_sched := schedule (r_sched r)\<rparr>"

text \<open>The route up to its write; the outcome of the write is not known yet.\<close>

definition ingest_arrives :: "ingest_config \<Rightarrow> int \<Rightarrow> int \<Rightarrow> ingest_request \<Rightarrow> relay \<Rightarrow> relay" where
  "ingest_arrives cfg t1 t2 req r = (let res = ingest cfg t1 t2 None req (relay_data r) in
     if scheduled res then (set_data (after res) r)\<lparr>r_writes := r_writes r @ [IngestWrite]\<rparr>
     else answer_with (reply_response (answer res)) r)"

text \<open>The skill: a handler that changes the list waits for its write; the others are done at once.\<close>

definition skill_arrives :: "skill_env \<Rightarrow> skill_request \<Rightarrow> relay \<Rightarrow> relay" where
  "skill_arrives E rq r = (let (resp, d', sched) = alexa (E\<lparr>write_error := None\<rparr>) rq (relay_data r) in
     if d' \<noteq> relay_data r then (set_data d' r)\<lparr>r_writes := r_writes r @ [SkillWrite resp sched]\<rparr>
     else answer_with (respond 200 (SkillBody resp)) (if sched then schedulePush r else r))"

definition write_ends :: "jsstring option \<Rightarrow> relay \<Rightarrow> relay" where
  "write_ends err r = (case r_writes r of
       [] \<Rightarrow> r
     | w # ws \<Rightarrow> let r1 = r\<lparr>r_writes := ws\<rparr> in
         (case (w, err) of
            (IngestWrite, None) \<Rightarrow> answer_with (reply_response (Accepted True)) (schedulePush r1)
          | (IngestWrite, Some code) \<Rightarrow> answer_with (reply_response (sendRequestError \<lparr>err_status = None, err_code = Some code\<rparr>)) r1
          | (SkillWrite resp sched, None) \<Rightarrow> answer_with (respond 200 (SkillBody resp)) (if sched then schedulePush r1 else r1)
          | (SkillWrite resp sched, Some code) \<Rightarrow> answer_with (respond 200 (SkillBody (errorHandler (StateError (FsError code))))) r1))"

fun relay_step :: "ingest_config \<Rightarrow> (bool \<Rightarrow> jsstring \<Rightarrow> jsstring \<Rightarrow> bool) \<Rightarrow> (web_request \<Rightarrow> (int \<times> jsstring) option) \<Rightarrow> relay \<Rightarrow> relay_event \<Rightarrow> relay" where
  "relay_step cfg matches asset r (Static q) = (case route_of matches q of
       IngestRoute \<Rightarrow> r | AlexaRoute \<Rightarrow> r | rt \<Rightarrow> answer_with (static_response asset q rt) r)"
| "relay_step cfg matches asset r BodyRejected = answer_with internal_error r"
| "relay_step cfg matches asset r (Ingest t1 t2 req) = ingest_arrives cfg t1 t2 req r"
| "relay_step cfg matches asset r (SkillCall E rq) = skill_arrives E rq r"
| "relay_step cfg matches asset r (WriteEnds err) = write_ends err r"
| "relay_step cfg matches asset r (PushEnds i) = r\<lparr>r_sched := push_settles i (r_sched r)\<rparr>"
| "relay_step cfg matches asset r (LoopEnds i) = r\<lparr>r_sched := finally_runs i (r_sched r)\<rparr>"
| "relay_step cfg matches asset r ImmediateDue = r\<lparr>r_sched := immediate_runs (r_sched r)\<rparr>"

section \<open>The routes\<close>

text \<open>Whatever is answered carries the headers of the middleware.\<close>

lemma headers_everywhere:
  "list_all (\<lambda>a. p_headers a = security_headers) (r_answers (foldl (relay_step cfg matches asset) (relay_boot d) es))"
proof -
  have "list_all (\<lambda>a. p_headers a = security_headers) (r_answers r) \<Longrightarrow>
      list_all (\<lambda>a. p_headers a = security_headers) (r_answers (relay_step cfg matches asset r e))" for r e
    by (cases e)
      (auto simp: answer_with_def set_data_def schedulePush_def ingest_arrives_def skill_arrives_def write_ends_def Let_def
        static_response_def respond_def no_route_def internal_error_def reply_response_def
        split: route.split reply.split option.split list.split waiting_write.split prod.split)
  then have run: "list_all (\<lambda>a. p_headers a = security_headers) (r_answers r) \<Longrightarrow>
      list_all (\<lambda>a. p_headers a = security_headers) (r_answers (foldl (relay_step cfg matches asset) r es))" for r
    by (induction es arbitrary: r) simp_all
  show ?thesis by (rule run) (simp add: relay_boot_def)
qed

text \<open>A file that is not there is answered like a failure of the server.\<close>

lemma missing_asset: "asset q = None \<Longrightarrow> p_status (static_response asset q Assets) = 500"
  by (simp add: static_response_def internal_error_def respond_def)

text \<open>The two events of an accepted reading are the whole route of \<open>RelayIngest\<close>, for either outcome of the write.\<close>

lemma ingest_phases:
  assumes "scheduled (ingest cfg t1 t2 None req d)"
  shows "after (ingest cfg t1 t2 err req d) = after (ingest cfg t1 t2 None req d)"
    and "answer (ingest cfg t1 t2 err req d) = (case err of None \<Rightarrow> Accepted True
      | Some code \<Rightarrow> sendRequestError \<lparr>err_status = None, err_code = Some code\<rparr>)"
    and "scheduled (ingest cfg t1 t2 err req d) \<longleftrightarrow> err = None"
  using assms by (auto simp: ingest_def ingest_handler_def split: if_splits sum.splits option.splits)

section \<open>What is owed is delivered\<close>

text \<open>A push that read \<open>p\<close> serves the data \<open>d\<close>: the same reading, and every device registered now.\<close>

definition serves :: "store_data \<Rightarrow> store_data \<Rightarrow> bool" where
  "serves p d \<longleftrightarrow> snapshot p = snapshot d \<and> set (devices d) \<subseteq> set (devices p)"

definition delivered :: "store_data scheduler \<Rightarrow> bool" where
  "delivered s \<longleftrightarrow> pushed s \<noteq> [] \<and> serves (last (pushed s)) (current s)"

fun pushes_after :: "waiting_write \<Rightarrow> bool" where
  "pushes_after IngestWrite = True"
| "pushes_after (SkillWrite resp sched) = sched"

definition owed :: "relay \<Rightarrow> bool" where
  "owed r \<longleftrightarrow> sched_inv (r_sched r) \<and> (pending (r_sched r) \<or> delivered (r_sched r) \<or> list_ex pushes_after (r_writes r))"

definition at_rest :: "relay \<Rightarrow> bool" where
  "at_rest r \<longleftrightarrow> r_writes r = [] \<and> quiescent (r_sched r)"

lemma serves_refl [simp]: "serves d d"
  by (simp add: serves_def)

lemma schedule_delivers: "pending (schedule s) \<or> delivered (schedule s)"
  using schedule_covered [of s] by (auto simp: covered_def delivered_def)

lemma settle_delivers: "pending s \<or> delivered s \<Longrightarrow> pending (push_settles i s) \<or> delivered (push_settles i s)"
  by (auto simp: push_settles_def loop_check_def Let_def delivered_def)

lemma finally_delivers: "pending s \<or> delivered s \<Longrightarrow> pending (finally_runs i s) \<or> delivered (finally_runs i s)"
  by (auto simp: finally_runs_def Let_def delivered_def)

lemma immediate_delivers: "pending s \<or> delivered s \<Longrightarrow> pending (immediate_runs s) \<or> delivered (immediate_runs s)"
  using schedule_delivers by (simp add: immediate_runs_def)

text \<open>A handler that changes the data and schedules nothing has removed a device.\<close>

lemma unscheduled_change:
  assumes "alexa (E\<lparr>write_error := None\<rparr>) rq d = (resp, d', False)"
  shows "serves d d'"
proof -
  have out: "snd (dispatch (E\<lparr>write_error := None\<rparr>) rq d) = (d', False)" using assms alexa_snd [of "E\<lparr>write_error := None\<rparr>" rq d] by simp
  consider (install) "req_type rq = js ''Alexa.DataStore.PackageManager.UsagesInstalled''"
    | (removal) "req_type rq = js ''Alexa.DataStore.PackageManager.UsagesRemoved''"
    | (other) "snd (dispatch (E\<lparr>write_error := None\<rparr>) rq d) = (d, False)"
    using dispatch_other by blast
  then show ?thesis
  proof cases
    case install
    then have "d' = d" using out unfolding dispatch_installed [OF install]
      by (auto simp: handle_installed_def split: sum.splits option.splits)
    then show ?thesis by simp
  next
    case removal
    obtain x where "handle_removed (E\<lparr>write_error := None\<rparr>) rq d = (x, d', False)"
      using out unfolding dispatch_removed [OF removal] by (metis prod.collapse snd_conv)
    from removed_data [OF this] show ?thesis by (auto simp: serves_def)
  qed (use out in simp)
qed

lemma owed_answer [simp]: "owed (answer_with a r) = owed r"
  by (simp add: owed_def answer_with_def)

lemma owed_schedule: "sched_inv (r_sched r) \<Longrightarrow> owed (schedulePush r)"
  using schedule_delivers [of "r_sched r"] by (auto simp: owed_def schedulePush_def intro: schedule_inv)

lemma set_data_inv [simp]: "sched_inv (r_sched (set_data d r)) = sched_inv (r_sched r)"
  by (simp add: set_data_def sched_inv_def)

lemma arrivals_owed: "owed r \<Longrightarrow> owed (ingest_arrives cfg t1 t2 req r)"
  by (auto simp: ingest_arrives_def Let_def) (auto simp: owed_def set_data_def sched_inv_def)

lemma skill_owed:
  assumes "owed r"
  shows "owed (skill_arrives E rq r)"
proof -
  obtain resp d' sched where a: "alexa (E\<lparr>write_error := None\<rparr>) rq (relay_data r) = (resp, d', sched)" by (metis prod_cases3)
  show ?thesis
  proof (cases "d' = relay_data r")
    case True
    have "sched_inv (r_sched r)" using assms by (simp add: owed_def)
    from owed_schedule [OF this] True assms a show ?thesis by (simp add: skill_arrives_def)
  next
    case False
    have "sched \<or> serves (relay_data r) d'" using unscheduled_change a by (cases sched) auto
    then have "serves (last (pushed (r_sched r))) (current (r_sched r)) \<Longrightarrow> sched \<or> serves (last (pushed (r_sched r))) d'"
      by (auto simp: serves_def relay_data_def)
    with assms a False show ?thesis
      by (auto simp: skill_arrives_def owed_def set_data_def sched_inv_def delivered_def)
  qed
qed

lemma write_owed: "owed r \<Longrightarrow> owed (write_ends None r)"
proof (cases "r_writes r")
  case (Cons w ws)
  assume r: "owed r"
  then have inv: "sched_inv (r_sched (r\<lparr>r_writes := ws\<rparr>))" by (simp add: owed_def)
  show ?thesis using r owed_schedule [OF inv] by (cases w) (auto simp: write_ends_def Cons Let_def, auto simp: owed_def Cons)
qed (simp add: write_ends_def)

lemma owed_step: "owed r \<Longrightarrow> (\<And>code. e \<noteq> WriteEnds (Some code)) \<Longrightarrow> owed (relay_step cfg matches asset r e)"
proof (cases e)
  case (WriteEnds err)
  assume "owed r" "\<And>code. e \<noteq> WriteEnds (Some code)"
  with WriteEnds show ?thesis by (cases err) (auto simp: write_owed)
next
  case (PushEnds i)
  assume "owed r"
  with PushEnds show ?thesis using settle_delivers [of "r_sched r" i] by (auto simp: owed_def push_settles_inv)
next
  case (LoopEnds i)
  assume "owed r"
  with LoopEnds show ?thesis using finally_delivers [of "r_sched r" i] by (auto simp: owed_def finally_runs_inv)
next
  case ImmediateDue
  assume "owed r"
  with ImmediateDue show ?thesis using immediate_delivers [of "r_sched r"] by (auto simp: owed_def immediate_runs_inv)
qed (auto simp: arrivals_owed skill_owed split: route.split)

lemma owed_run: "owed r \<Longrightarrow> (\<And>code. WriteEnds (Some code) \<notin> set es) \<Longrightarrow> owed (foldl (relay_step cfg matches asset) r es)"
proof (induction es arbitrary: r)
  case (Cons e es)
  have "owed (relay_step cfg matches asset r e)" using Cons.prems by (intro owed_step) auto
  with Cons show ?case by simp
qed simp

lemma rest_delivered: "owed r \<Longrightarrow> at_rest r \<Longrightarrow> delivered (r_sched r)"
  by (auto simp: owed_def at_rest_def quiescent_def sched_inv_def)

section \<open>The relay comes to rest\<close>

text \<open>What runs next when no request arrives: the oldest write ends, or a callback of the scheduler runs.\<close>

definition relay_service :: "relay \<Rightarrow> relay" where
  "relay_service r = (if r_writes r \<noteq> [] then write_ends None r else r\<lparr>r_sched := service (r_sched r)\<rparr>)"

lemma sched_inv_run: "sched_inv (r_sched (foldl (relay_step cfg matches asset) (relay_boot d) es))"
proof -
  have "sched_inv (r_sched r) \<Longrightarrow> sched_inv (r_sched (relay_step cfg matches asset r e))" for r e
    by (cases e)
      (auto simp: answer_with_def schedulePush_def ingest_arrives_def skill_arrives_def write_ends_def Let_def
        push_settles_inv finally_runs_inv immediate_runs_inv intro!: schedule_inv
        split: route.split option.split list.split waiting_write.split prod.split)
  then have "sched_inv (r_sched r) \<Longrightarrow> sched_inv (r_sched (foldl (relay_step cfg matches asset) r es))" for r
    by (induction es arbitrary: r) simp_all
  then show ?thesis by (simp add: relay_boot_def)
qed

lemma schedule_current [simp]: "current (schedule s) = current s"
  by (simp add: schedule_def loop_check_def Let_def)

lemma relay_service_data [simp]: "relay_data (relay_service r) = relay_data r"
  by (auto simp: relay_service_def write_ends_def relay_data_def answer_with_def schedulePush_def Let_def
      split: list.split waiting_write.split)

lemma write_ends_shorter: "r_writes r \<noteq> [] \<Longrightarrow> length (r_writes (write_ends err r)) < length (r_writes r)"
  by (cases "r_writes r") (auto simp: write_ends_def answer_with_def schedulePush_def Let_def split: waiting_write.split option.split)

lemma service_delivers: "pending s \<or> delivered s \<Longrightarrow> pending (service s) \<or> delivered (service s)"
  using settle_delivers [of s 0] finally_delivers [of s 0] immediate_delivers [of s]
  by (simp add: service_def split: list.split loop_phase.split)

lemma owed_service: "owed r \<Longrightarrow> owed (relay_service r)"
proof (cases "r_writes r = []")
  case True
  assume "owed r"
  with True show ?thesis using service_delivers [of "r_sched r"] by (auto simp: relay_service_def owed_def service_inv)
qed (simp add: relay_service_def write_owed)

lemma services_only: "r_writes r = [] \<Longrightarrow> (relay_service ^^ n) r = r\<lparr>r_sched := (service ^^ n) (r_sched r)\<rparr>"
  by (induction n) (simp_all add: relay_service_def)

lemma relay_drains: "owed r \<Longrightarrow> \<exists>n. at_rest ((relay_service ^^ n) r) \<and> owed ((relay_service ^^ n) r)"
proof (induction "length (r_writes r)" arbitrary: r rule: less_induct)
  case less
  show ?case
  proof (cases "r_writes r = []")
    case True
    from service_drains [of "r_sched r"] less.prems obtain n where "quiescent ((service ^^ n) (r_sched r))" by (auto simp: owed_def)
    with True have "at_rest ((relay_service ^^ n) r)" by (simp add: at_rest_def services_only)
    moreover have "owed ((relay_service ^^ n) r)" using less.prems by (induction n) (simp_all add: owed_service)
    ultimately show ?thesis by blast
  next
    case False
    then have "length (r_writes (relay_service r)) < length (r_writes r)" by (simp add: relay_service_def write_ends_shorter)
    from less.hyps [OF this owed_service [OF less.prems]] obtain n where
      "at_rest ((relay_service ^^ n) (relay_service r))" "owed ((relay_service ^^ n) (relay_service r))" by blast
    then show ?thesis by (intro exI [of _ "Suc n"]) (simp add: funpow_swap1)
  qed
qed

lemma services_data [simp]: "relay_data ((relay_service ^^ n) r) = relay_data r"
  by (induction n) simp_all

text \<open>
  C3. An accepted reading reaches the widgets: take any history of requests, writes and callbacks, a
  reading the route accepts as new, and any continuation in which no write fails, with requests
  arriving and callbacks running in whatever order. Whenever the relay is at rest afterwards, its
  last push has read the snapshot the store holds and every device registered now; and once no more
  requests arrive it does come to rest, with its data unchanged.
\<close>

theorem relay_delivers:
  assumes "r = foldl (relay_step cfg matches asset) (relay_boot d) before"
    and "scheduled (ingest cfg t1 t2 None req (relay_data r))"
    and "r' = foldl (relay_step cfg matches asset) r (Ingest t1 t2 req # later_events)"
    and "\<And>code. WriteEnds (Some code) \<notin> set later_events"
  shows "(at_rest r' \<longrightarrow> pushed (r_sched r') \<noteq> [] \<and> serves (last (pushed (r_sched r'))) (relay_data r'))
    \<and> (\<exists>n. let rest = (relay_service ^^ n) r' in at_rest rest \<and> relay_data rest = relay_data r'
         \<and> pushed (r_sched rest) \<noteq> [] \<and> serves (last (pushed (r_sched rest))) (relay_data r'))"
proof -
  have "sched_inv (r_sched r)" unfolding assms(1) by (rule sched_inv_run)
  then have "owed (ingest_arrives cfg t1 t2 req r)" using assms(2) by (simp add: ingest_arrives_def owed_def set_data_def sched_inv_def)
  then have owed: "owed r'" unfolding assms(3) by (simp add: owed_run assms(4))
  obtain n where n: "at_rest ((relay_service ^^ n) r')" "owed ((relay_service ^^ n) r')" using relay_drains [OF owed] by blast
  have "delivered (r_sched ((relay_service ^^ n) r'))" by (rule rest_delivered [OF n(2,1)])
  then have "\<exists>n. let rest = (relay_service ^^ n) r' in at_rest rest \<and> relay_data rest = relay_data r'
      \<and> pushed (r_sched rest) \<noteq> [] \<and> serves (last (pushed (r_sched rest))) (relay_data r')"
    using n(1) services_data [of n r'] by (intro exI [of _ n]) (auto simp: delivered_def relay_data_def Let_def)
  with rest_delivered [OF owed] show ?thesis by (auto simp: delivered_def relay_data_def)
qed

lemma relay_delivers_witness:
  "\<exists>n. let rest = (relay_service ^^ n) (foldl (relay_step sample_config (\<lambda>exact route path. path = route) (\<lambda>q. None))
       (relay_boot emptyState) [Ingest 0 0 (sample_request [])]) in at_rest rest \<and> pushed (r_sched rest) \<noteq> []"
proof -
  have "scheduled (ingest sample_config 0 0 None (sample_request []) (relay_data (relay_boot emptyState)))"
    using sample_scheduled by (simp add: relay_data_def relay_boot_def idle_def)
  from relay_delivers [of "relay_boot emptyState" sample_config "\<lambda>exact route path. path = route" "\<lambda>q. None" emptyState "[]"
    0 0 "sample_request []" _ "[]", OF _ this refl] show ?thesis by (simp add: Let_def) blast
qed

end
