(* ===== verification/HistoryRange.thy ===== *)
theory HistoryRange
  imports Calendar
begin

text \<open>
  Periods of the history page, the calendar half of \<open>web/src/features/history/history-model.ts\<close>:
  the local calendar of a time zone, the search for the instant of a local date
  (\<open>zonedCalendarToDate\<close>), the period around an anchor (\<open>getPeriodRange\<close>) and its form in the
  address bar (\<open>serializeHistoryRange\<close>, \<open>parseHistorySearch\<close>).

  Parameters: \<open>off\<close>, the offset from UTC in milliseconds at each instant of a zone that exists:
  \<open>Intl.DateTimeFormat\<close> shows the UTC calendar of the shifted instant, in whole seconds; \<open>dparse\<close>,
  \<open>Date.parse\<close>. Years before 1, which the formatter writes with an era, are not modelled.
\<close>

section \<open>The source's functions\<close>

datatype period = DayPeriod | WeekPeriod | MonthPeriod | YearPeriod

datatype resolution = Minutely | Hourly | Daily | Monthly

fun PERIOD_RESOLUTION :: "period \<Rightarrow> resolution" where
  "PERIOD_RESOLUTION DayPeriod = Minutely"
| "PERIOD_RESOLUTION WeekPeriod = Hourly"
| "PERIOD_RESOLUTION MonthPeriod = Daily"
| "PERIOD_RESOLUTION YearPeriod = Monthly"

record history_range =
  range_from :: jsstring
  range_period :: period
  previousFrom :: jsstring
  previousTo :: jsstring
  range_resolution :: resolution
  range_to :: jsstring

definition calendarParts :: "(int \<Rightarrow> int) \<Rightarrow> int \<Rightarrow> parts" where
  "calendarParts off t = parts_of (t + off t)"

definition normalizeCalendar :: "parts \<Rightarrow> parts" where
  "normalizeCalendar p = parts_of (date_UTC p)"

text \<open>One pass of the loop: correct the candidate by how far its local time is from the desired.\<close>

definition zoned_pass :: "(int \<Rightarrow> int) \<Rightarrow> int \<Rightarrow> int \<Rightarrow> int" where
  "zoned_pass off desired candidate = candidate + (desired - date_UTC (calendarParts off candidate))"

definition zonedCalendarToDate :: "(int \<Rightarrow> int) \<Rightarrow> parts \<Rightarrow> int" where
  "zonedCalendarToDate off p =
     (let desired = date_UTC (normalizeCalendar p) in (zoned_pass off desired ^^ 3) desired)"

definition at_midnight :: "parts \<Rightarrow> parts" where
  "at_midnight p = p\<lparr>hour := 0, minute := 0, second := 0\<rparr>"

text \<open>\<open>setUTCDate\<close>, \<open>setUTCMonth\<close> and \<open>setUTCFullYear\<close> roll over as \<open>make_day\<close> does.\<close>

definition shiftCalendar :: "parts \<Rightarrow> period \<Rightarrow> int \<Rightarrow> parts" where
  "shiftCalendar p per amount =
     (let q = parts_of (date_UTC (at_midnight p));
          d = (case per of
              DayPeriod \<Rightarrow> make_day (year q) (month q - 1) (day q + amount)
            | WeekPeriod \<Rightarrow> make_day (year q) (month q - 1) (day q + 7 * amount)
            | MonthPeriod \<Rightarrow> make_day (year q) (month q - 1 + amount) (day q)
            | YearPeriod \<Rightarrow> make_day (year q + amount) (month q - 1) (day q))
      in at_midnight (parts_of (d * day_ms)))"

definition periodStart :: "period \<Rightarrow> int \<Rightarrow> (int \<Rightarrow> int) \<Rightarrow> parts" where
  "periodStart per anchor off =
     (let loc = calendarParts off anchor; start = at_midnight loc in
      case per of
        DayPeriod \<Rightarrow> start
      | WeekPeriod \<Rightarrow> shiftCalendar start DayPeriod (- ((weekday (date_UTC (at_midnight loc)) + 6) mod 7))
      | MonthPeriod \<Rightarrow> start\<lparr>day := 1\<rparr>
      | YearPeriod \<Rightarrow> start\<lparr>day := 1, month := 1\<rparr>)"

definition getPeriodRange :: "period \<Rightarrow> int \<Rightarrow> (int \<Rightarrow> int) \<Rightarrow> history_range" where
  "getPeriodRange per anchor off =
     (let start = periodStart per anchor off; stop = shiftCalendar start per 1;
          previous = shiftCalendar start per (- 1);
          fr = iso_string (zonedCalendarToDate off start) in
      \<lparr>range_from = fr, range_period = per,
       previousFrom = iso_string (zonedCalendarToDate off previous), previousTo = fr,
       range_resolution = PERIOD_RESOLUTION per,
       range_to = iso_string (zonedCalendarToDate off stop)\<rparr>)"

text \<open>The search parameters: the ones present, by name.\<close>

type_synonym search = "(jsstring \<times> jsstring) list"

definition period_name :: "period \<Rightarrow> jsstring" where
  "period_name per = (case per of
      DayPeriod \<Rightarrow> js ''day'' | WeekPeriod \<Rightarrow> js ''week'' | MonthPeriod \<Rightarrow> js ''month'' | YearPeriod \<Rightarrow> js ''year'')"

definition isPeriod :: "jsstring option \<Rightarrow> period option" where
  "isPeriod v =
     (if v = Some (js ''day'') then Some DayPeriod else if v = Some (js ''week'') then Some WeekPeriod
      else if v = Some (js ''month'') then Some MonthPeriod else if v = Some (js ''year'') then Some YearPeriod
      else None)"

text \<open>\<open>new Date(x)\<close> drops the fraction of a number of milliseconds.\<close>

definition whole_ms :: "jsnum \<Rightarrow> int" where
  "whole_ms x = (case x of Fin q \<Rightarrow> (if q < 0 then - \<lfloor>- q\<rfloor> else \<lfloor>q\<rfloor>) | _ \<Rightarrow> 0)"

definition midpoint :: "int \<Rightarrow> int \<Rightarrow> int" where
  "midpoint a b = whole_ms (jadd (num_of_int a) (jdiv (jsub (num_of_int b) (num_of_int a)) (Fin 2)))"

definition parseHistorySearch ::
    "(jsstring \<Rightarrow> int option) \<Rightarrow> search \<Rightarrow> int \<Rightarrow> (int \<Rightarrow> int) \<Rightarrow> history_range" where
  "parseHistorySearch dparse search anchor off =
     (let per = or_else (isPeriod (map_of search (js ''period''))) DayPeriod;
          fallback = getPeriodRange per anchor off;
          fr = or_else (map_of search (js ''from'')) [];
          t = or_else (map_of search (js ''to'')) [] in
      if fr = [] \<or> t = [] then fallback
      else case (dparse fr, dparse t) of
          (Some fromMs, Some toMs) \<Rightarrow>
            if toMs \<le> fromMs then fallback
            else if PERIOD_RESOLUTION per = Minutely \<and> toMs - fromMs > 366 * 24 * 60 * 60000 then fallback
            else getPeriodRange per (midpoint fromMs toMs) off
        | _ \<Rightarrow> fallback)"

definition serializeHistoryRange :: "history_range \<Rightarrow> search" where
  "serializeHistoryRange r =
     [(js ''period'', period_name (range_period r)), (js ''from'', range_from r), (js ''to'', range_to r)]"

section \<open>Years and instants\<close>

lemma year_from_day_mono: "d \<le> e \<Longrightarrow> year_from_day d \<le> year_from_day e"
proof (rule ccontr)
  assume "d \<le> e" "\<not> year_from_day d \<le> year_from_day e"
  then have "day_from_year (year_from_day e + 1) \<le> day_from_year (year_from_day d)"
    by (intro day_from_year_mono) simp
  with year_from_day_bounds(2) [of e] year_from_day_bounds(1) [of d] \<open>d \<le> e\<close> show False by linarith
qed

lemma year_from_day_near: "e \<le> d + 366 \<Longrightarrow> year_from_day e \<le> year_from_day d + 2"
proof (rule ccontr)
  let ?y = "year_from_day d"
  assume near: "e \<le> d + 366" and "\<not> year_from_day e \<le> ?y + 2"
  then have "day_from_year (?y + 3) \<le> day_from_year (year_from_day e)"
    by (intro day_from_year_mono) simp
  moreover have "day_from_year (?y + 1) + 365 \<le> day_from_year (?y + 2)"
    "day_from_year (?y + 2) + 365 \<le> day_from_year (?y + 3)"
    using day_from_year_Suc [of "?y + 1"] day_from_year_Suc [of "?y + 2"] by (simp_all add: add.commute)
  ultimately show False
    using near year_from_day_bounds(1) [of e] year_from_day_bounds(2) [of d] by linarith
qed

lemma year_parts_of [simp]: "year (parts_of t) = year_from_day (day_of t)"
  by (simp add: parts_of_def Let_def)

lemma day_of_mono: "s \<le> t \<Longrightarrow> day_of s \<le> day_of t"
  by (simp add: day_of_def zdiv_mono1)

lemma day_of_midnight [simp]: "day_of (d * day_ms) = d"
  by (simp add: day_of_def)

lemma date_UTC_parts: "100 \<le> year p \<Longrightarrow> date_UTC p = ms_of p"
  by (simp add: date_UTC_def)

text \<open>The parts of the first instant of a day.\<close>

lemma at_midnight_parts: "at_midnight (parts_of t) = parts_of (day_of t * day_ms)"
  by (simp add: at_midnight_def parts_of_def Let_def day_of_def)

lemma at_midnight_midnight [simp]: "at_midnight (parts_of (d * day_ms)) = parts_of (d * day_ms)"
  by (simp add: at_midnight_parts)

lemma ms_of_midnight [simp]: "ms_of (parts_of (d * day_ms)) = d * day_ms"
proof -
  have "d * day_ms mod 1000 = 0" by (simp add: mod_mult_right_eq [symmetric])
  then show ?thesis by (simp add: ms_of_parts_of)
qed

section \<open>Finding the instant of a local time\<close>

text \<open>What the code relies on of every zone: offsets of whole seconds, smaller than a day.\<close>

locale time_zone =
  fixes off :: "int \<Rightarrow> int"
  assumes whole_seconds: "off t mod 1000 = 0"
    and bounded: "\<bar>off t\<bar> < day_ms"

text \<open>
  What it relies on near the midnight of a day \<open>d\<close>: within three days the offset changes at most once,
  by less than a day; and when that change skips or repeats the midnight, the skipped or repeated
  time begins with the midnight and the zone is west of UTC, as in Sao Paulo on 15 October 2017. East
  of UTC the search ends on the wrong side of such a change: see \<open>zonedCalendarToDate_local\<close>.
\<close>

definition clear_day :: "(int \<Rightarrow> int) \<Rightarrow> int \<Rightarrow> bool" where
  "clear_day off d \<longleftrightarrow> (\<exists>T a b. (\<forall>t. \<bar>t - d * day_ms\<bar> \<le> 3 * day_ms \<longrightarrow> off t = (if t < T then a else b)) \<and> \<bar>a - b\<bar> < day_ms
     \<and> (min (T + a) (T + b) \<le> d * day_ms \<and> d * day_ms < max (T + a) (T + b)
        \<longrightarrow> d * day_ms = min (T + a) (T + b) \<and> d * day_ms < T))"

text \<open>One pass, at a candidate in whole seconds whose local year is past 99.\<close>

lemma zoned_pass_eq:
  assumes "off c mod 1000 = 0" "c mod 1000 = 0" "100 \<le> year (parts_of (c + off c))"
  shows "zoned_pass off D c = D - off c"
proof -
  have "(c + off c) mod 1000 = 0" using assms(1,2) by (simp add: mod_add_eq [symmetric])
  then show ?thesis
    using assms(3) by (simp add: zoned_pass_def calendarParts_def date_UTC_parts ms_of_parts_of)
qed

text \<open>The instants from the year 102 on: two days before, the year is still past 99.\<close>

definition modern :: "int \<Rightarrow> bool" where
  "modern t \<longleftrightarrow> 102 \<le> year (parts_of t)"

lemma modern_near:
  assumes "modern t" "t - 3 * day_ms \<le> s"
  shows "100 \<le> year (parts_of s)"
proof -
  have "day_of t - 3 \<le> day_of s"
    using day_of_mono [OF assms(2)] by (simp add: day_of_def)
  then have "day_of t \<le> day_of s + 366" by simp
  then have "year_from_day (day_of t) \<le> year_from_day (day_of s) + 2" by (rule year_from_day_near)
  with assms(1) show ?thesis by (simp add: modern_def)
qed

text \<open>
  Three passes, for a zone that changes its offset once, from \<open>a\<close> to \<open>b\<close> at \<open>T\<close>, near the
  desired local time.
\<close>

lemma zoned_three_passes:
  assumes near: "\<And>t. \<bar>t - D\<bar> \<le> 2 * day_ms \<Longrightarrow> off t = (if t < T then a else b)"
    and secs: "\<And>t. off t mod 1000 = 0" and bound: "\<And>t. \<bar>off t\<bar> < day_ms"
    and D: "D mod 1000 = 0" "modern D"
  shows "(zoned_pass off D ^^ 3) D = D - off (D - off (D - off D))"
proof -
  have small: "- day_ms < off t" "off t < day_ms" for t using bound [of t] by linarith+
  have pass: "zoned_pass off D c = D - off c" if "D - day_ms \<le> c" "c mod 1000 = 0" for c
  proof (rule zoned_pass_eq)
    show "100 \<le> year (parts_of (c + off c))"
      using D(2) by (rule modern_near) (use that(1) small [of c] in linarith)
  qed (use secs that in simp_all)
  have whole: "(D - off t) mod 1000 = 0" for t using D(1) secs [of t] by (simp add: mod_diff_eq [symmetric])
  have bd: "D - day_ms \<le> D - off t" for t using small [of t] by linarith
  have "(zoned_pass off D ^^ 3) D = zoned_pass off D (zoned_pass off D (zoned_pass off D D))"
    by (simp add: numeral_3_eq_3)
  also have "\<dots> = D - off (D - off (D - off D))"
    using pass [of D] pass [OF bd whole] D(1) by simp
  finally show ?thesis .
qed

text \<open>The desired local time exists exactly when it is on the same side of both images of \<open>T\<close>.\<close>

lemma zoned_once:
  fixes D :: int
  assumes near: "\<And>t. \<bar>t - D\<bar> \<le> 2 * day_ms \<Longrightarrow> off t = (if t < T then a else b)"
    and bound: "\<And>t. \<bar>off t\<bar> < day_ms"
    and side: "\<not> (min (T + a) (T + b) \<le> D \<and> D < max (T + a) (T + b))"
  defines "F \<equiv> D - off (D - off (D - off D))"
  shows "F + off F = D" and "\<bar>F - D\<bar> < day_ms" and "\<bar>t - D\<bar> \<le> 2 * day_ms \<Longrightarrow> t + off t < D \<longleftrightarrow> t < F"
proof -
  have small: "- day_ms < off t" "off t < day_ms" for t using bound [of t] by linarith+
  have val: "off t = (if t < T then a else b)" if "D - 2 * day_ms \<le> t" "t \<le> D + 2 * day_ms" for t
    using that by (intro near) linarith
  have cand: "off (D - off u) = (if D - off u < T then a else b)" for u
    using small [of u] by (intro val) linarith+
  have "(D < T + a \<and> D < T + b) \<or> (T + a \<le> D \<and> T + b \<le> D)" using side by linarith
  then have "off (D - off (D - off D)) = off (D - off D) \<and>
    (D - off (D - off D) < T \<and> off (D - off D) = a \<or> T \<le> D - off (D - off D) \<and> off (D - off D) = b)
    \<and> (D - off (D - off D) < T \<longleftrightarrow> D < T + a)"
  proof
    assume l: "D < T + a \<and> D < T + b"
    have "D - off D < T" using l val [of D] by (simp split: if_splits)
    then have one: "off (D - off D) = a" using cand [of D] by simp
    then have two: "D - off (D - off D) < T" using l by simp
    then have "off (D - off (D - off D)) = a" using cand [of "D - off D"] by simp
    with one two l show ?thesis by simp
  next
    assume l: "T + a \<le> D \<and> T + b \<le> D"
    have "T \<le> D - off D" using l val [of D] by (simp split: if_splits)
    then have one: "off (D - off D) = b" using cand [of D] by simp
    then have two: "T \<le> D - off (D - off D)" using l by simp
    then have "off (D - off (D - off D)) = b" using cand [of "D - off D"] by simp
    with one two l show ?thesis by simp
  qed
  then have fix1: "off F = off (D - off D)" and F: "F = D - off F"
    and sides: "F < T \<and> off F = a \<and> D < T + a \<and> D < T + b \<or> T \<le> F \<and> off F = b \<and> T + a \<le> D \<and> T + b \<le> D"
    using \<open>(D < T + a \<and> D < T + b) \<or> (T + a \<le> D \<and> T + b \<le> D)\<close>
    unfolding F_def by auto
  show "F + off F = D" using F by linarith
  show "\<bar>F - D\<bar> < day_ms" using F small [of F] by linarith
  assume t: "\<bar>t - D\<bar> \<le> 2 * day_ms"
  have "off t = (if t < T then a else b)" using t by (rule near)
  with sides F show "t + off t < D \<longleftrightarrow> t < F" by (auto split: if_splits)
qed

text \<open>With a change that skips or repeats the time from \<open>D\<close> on, west of UTC, the first instant from \<open>D\<close> on is found.\<close>

lemma zoned_first:
  fixes D :: int
  assumes near: "\<And>t. \<bar>t - D\<bar> \<le> 2 * day_ms \<Longrightarrow> off t = (if t < T then a else b)"
    and bound: "\<And>t. \<bar>off t\<bar> < day_ms"
    and clear: "min (T + a) (T + b) \<le> D \<and> D < max (T + a) (T + b) \<Longrightarrow> D = min (T + a) (T + b) \<and> D < T"
  defines "F \<equiv> D - off (D - off (D - off D))"
  shows "F + off F = (if T + a \<le> D \<and> D < T + b then D + (b - a) else D)"
    and "\<bar>t - D\<bar> \<le> 2 * day_ms \<Longrightarrow> t + off t < D \<longleftrightarrow> t < F"
proof -
  have "F + off F = (if T + a \<le> D \<and> D < T + b then D + (b - a) else D)
    \<and> (\<bar>t - D\<bar> \<le> 2 * day_ms \<longrightarrow> (t + off t < D \<longleftrightarrow> t < F))" for t
  proof (cases "min (T + a) (T + b) \<le> D \<and> D < max (T + a) (T + b)")
    case False
    note once = zoned_once [OF near bound False, folded F_def]
    have "\<not> (T + a \<le> D \<and> D < T + b)" using False by linarith
    with once show ?thesis by simp
  next
    case True
    have small: "- day_ms < off t" "off t < day_ms" for t using bound [of t] by linarith+
    have val: "off t = (if t < T then a else b)" if "D - 2 * day_ms \<le> t" "t \<le> D + 2 * day_ms" for t
      using that by (intro near) linarith
    have cand: "off (D - off u) = (if D - off u < T then a else b)" for u
      using small [of u] by (intro val) linarith+
    have "off D = (if D < T then a else b)" by (intro val) simp_all
    moreover have "D < T" using clear [OF True] by blast
    ultimately have here: "off D = a" by (simp only: if_True)
    show ?thesis
    proof (cases "a < b")
      case True
      then have T: "T + a = D" using clear \<open>min (T + a) (T + b) \<le> D \<and> D < max (T + a) (T + b)\<close> by linarith
      then have "off (D - off D) = b" using cand [of D] here by simp
      then have "off (D - off (D - off D)) = a" using cand [of "D - off D"] True T by simp
      then have F: "F = T" using T by (simp add: F_def)
      have "off F = (if F < T then a else b)" unfolding F_def by (rule cand)
      then have "off F = b" by (simp only: F less_irrefl if_False)
      with F T True val [of t] show ?thesis by (auto split: if_splits)
    next
      case False
      then have T: "T + b = D" "b < a" using clear \<open>min (T + a) (T + b) \<le> D \<and> D < max (T + a) (T + b)\<close> by linarith+
      then have one: "off (D - off D) = a" using cand [of D] here by simp
      then have "off (D - off (D - off D)) = a" using cand [of "D - off D"] T by simp
      then have F: "F = D - a" "off F = a" using one by (simp_all add: F_def)
      with T val [of t] show ?thesis by (auto split: if_splits)
    qed
  qed
  then show "F + off F = (if T + a \<le> D \<and> D < T + b then D + (b - a) else D)"
    "\<bar>t - D\<bar> \<le> 2 * day_ms \<Longrightarrow> t + off t < D \<longleftrightarrow> t < F" by blast+
qed

definition fit_day :: "(int \<Rightarrow> int) \<Rightarrow> int \<Rightarrow> bool" where
  "fit_day off d \<longleftrightarrow> modern (d * day_ms) \<and> clear_day off d"

context time_zone
begin

text \<open>The instant \<open>zonedCalendarToDate\<close> finds for the first instant of a local day.\<close>

abbreviation midnight :: "int \<Rightarrow> int" where
  "midnight d \<equiv> zonedCalendarToDate off (parts_of (d * day_ms))"

lemma midnight_facts:
  assumes "fit_day off d"
  shows midnight_first: "t + off t < d * day_ms \<longleftrightarrow> t < midnight d"
    and midnight_local: "day_of (midnight d + off (midnight d)) = d"
    and midnight_exact: "t + off t = d * day_ms \<Longrightarrow> midnight d + off (midnight d) = d * day_ms"
    and midnight_back: "\<bar>midnight d - d * day_ms\<bar> < day_ms"
    and midnight_whole: "midnight d mod 1000 = 0"
proof -
  define D where "D = d * day_ms"
  obtain T a b where near: "\<And>t. \<bar>t - D\<bar> \<le> 3 * day_ms \<Longrightarrow> off t = (if t < T then a else b)" and jump: "\<bar>a - b\<bar> < day_ms"
    and clear: "min (T + a) (T + b) \<le> D \<and> D < max (T + a) (T + b) \<Longrightarrow> D = min (T + a) (T + b) \<and> D < T"
    using assms unfolding fit_day_def clear_day_def D_def by blast
  have near2: "off t = (if t < T then a else b)" if "\<bar>t - D\<bar> \<le> 2 * day_ms" for t
    using that by (intro near) linarith
  have D: "D mod 1000 = 0" "modern D" using assms by (simp_all add: D_def fit_day_def mod_mult_right_eq [symmetric])
  have "100 \<le> year (parts_of D)" using D(2) by (simp add: modern_def)
  then have "date_UTC (normalizeCalendar (parts_of D)) = D"
    by (simp add: normalizeCalendar_def date_UTC_parts D_def)
  then have F: "midnight d = D - off (D - off (D - off D))"
    using zoned_three_passes [OF near2 whole_seconds bounded D]
    by (simp add: zonedCalendarToDate_def D_def [symmetric])
  note first = zoned_first [OF near2 bounded clear, folded F]
  show close: "\<bar>midnight d - d * day_ms\<bar> < day_ms" using bounded [of "D - off (D - off D)"] unfolding F D_def by linarith
  show "midnight d mod 1000 = 0" unfolding F using D(1) whole_seconds by (simp add: mod_diff_eq [symmetric])
  show start: "t + off t < d * day_ms \<longleftrightarrow> t < midnight d" for t
  proof (cases "\<bar>t - D\<bar> \<le> 2 * day_ms")
    case True
    then show ?thesis using first(2) by (simp add: D_def)
  next
    case False
    have "- day_ms < off t" "off t < day_ms" using bounded [of t] by linarith+
    with False close show ?thesis unfolding D_def [symmetric] by linarith
  qed
  have lo: "D \<le> midnight d + off (midnight d)" using start [of "midnight d"] unfolding D_def by linarith
  have hi: "midnight d + off (midnight d) < D + day_ms"
    using first(1) jump by (cases "T + a \<le> D \<and> D < T + b") simp_all
  show "day_of (midnight d + off (midnight d)) = d"
    unfolding day_of_def using lo hi
    by (intro int_div_mod_unique(1) [where r = "midnight d + off (midnight d) - D"]) (simp_all add: D_def)
  assume t: "t + off t = d * day_ms"
  then have t_D: "\<bar>t - D\<bar> \<le> 2 * day_ms" using bounded [of t] unfolding D_def by linarith
  have "\<not> (T + a \<le> D \<and> D < T + b)" using t near2 [OF t_D] unfolding D_def [symmetric] by (auto split: if_splits)
  then show "midnight d + off (midnight d) = d * day_ms" using first(1) by (simp add: D_def)
qed

text \<open>So an instant is in the days from \<open>d\<close> to \<open>e\<close> exactly when its local day is.\<close>

lemma midnight_day:
  assumes "fit_day off d"
  shows "midnight d \<le> t \<longleftrightarrow> d \<le> day_of (t + off t)"
proof -
  have "d * day_ms \<le> t + off t \<longleftrightarrow> d \<le> day_of (t + off t)"
  proof
    assume "d * day_ms \<le> t + off t"
    from day_of_mono [OF this] show "d \<le> day_of (t + off t)" by simp
  next
    assume "d \<le> day_of (t + off t)"
    then have "d * day_ms \<le> day_of (t + off t) * day_ms" by simp
    also have "\<dots> \<le> t + off t" using div_bounds(1) [of day_ms "t + off t"] by (simp add: day_of_def)
    finally show "d * day_ms \<le> t + off t" .
  qed
  with midnight_first [OF assms, of t] show ?thesis by linarith
qed

end

section \<open>Periods as ranges of days\<close>

text \<open>The abstract periods: the first day of the period of a day, and the first day after it.\<close>

definition year_month :: "int \<Rightarrow> int \<times> int" where
  "year_month d = (let y = year_from_day d in (y, month_of_doy (leap y) (d - day_from_year y)))"

definition first_day :: "period \<Rightarrow> int \<Rightarrow> int" where
  "first_day per d = (case per of
      DayPeriod \<Rightarrow> d
    | WeekPeriod \<Rightarrow> d - (d + 3) mod 7
    | MonthPeriod \<Rightarrow> (let (y, m) = year_month d in make_day y m 1)
    | YearPeriod \<Rightarrow> day_from_year (year_from_day d))"

definition next_day :: "period \<Rightarrow> int \<Rightarrow> int" where
  "next_day per d = (case per of
      DayPeriod \<Rightarrow> d + 1
    | WeekPeriod \<Rightarrow> first_day WeekPeriod d + 7
    | MonthPeriod \<Rightarrow> (let (y, m) = year_month d in make_day y (m + 1) 1)
    | YearPeriod \<Rightarrow> day_from_year (year_from_day d + 1))"

lemma year_month_bounds:
  assumes "year_month d = (y, m)"
  shows "0 \<le> m" "m \<le> 11" "day_from_year y + month_start (leap y) m \<le> d"
    "d < day_from_year y + month_start (leap y) (m + 1)"
  using assms month_of_doy_bounds [OF year_from_day_rest [of d]]
  by (auto simp: year_month_def Let_def)

lemma year_month_eq:
  assumes "0 \<le> m" "m \<le> 11" "day_from_year y + month_start (leap y) m \<le> d"
    "d < day_from_year y + month_start (leap y) (m + 1)"
  shows "year_month d = (y, m)"
proof -
  have r: "0 \<le> month_start (leap y) m" "month_start (leap y) (m + 1) \<le> month_start (leap y) 12"
    using month_start_range [OF assms(1,2)] by blast+
  then have "year_from_day d = y"
    using assms by (intro year_from_day_eq) (simp_all add: day_from_year_Suc split: if_splits)
  moreover have "month_of_doy (leap y) (d - day_from_year y) = m"
    using assms by (intro month_of_doy_eq) simp_all
  ultimately show ?thesis by (simp add: year_month_def)
qed

lemma make_day_next:
  assumes "0 \<le> m" "m \<le> 11"
  shows "make_day y (m + 1) 1 = day_from_year y + month_start (leap y) (m + 1)"
proof (cases "m = 11")
  case True
  then show ?thesis by (simp add: make_day_def Let_def day_from_year_Suc)
next
  case False
  with assms show ?thesis by (simp add: make_day_in_year)
qed

lemma make_day_prev:
  assumes "0 \<le> m" "m \<le> 11" "make_day y m 1 = d + 1"
  shows "year_month d = (if m = 0 then (y - 1, 11) else (y, m - 1))"
    and "make_day y (m - 1) 1 = first_day MonthPeriod d"
proof -
  have d: "d = day_from_year y + month_start (leap y) m - 1"
    using assms by (simp add: make_day_in_year)
  show ym: "year_month d = (if m = 0 then (y - 1, 11) else (y, m - 1))"
  proof (cases "m = 0")
    case True
    have "day_from_year y = day_from_year (y - 1) + month_start (leap (y - 1)) 12"
      using day_from_year_Suc [of "y - 1"] by simp
    with d True have "year_month d = (y - 1, 11)"
      by (intro year_month_eq) (cases "leap (y - 1)"; simp add: month_starts)+
    with True show ?thesis by simp
  next
    case False
    have "month_start (leap y) (m - 1) < month_start (leap y) m"
    proof -
      have "m \<in> {0..11}" using assms by simp
      also note year_months
      finally show ?thesis using False by (cases "leap y") (elim insertE emptyE; simp add: month_starts)+
    qed
    with d False assms have "year_month d = (y, m - 1)" by (intro year_month_eq) simp_all
    with False show ?thesis by simp
  qed
  show "make_day y (m - 1) 1 = first_day MonthPeriod d"
    using ym by (cases "m = 0") (simp_all add: first_day_def make_day_def Let_def)
qed

text \<open>The periods partition the days.\<close>

lemma period_bounds: "first_day per d \<le> d" "d < next_day per d"
proof -
  obtain y m where ym: "year_month d = (y, m)" by force
  have "0 \<le> (d + 3) mod 7" "(d + 3) mod 7 < 7" by simp_all
  then have "d - (d + 3) mod 7 \<le> d" "d < d - (d + 3) mod 7 + 7" by linarith+
  then show "first_day per d \<le> d" "d < next_day per d"
    using year_from_day_bounds [of d] year_month_bounds [OF ym] ym
    by (cases per; simp add: first_day_def next_day_def make_day_in_year make_day_next)+
qed

lemma same_week:
  fixes d e :: int
  assumes "d - (d + 3) mod 7 \<le> e" "e < d - (d + 3) mod 7 + 7"
  shows "e - (e + 3) mod 7 = d - (d + 3) mod 7"
proof -
  define q where "q = (d + 3) div 7"
  have d: "d + 3 = q * 7 + (d + 3) mod 7" by (simp add: q_def)
  have "(e + 3) mod 7 = e + 3 - q * 7"
    using assms d by (intro int_div_mod_unique(2) [of _ q]) linarith+
  with d show ?thesis by linarith
qed

lemma same_period:
  assumes "first_day per d \<le> e" "e < next_day per d"
  shows "first_day per e = first_day per d" "next_day per e = next_day per d"
proof -
  obtain y m where ym: "year_month d = (y, m)" by force
  note b = year_month_bounds [OF ym]
  have "first_day per e = first_day per d \<and> next_day per e = next_day per d"
  proof (cases per)
    case DayPeriod
    with assms show ?thesis by (simp add: first_day_def next_day_def)
  next
    case WeekPeriod
    with assms same_week [of d e] show ?thesis by (simp add: first_day_def next_day_def)
  next
    case MonthPeriod
    with assms ym b have "year_month e = (y, m)"
      by (intro year_month_eq) (simp_all add: first_day_def next_day_def make_day_in_year make_day_next)
    with ym MonthPeriod show ?thesis by (simp add: first_day_def next_day_def)
  next
    case YearPeriod
    with assms have "year_from_day e = year_from_day d"
      by (intro year_from_day_eq) (simp_all add: first_day_def next_day_def)
    with YearPeriod show ?thesis by (simp add: first_day_def next_day_def)
  qed
  then show "first_day per e = first_day per d" "next_day per e = next_day per d" by simp_all
qed

lemma first_day_idem [simp]: "first_day per (first_day per d) = first_day per d"
  using period_bounds [where per = per and d = d] by (intro same_period) simp_all

lemma period_length: "next_day per d \<le> first_day per d + 366"
proof -
  obtain y m where ym: "year_month d = (y, m)" by force
  note b = year_month_bounds [OF ym]
  have "month_start (leap y) (m + 1) \<le> month_start (leap y) 12" "0 \<le> month_start (leap y) m"
    using month_start_range [OF b(1,2)] by blast+
  then show ?thesis
    using b ym day_from_year_Suc [of "year_from_day d"]
    by (cases per) (simp_all add: first_day_def next_day_def make_day_in_year make_day_next split: if_splits)
qed

section \<open>The code computes these periods\<close>

lemma make_day_add: "make_day y m (k + j) = make_day y m k + j"
  by (simp add: make_day_def Let_def)

lemma parts_of_day:
  assumes "year_month d = (y, m)"
  shows "year (parts_of (d * day_ms)) = y" "month (parts_of (d * day_ms)) = m + 1"
    "day (parts_of (d * day_ms)) = d - day_from_year y - month_start (leap y) m + 1"
  using assms by (auto simp: parts_of_def Let_def year_month_def)

lemma make_day_of_parts:
  "make_day (year (parts_of (d * day_ms))) (month (parts_of (d * day_ms)) - 1) (day (parts_of (d * day_ms)) + j) = d + j"
  using make_day_parts_of [of "d * day_ms"] unfolding make_day_add by simp

text \<open>A date at midnight is the parts of its day.\<close>

lemma midnight_parts_eq:
  assumes "valid_parts p" "hour p = 0" "minute p = 0" "second p = 0"
  shows "p = parts_of (make_day (year p) (month p - 1) (day p) * day_ms)"
  using parts_of_ms_of [OF assms(1)] assms(2-4) by (simp add: ms_of_def)

lemma days_in_month_pos: "0 \<le> m \<Longrightarrow> m \<le> 11 \<Longrightarrow> 1 \<le> days_in_month y m"
proof -
  assume "0 \<le> m" "m \<le> 11"
  then have "m \<in> {0..11}" by simp
  also note year_months
  finally show ?thesis
    by (cases "leap y") (elim insertE emptyE; simp add: days_in_month_def month_starts)+
qed

lemma shiftCalendar_midnight:
  assumes "100 \<le> year (parts_of (d * day_ms))"
  shows "shiftCalendar (parts_of (d * day_ms)) per n = parts_of ((case per of
      DayPeriod \<Rightarrow> d + n | WeekPeriod \<Rightarrow> d + 7 * n
    | MonthPeriod \<Rightarrow> make_day (year (parts_of (d * day_ms))) (month (parts_of (d * day_ms)) - 1 + n) (day (parts_of (d * day_ms)))
    | YearPeriod \<Rightarrow> make_day (year (parts_of (d * day_ms)) + n) (month (parts_of (d * day_ms)) - 1) (day (parts_of (d * day_ms)))) * day_ms)"
  using date_UTC_parts [OF assms]
  unfolding shiftCalendar_def at_midnight_midnight Let_def
  by (cases per) (simp_all only: ms_of_midnight make_day_of_parts at_midnight_midnight period.case)

lemma periodStart_first_day:
  assumes "100 \<le> year (parts_of (A + off A))"
  shows "periodStart per A off = parts_of (first_day per (day_of (A + off A)) * day_ms)"
proof -
  define d where "d = day_of (A + off A)"
  have start: "at_midnight (calendarParts off A) = parts_of (d * day_ms)"
    by (simp add: calendarParts_def at_midnight_parts d_def)
  have yr: "100 \<le> year (parts_of (d * day_ms))" using assms by (simp add: d_def)
  obtain y m where ym: "year_month d = (y, m)" by force
  note b = year_month_bounds [OF ym]
  note pd = parts_of_day [OF ym]
  define q where "q = parts_of (d * day_ms)"
  have clock: "hour q = 0" "minute q = 0" "second q = 0"
    by (simp_all add: q_def parts_of_clock)
  show ?thesis
  proof (cases per)
    case DayPeriod
    then show ?thesis unfolding periodStart_def start Let_def d_def [symmetric] by (simp add: first_day_def)
  next
    case WeekPeriod
    have "((d + 4) mod 7 + 6) mod 7 = (d + 3) mod 7" using mod_add_left_eq [of "d + 4" 7 6] mod_add_self2 [of "d + 3" 7] by (simp add: add.commute)
    moreover have "weekday (d * day_ms) = (d + 4) mod 7" by (simp add: weekday_def)
    ultimately show ?thesis
      unfolding periodStart_def start Let_def d_def [symmetric] WeekPeriod period.case
      by (simp add: first_day_def date_UTC_parts [OF yr] shiftCalendar_midnight [OF yr])
  next
    case MonthPeriod
    let ?p = "q\<lparr>day := 1\<rparr>"
    have "valid_parts ?p"
      using valid_parts_of [of "d * day_ms"] days_in_month_pos [OF b(1,2), of y] pd clock
      by (simp add: valid_parts_def q_def)
    from midnight_parts_eq [OF this] clock pd
    have "?p = parts_of (make_day y m 1 * day_ms)" by (simp add: q_def)
    then show ?thesis
      unfolding periodStart_def start Let_def d_def [symmetric] MonthPeriod period.case
      by (simp add: first_day_def ym q_def)
  next
    case YearPeriod
    let ?p = "q\<lparr>day := 1, month := 1\<rparr>"
    have "valid_parts ?p" using days_in_month_pos [of 0 y] pd clock by (simp add: valid_parts_def q_def)
    from midnight_parts_eq [OF this] clock pd
    have "?p = parts_of (day_from_year y * day_ms)" by (simp add: q_def make_day_in_year)
    moreover have "y = year_from_day d" using ym by (simp add: year_month_def Let_def)
    ultimately show ?thesis
      unfolding periodStart_def start Let_def d_def [symmetric] YearPeriod period.case
      by (simp add: first_day_def q_def)
  qed
qed

lemma first_of_month: "first_day MonthPeriod f = f \<Longrightarrow> day (parts_of (f * day_ms)) = 1"
proof -
  obtain y m where ym: "year_month f = (y, m)" by force
  assume "first_day MonthPeriod f = f"
  with ym year_month_bounds [OF ym] show ?thesis
    by (simp add: first_day_def make_day_in_year parts_of_day [OF ym])
qed

lemma first_of_year:
  assumes "first_day YearPeriod f = f"
  shows "year_month f = (year_from_day f, 0)" "day (parts_of (f * day_ms)) = 1"
proof -
  have "f = day_from_year (year_from_day f)" using assms by (simp add: first_day_def)
  then show ym: "year_month f = (year_from_day f, 0)"
    by (simp add: year_month_def Let_def month_of_doy_def month_starts)
  have "day (parts_of (f * day_ms)) = f - day_from_year (year_from_day f) + 1" by (simp add: parts_of_day [OF ym])
  then show "day (parts_of (f * day_ms)) = 1" using assms by (simp add: first_day_def)
qed

lemma shift_next:
  assumes "first_day per f = f" "100 \<le> year (parts_of (f * day_ms))"
  shows "shiftCalendar (parts_of (f * day_ms)) per 1 = parts_of (next_day per f * day_ms)"
proof -
  obtain y m where ym: "year_month f = (y, m)" by force
  note pd = parts_of_day [OF ym]
  note sh = shiftCalendar_midnight [OF assms(2), of per 1]
  show ?thesis
  proof (cases per)
    case MonthPeriod
    with assms(1) first_of_month [of f] ym pd show ?thesis
      unfolding sh by (simp add: next_day_def add.commute)
  next
    case YearPeriod
    with assms(1) first_of_year [of f] parts_of_day [of f] show ?thesis
      unfolding sh by (simp add: next_day_def make_day_in_year)
  next
    case WeekPeriod
    with assms(1) show ?thesis unfolding sh by (simp add: next_day_def)
  qed (unfold sh, simp add: next_day_def)
qed

lemma shift_previous:
  assumes "first_day per f = f" "100 \<le> year (parts_of (f * day_ms))"
  shows "shiftCalendar (parts_of (f * day_ms)) per (- 1) = parts_of (first_day per (f - 1) * day_ms)"
proof -
  obtain y m where ym: "year_month f = (y, m)" by force
  note pd = parts_of_day [OF ym]
  note sh = shiftCalendar_midnight [OF assms(2), of per "- 1"]
  show ?thesis
  proof (cases per)
    case DayPeriod
    then show ?thesis unfolding sh by (simp add: first_day_def)
  next
    case WeekPeriod
    then have "(f + 3) mod 7 = 0" using assms(1) by (simp add: first_day_def)
    then have "f + 3 = (f + 3) div 7 * 7" using div_mult_mod_eq [of "f + 3" 7] by simp
    then have "(f + 2) mod 7 = 6" by (intro int_div_mod_unique(2) [of _ "(f + 3) div 7 - 1"]) (simp_all add: algebra_simps)
    moreover have "f - 1 + 3 = f + 2" by simp
    ultimately have "first_day WeekPeriod (f - 1) = f + 7 * - 1"
      by (simp only: first_day_def period.case)
    with WeekPeriod show ?thesis unfolding sh by (simp only: period.case)
  next
    case MonthPeriod
    have "make_day y m 1 = f" using assms(1) ym MonthPeriod by (simp add: first_day_def)
    with make_day_prev(2) [OF year_month_bounds(1,2) [OF ym], of y "f - 1"] first_of_month [of f] assms(1) MonthPeriod pd
    show ?thesis unfolding sh by simp
  next
    case YearPeriod
    have f: "f = day_from_year (year_from_day f)" using assms(1) YearPeriod by (simp add: first_day_def)
    have "year_from_day (f - 1) = year_from_day f - 1"
    proof (rule year_from_day_eq)
      show "day_from_year (year_from_day f - 1) \<le> f - 1"
        using f day_from_year_less [of "year_from_day f - 1"] by simp
    qed (use f in simp)
    with YearPeriod assms(1) first_of_year [of f] parts_of_day [of f] show ?thesis
      unfolding sh by (simp add: first_day_def make_day_in_year)
  qed
qed

lemma serialize_lookup [simp]:
  "map_of (serializeHistoryRange r) (js ''period'') = Some (period_name (range_period r))"
  "map_of (serializeHistoryRange r) (js ''from'') = Some (range_from r)"
  "map_of (serializeHistoryRange r) (js ''to'') = Some (range_to r)"
  by (simp_all add: serializeHistoryRange_def js_lit)

lemma isPeriod_name [simp]: "isPeriod (Some (period_name per)) = Some per"
  by (cases per) (simp_all add: isPeriod_def period_name_def js_lit)

lemma whole_ms_bounds:
  assumes "jle (Fin (of_int a)) x" "jle x (Fin (of_int b))"
  shows "a \<le> whole_ms x \<and> whole_ms x \<le> b"
proof (cases x)
  case (Fin q)
  have q: "of_int a \<le> q" "q \<le> of_int b" using assms Fin by simp_all
  show ?thesis
  proof (cases "q < 0")
    case True
    have "- b \<le> \<lfloor>- q\<rfloor>" "\<lfloor>- q\<rfloor> \<le> - a" using q by (simp_all add: le_floor_iff floor_le_iff)
    with True Fin show ?thesis by (simp add: whole_ms_def)
  next
    case False
    have "a \<le> \<lfloor>q\<rfloor>" "\<lfloor>q\<rfloor> \<le> b" using q by (simp_all add: le_floor_iff floor_le_iff)
    with False Fin show ?thesis by (simp add: whole_ms_def)
  qed
qed (use assms in auto)

lemma midpoint_between:
  assumes "\<bar>a\<bar> \<le> 4503599627370496" "\<bar>b\<bar> \<le> 4503599627370496" "a + 2 \<le> b"
  shows "a \<le> midpoint a b" "midpoint a b < b"
proof -
  have n: "num_of_int a = Fin (of_int a)" "num_of_int b = Fin (of_int b)"
    using assms by (auto simp: num_of_int_def intro!: fl_int)
  have d: "jsub (num_of_int b) (num_of_int a) = Fin (of_int (b - a))"
    using assms unfolding n by (intro jsub_int) (simp add: exact_int_def)
  define h where "h = jdiv (Fin (of_int (b - a))) (Fin 2)"
  have h: "h = fl (of_int (b - a) / 2)" by (simp add: h_def)
  have z: "fl 0 = Fin 0" and m: "fl (of_int (b - a - 1)) = Fin (of_int (b - a - 1))"
    using assms by (simp, intro fl_int) linarith
  have lo: "jle (Fin 0) h" unfolding h using assms(3) by (intro fl_nonneg) simp
  have "rat_of_int (b - a) / 2 \<le> of_int (b - a - 1)" using assms(3) by (simp add: field_simps)
  then have hi: "jle h (Fin (of_int (b - a - 1)))" unfolding h m [symmetric] by (rule fl_mono)
  have ends: "jadd (Fin (of_int a)) (Fin 0) = Fin (of_int a)"
    "jadd (Fin (of_int a)) (Fin (of_int (b - a - 1))) = Fin (of_int (b - 1))"
    using n(1) jadd_int [of a "b - a - 1"] assms by (simp_all add: num_of_int_def exact_int_def)
  obtain q where q: "h = Fin q" using lo hi by (cases h) simp_all
  have sum: "jle (Fin (of_int a)) (jadd (Fin (of_int a)) h)" "jle (jadd (Fin (of_int a)) h) (Fin (of_int (b - 1)))"
    using jadd_mono [OF jle_refl lo, of "Fin (of_int a)"] jadd_mono [OF jle_refl hi, of "Fin (of_int a)"] ends q
    by simp_all
  have "midpoint a b = whole_ms (jadd (Fin (of_int a)) h)"
    unfolding midpoint_def d h_def by (simp only: n)
  with whole_ms_bounds [OF sum] show "a \<le> midpoint a b" "midpoint a b < b" by simp_all
qed

section \<open>The range of a period\<close>

text \<open>The local day of an instant, and the bounds on its year that keep every date in range.\<close>

definition local_day :: "(int \<Rightarrow> int) \<Rightarrow> int \<Rightarrow> int" where
  "local_day off t = day_of (t + off t)"

definition plain_year :: "(int \<Rightarrow> int) \<Rightarrow> int \<Rightarrow> bool" where
  "plain_year off t \<longleftrightarrow> 1000 \<le> year_from_day (local_day off t) \<and> year_from_day (local_day off t) \<le> 9000"

text \<open>The days the code looks at around an instant all have midnights it finds.\<close>

definition plain_time :: "(int \<Rightarrow> int) \<Rightarrow> int \<Rightarrow> bool" where
  "plain_time off t \<longleftrightarrow> plain_year off t \<and> (\<forall>d. \<bar>d - local_day off t\<bar> \<le> 366 * 3 \<longrightarrow> clear_day off d)"

lemma near_year:
  assumes "\<bar>d - e\<bar> \<le> 366 * 3"
  shows "\<bar>year_from_day d - year_from_day e\<bar> \<le> 6"
proof -
  have step: "year_from_day v \<le> year_from_day u + 6" if "v \<le> u + 366 * 3" for u v
    using year_from_day_near [of "u + 366" u] year_from_day_near [of "u + 366 * 2" "u + 366"]
      year_from_day_near [of v "u + 366 * 2"] that by simp
  show ?thesis using step [of e d] step [of d e] assms by linarith
qed

context time_zone
begin

lemma modern_midnight: "102 \<le> year_from_day d \<Longrightarrow> modern (d * day_ms)"
  by (simp add: modern_def)

lemma getPeriodRange_days:
  assumes "100 \<le> year_from_day (first_day per (local_day off A))" "100 \<le> year_from_day (local_day off A)"
  defines "f \<equiv> first_day per (local_day off A)"
  shows "getPeriodRange per A off =
    \<lparr>range_from = iso_string (midnight f), range_period = per,
     previousFrom = iso_string (midnight (first_day per (f - 1))), previousTo = iso_string (midnight f),
     range_resolution = PERIOD_RESOLUTION per, range_to = iso_string (midnight (next_day per f))\<rparr>"
proof -
  have st: "periodStart per A off = parts_of (f * day_ms)"
    using assms(2) by (simp add: periodStart_first_day f_def local_day_def)
  have f: "first_day per f = f" "100 \<le> year (parts_of (f * day_ms))" using assms(1) by (simp_all add: f_def)
  show ?thesis
    by (simp only: getPeriodRange_def Let_def st shift_next [OF f] shift_previous [OF f])
qed

text \<open>The days the range of an instant speaks of are near its day, and so are their years.\<close>

lemma range_near:
  fixes per :: period and A :: int
  defines "f \<equiv> first_day per (local_day off A)"
  shows "\<bar>f - local_day off A\<bar> \<le> 366 * 3" "\<bar>next_day per f - local_day off A\<bar> \<le> 366 * 3"
    "\<bar>first_day per (f - 1) - local_day off A\<bar> \<le> 366 * 3" "\<bar>f - 1 - local_day off A\<bar> \<le> 366 * 3"
proof -
  have ff: "first_day per f = f" by (simp add: f_def)
  show "\<bar>f - local_day off A\<bar> \<le> 366 * 3" "\<bar>next_day per f - local_day off A\<bar> \<le> 366 * 3"
    "\<bar>first_day per (f - 1) - local_day off A\<bar> \<le> 366 * 3" "\<bar>f - 1 - local_day off A\<bar> \<le> 366 * 3"
    using period_bounds [where per = per and d = "local_day off A"] period_length [of per "local_day off A"]
      period_bounds [where per = per and d = "f - 1"] period_length [of per "f - 1"]
      period_bounds [where per = per and d = f] period_length [of per f] ff
    unfolding f_def [symmetric] by linarith+
qed

lemma range_years:
  fixes per :: period
  assumes "plain_time off A"
  defines "f \<equiv> first_day per (local_day off A)"
  shows "994 \<le> year_from_day f" "year_from_day f \<le> 9006"
    "994 \<le> year_from_day (next_day per f)" "year_from_day (next_day per f) \<le> 9006"
    "994 \<le> year_from_day (first_day per (f - 1))" "year_from_day (first_day per (f - 1)) \<le> 9006"
    "994 \<le> year_from_day (f - 1)"
proof -
  note d = range_near [of per A, folded f_def]
  from near_year [OF d(1)] near_year [OF d(2)] near_year [OF d(3)] near_year [OF d(4)] assms(1)
  show "994 \<le> year_from_day f" "year_from_day f \<le> 9006"
    "994 \<le> year_from_day (next_day per f)" "year_from_day (next_day per f) \<le> 9006"
    "994 \<le> year_from_day (first_day per (f - 1))" "year_from_day (first_day per (f - 1)) \<le> 9006"
    "994 \<le> year_from_day (f - 1)"
    unfolding plain_time_def plain_year_def by linarith+
qed

lemma range_fit:
  fixes per :: period
  assumes "plain_time off A"
  defines "f \<equiv> first_day per (local_day off A)"
  shows "fit_day off f" "fit_day off (next_day per f)" "fit_day off (f - 1)" "fit_day off (first_day per (f - 1))"
proof -
  note y = range_years [OF assms(1), of per, folded f_def]
  have fit: "fit_day off d" if "\<bar>d - local_day off A\<bar> \<le> 366 * 3" "994 \<le> year_from_day d" for d
    using assms(1) that modern_midnight [of d] by (simp add: fit_day_def plain_time_def)
  show "fit_day off f" "fit_day off (next_day per f)" "fit_day off (f - 1)" "fit_day off (first_day per (f - 1))"
    using range_near [of per A, folded f_def] y by (simp_all only: fit)
qed

lemma midnight_near: "fit_day off d \<Longrightarrow> \<bar>day_of (midnight d) - d\<bar> \<le> 1"
proof -
  assume "fit_day off d"
  then have "(d - 1) * day_ms \<le> midnight d" "midnight d \<le> (d + 1) * day_ms"
    using midnight_back [of d] by (simp_all add: left_diff_distrib distrib_right abs_less_iff)
  from this [THEN day_of_mono] show ?thesis unfolding day_of_midnight by linarith
qed

lemma midnight_iso:
  assumes "fit_day off d" "994 \<le> year_from_day d" "year_from_day d \<le> 9006"
  shows "iso_range (midnight d)"
proof -
  have "\<bar>day_of (midnight d) - d\<bar> \<le> 366 * 3" using midnight_near [OF assms(1)] by force
  from near_year [OF this] assms show ?thesis
    unfolding iso_range_def year_parts_of by (intro conjI) linarith+
qed

lemma range_period_of:
  fixes per :: period
  assumes "plain_time off A"
  defines "f \<equiv> first_day per (local_day off A)"
  shows "midnight f \<le> t \<and> t < midnight (next_day per f) \<longleftrightarrow> f \<le> local_day off t \<and> local_day off t < next_day per f"
  using midnight_day [OF range_fit(1) [OF assms(1), of per], of t] midnight_day [OF range_fit(2) [OF assms(1), of per], of t]
  by (auto simp: local_day_def f_def)

text \<open>Every instant of the range has the same range.\<close>

lemma same_range:
  fixes per :: period
  assumes "plain_time off A"
  defines "f \<equiv> first_day per (local_day off A)"
  assumes t: "midnight f \<le> t" "t < midnight (next_day per f)"
  shows "getPeriodRange per t off = getPeriodRange per A off"
proof -
  have in_per: "f \<le> local_day off t" "local_day off t < next_day per f"
    using range_period_of [OF assms(1), of per t] t by (simp_all add: f_def)
  have nf: "next_day per f = next_day per (local_day off A)"
    using same_period(2) [of per "local_day off A" f] period_bounds [where per = per and d = f]
      period_bounds [where per = per and d = "local_day off A"] by (simp add: f_def)
  have ft: "first_day per (local_day off t) = f"
    using same_period(1) [of per "local_day off A" "local_day off t"] in_per nf by (simp add: f_def)
  have "year_from_day f \<le> year_from_day (local_day off t)" using in_per(1) by (rule year_from_day_mono)
  then show ?thesis
    using getPeriodRange_days [of per t] getPeriodRange_days [of per A]
      range_years(1) [OF assms(1), of per] assms(1) ft
    by (simp add: f_def plain_time_def plain_year_def)
qed

end

text \<open>The range survives the address bar, whatever the anchor of the visit.\<close>

context time_zone
begin

lemma iso_range_small: "iso_range t \<Longrightarrow> \<bar>t\<bar> \<le> 4503599627370496"
proof -
  assume "iso_range t"
  then have y: "0 \<le> year_from_day (day_of t)" "year_from_day (day_of t) \<le> 9999" by (simp_all add: iso_range_def)
  then have "day_from_year 0 \<le> day_from_year (year_from_day (day_of t))"
    "day_from_year (year_from_day (day_of t) + 1) \<le> day_from_year 10000"
    by (intro day_from_year_mono; simp)+
  moreover have "day_from_year 0 = -719528" "day_from_year 10000 = 2932897"
    by (simp_all add: day_from_year_def)
  ultimately have "-719528 \<le> day_of t" "day_of t < 2932897" using year_from_day_bounds [of "day_of t"] by linarith+
  moreover have "day_of t * day_ms \<le> t" "t < day_of t * day_ms + day_ms"
    using div_bounds [of day_ms t] by (simp_all add: day_of_def mult.commute)
  ultimately show ?thesis by (simp add: abs_le_iff)
qed

lemma parse_serialize:
  fixes per :: period
  assumes "date_parser dparse" "plain_time off A"
  shows "parseHistorySearch dparse (serializeHistoryRange (getPeriodRange per A off)) anchor off = getPeriodRange per A off"
proof -
  define f where "f = first_day per (local_day off A)"
  define a b where "a = midnight f" and "b = midnight (next_day per f)"
  note y = range_years [OF assms(2), of per, folded f_def]
  have yA: "100 \<le> year_from_day (local_day off A)" using assms(2) by (simp add: plain_time_def plain_year_def)
  have r: "range_from (getPeriodRange per A off) = iso_string a" "range_to (getPeriodRange per A off) = iso_string b"
    "range_period (getPeriodRange per A off) = per"
    using getPeriodRange_days [of per A] y(1) yA by (simp_all add: f_def a_def b_def)
  note m = range_fit [OF assms(2), of per, folded f_def]
  have iso: "iso_range a" "iso_range b" unfolding a_def b_def using y m by (intro midnight_iso; simp)+
  have "local_day off a = f" by (simp add: a_def local_day_def midnight_local [OF m(1)])
  then have "f \<le> local_day off a \<and> local_day off a < next_day per f"
    using period_bounds [where per = per and d = f] by simp
  then have "a < b" using range_period_of [OF assms(2), of per a] unfolding f_def [symmetric] b_def by blast
  moreover have "a mod 1000 = 0" "b mod 1000 = 0" using m by (simp_all add: a_def b_def midnight_whole)
  ultimately have gap: "a + 2 \<le> b"
  proof -
    assume ab: "a < b" "a mod 1000 = 0" "b mod 1000 = 0"
    have "(b - a) mod 1000 = 0" using ab by (simp add: mod_diff_eq [symmetric])
    then have "b - a \<noteq> 1" by auto
    with ab(1) show ?thesis by linarith
  qed
  have mid: "a \<le> midpoint a b" "midpoint a b < b"
    using iso_range_small iso gap by (intro midpoint_between; blast)+
  have same: "getPeriodRange per (midpoint a b) off = getPeriodRange per A off"
    using same_range [OF assms(2), of per "midpoint a b"] mid unfolding f_def [symmetric] a_def b_def by blast
  have day: "b - a \<le> 366 * 24 * 60 * 60000" if "PERIOD_RESOLUTION per = Minutely"
  proof -
    have "per = DayPeriod" using that by (cases per) simp_all
    then have "next_day per f * day_ms = f * day_ms + day_ms" by (simp add: next_day_def distrib_right)
    then show ?thesis using midnight_back [OF m(1)] midnight_back [OF m(2)] unfolding a_def b_def by linarith
  qed
  have parse: "dparse (iso_string a) = Some a" "dparse (iso_string b) = Some b"
    using assms(1) iso by (simp_all add: date_parser_def)
  have ne: "iso_string t \<noteq> []" for t by (simp add: iso_string_def Let_def)
  show ?thesis
    using same day gap by (auto simp: parseHistorySearch_def r Let_def ne parse)
qed

lemma range_spec:
  fixes per :: period
  assumes "plain_time off A"
  shows "\<exists>a b. range_from (getPeriodRange per A off) = iso_string a \<and> range_to (getPeriodRange per A off) = iso_string b
    \<and> a \<le> A \<and> A < b
    \<and> (\<forall>t. a \<le> t \<and> t < b \<longleftrightarrow> first_day per (local_day off A) \<le> local_day off t \<and> local_day off t < next_day per (local_day off A))
    \<and> (\<forall>t. t + off t = first_day per (local_day off A) * day_ms \<longrightarrow> a + off a = first_day per (local_day off A) * day_ms)
    \<and> (\<forall>t. t + off t = next_day per (local_day off A) * day_ms \<longrightarrow> b + off b = next_day per (local_day off A) * day_ms)
    \<and> (\<forall>t. a \<le> t \<and> t < b \<longrightarrow> getPeriodRange per t off = getPeriodRange per A off)
    \<and> previousTo (getPeriodRange per A off) = iso_string a
    \<and> previousFrom (getPeriodRange per A off) = range_from (getPeriodRange per (a - 1) off)"
proof -
  define f where "f = first_day per (local_day off A)"
  define a b where "a = midnight f" and "b = midnight (next_day per f)"
  note y = range_years [OF assms, of per, folded f_def]
  note m = range_fit [OF assms, of per, folded f_def]
  have yA: "100 \<le> year_from_day (local_day off A)" using assms by (simp add: plain_time_def plain_year_def)
  have range: "getPeriodRange per A off =
    \<lparr>range_from = iso_string a, range_period = per,
     previousFrom = iso_string (midnight (first_day per (f - 1))), previousTo = iso_string a,
     range_resolution = PERIOD_RESOLUTION per, range_to = iso_string b\<rparr>"
    using getPeriodRange_days [of per A] y(1) yA by (simp add: f_def a_def b_def)
  note pb = period_bounds [where per = per and d = "local_day off A", folded f_def]
  have nf: "next_day per f = next_day per (local_day off A)"
    using same_period(2) [of per "local_day off A" f] pb by (simp add: f_def)
  have days: "a \<le> t \<and> t < b \<longleftrightarrow> f \<le> local_day off t \<and> local_day off t < next_day per f" for t
    using range_period_of [OF assms, of per t] unfolding f_def [symmetric] a_def b_def .
  have inside: "a \<le> A" "A < b" using days [of A] pb nf by simp_all
  have exact: "t + off t = f * day_ms \<Longrightarrow> a + off a = f * day_ms"
    "t + off t = next_day per f * day_ms \<Longrightarrow> b + off b = next_day per f * day_ms" for t
    unfolding a_def b_def by (erule midnight_exact [OF m(1)], erule midnight_exact [OF m(2)])
  have same: "getPeriodRange per t off = getPeriodRange per A off" if "a \<le> t \<and> t < b" for t
    using same_range [OF assms, of per t] that unfolding f_def [symmetric] a_def b_def by blast
  have "midnight (f - 1) < a"
    using midnight_day [OF m(1), of "midnight (f - 1)"] midnight_local [OF m(3)] unfolding a_def by simp
  then have "f - 1 \<le> local_day off (a - 1)" using midnight_day [OF m(3), of "a - 1"] by (simp add: local_day_def)
  moreover have "\<not> f \<le> local_day off (a - 1)"
    using midnight_day [OF m(1), of "a - 1"] by (simp add: local_day_def a_def)
  ultimately have before: "local_day off (a - 1) = f - 1" by linarith
  have "range_from (getPeriodRange per (a - 1) off) = iso_string (midnight (first_day per (f - 1)))"
    using getPeriodRange_days [of per "a - 1"] y by (simp add: before)
  with inside exact same nf days show ?thesis
    unfolding f_def [symmetric] by (intro exI [of _ a] exI [of _ b]) (auto simp: range)
qed

end

section \<open>Zones\<close>

text \<open>
  Sao Paulo, the zone the program defaults to, with its last years of daylight saving time, which began
  by skipping midnight; New York around its changes of March and November 2024; and Beirut, which
  put its clocks forward at the midnight of 31 March 2024.
\<close>

definition sao_paulo :: "int \<Rightarrow> int" where
  "sao_paulo t = (if t < 1508036400000 then - 10800000 else if t < 1518919200000 then - 7200000
     else if t < 1541300400000 then - 10800000 else if t < 1550368800000 then - 7200000 else - 10800000)"

definition new_york :: "int \<Rightarrow> int" where
  "new_york t = (if t < 1710054000000 then - 18000000 else if t < 1730613600000 then - 14400000 else - 18000000)"

definition beirut :: "int \<Rightarrow> int" where
  "beirut t = (if t < 1711836000000 then 7200000 else 10800000)"

interpretation sao_paulo: time_zone sao_paulo
  by unfold_locales (simp_all add: sao_paulo_def)

interpretation new_york: time_zone new_york
  by unfold_locales (simp_all add: new_york_def)

interpretation beirut: time_zone beirut
  by unfold_locales (simp_all add: beirut_def)

text \<open>Days without a change nearby, with a change between midnights, and with one that skips a midnight.\<close>

lemma clear_dayI:
  assumes "\<And>t. \<bar>t - d * day_ms\<bar> \<le> 3 * day_ms \<Longrightarrow> off t = (if t < T then a else b)" "\<bar>a - b\<bar> < day_ms"
    and "k * day_ms < min (T + a) (T + b) \<or> k * day_ms = min (T + a) (T + b) \<and> k * day_ms < T"
    and "max (T + a) (T + b) \<le> (k + 1) * day_ms"
  shows "clear_day off d"
proof -
  have "d * day_ms = min (T + a) (T + b) \<and> d * day_ms < T"
    if in_change: "min (T + a) (T + b) \<le> d * day_ms" "d * day_ms < max (T + a) (T + b)"
  proof -
    have "d * day_ms < (k + 1) * day_ms" "k * day_ms \<le> d * day_ms" using in_change assms(3,4) by linarith+
    then have "d = k" by (simp only: mult_less_cancel_right mult_le_cancel_right) auto
    with in_change assms(3) show ?thesis by linarith
  qed
  with assms(1,2) show ?thesis unfolding clear_day_def by blast
qed

lemma clear_constant: "(\<And>t. \<bar>t - d * day_ms\<bar> \<le> 3 * day_ms \<Longrightarrow> off t = a) \<Longrightarrow> clear_day off d"
  unfolding clear_day_def by (intro exI [of _ 0] exI [of _ a]) simp

lemma sao_paulo_clear: "clear_day sao_paulo d"
proof -
  consider "d \<le> 17500" | "17500 < d" "d \<le> 17700" | "17700 < d" "d \<le> 17900" | "17900 < d" by linarith
  then show ?thesis
  proof cases
    case 1
    then show ?thesis
      by (intro clear_dayI [where T = 1508036400000 and a = "- 10800000" and b = "- 7200000" and k = 17454])
        (auto simp: sao_paulo_def abs_le_iff)
  next
    case 2
    then show ?thesis
      by (intro clear_dayI [where T = 1518919200000 and a = "- 7200000" and b = "- 10800000" and k = 17579])
        (auto simp: sao_paulo_def abs_le_iff)
  next
    case 3
    then show ?thesis
      by (intro clear_dayI [where T = 1541300400000 and a = "- 10800000" and b = "- 7200000" and k = 17839])
        (auto simp: sao_paulo_def abs_le_iff)
  next
    case 4
    then show ?thesis
      by (intro clear_dayI [where T = 1550368800000 and a = "- 7200000" and b = "- 10800000" and k = 17943])
        (auto simp: sao_paulo_def abs_le_iff)
  qed
qed

lemma new_york_clear: "clear_day new_york d"
proof (cases "d \<le> 19900")
  case True
  then show ?thesis
    by (intro clear_dayI [where T = 1710054000000 and a = "- 18000000" and b = "- 14400000" and k = 19792])
      (auto simp: new_york_def abs_le_iff)
next
  case False
  then show ?thesis
    by (intro clear_dayI [where T = 1730613600000 and a = "- 14400000" and b = "- 18000000" and k = 20030])
      (auto simp: new_york_def abs_le_iff)
qed

section \<open>Properties of the periods\<close>

text \<open>
  C26. The search for the instant of a local time: around one change of offset, from \<open>a\<close> to \<open>b\<close> at
  the instant \<open>T\<close>, three passes find an instant whose local time is exactly the desired one,
  whenever it exists; in the gap of a forward change they overshoot by the length of the gap, later
  where the clock change lies after the desired time read as UTC, and earlier otherwise.
\<close>

theorem zonedCalendarToDate_local:
  assumes "\<And>t. \<bar>t - D\<bar> \<le> 2 * day_ms \<Longrightarrow> off t = (if t < T then a else b)"
    and "\<And>t. off t mod 1000 = 0" "\<And>t. \<bar>off t\<bar> < day_ms"
    and "D mod 1000 = 0" "modern D"
  shows "calendarParts off (zonedCalendarToDate off (parts_of D)) =
    parts_of (if T + a \<le> D \<and> D < T + b then (if D < T then D + (b - a) else D - (b - a)) else D)"
proof -
  have "100 \<le> year (parts_of D)" using assms(5) by (simp add: modern_def)
  moreover have "ms_of (parts_of D) = D" using assms(4) by (simp add: ms_of_parts_of)
  ultimately have "date_UTC (normalizeCalendar (parts_of D)) = D"
    by (simp add: normalizeCalendar_def date_UTC_parts)
  then have F: "zonedCalendarToDate off (parts_of D) = D - off (D - off (D - off D))"
    using zoned_three_passes [OF assms] by (simp add: zonedCalendarToDate_def)
  have small: "- day_ms < off t" "off t < day_ms" for t using assms(3) [of t] by linarith+
  have val: "off t = (if t < T then a else b)" if "D - 2 * day_ms \<le> t" "t \<le> D + 2 * day_ms" for t
    using that by (intro assms(1)) linarith
  have at_D: "off D = (if D < T then a else b)" by (intro val) simp_all
  have nxt: "off (D - off u) = (if D - off u < T then a else b)" for u
    using small [of u] by (intro val) linarith+
  define c1 where "c1 = D - off D"
  define c2 where "c2 = D - off c1"
  define c3 where "c3 = D - off c2"
  have steps: "off c1 = (if c1 < T then a else b)" "off c2 = (if c2 < T then a else b)"
    "off c3 = (if c3 < T then a else b)"
    unfolding c3_def c2_def c1_def by (rule nxt)+
  have "c3 + off c3 = (if T + a \<le> D \<and> D < T + b then (if D < T then D + (b - a) else D - (b - a)) else D)"
    using steps at_D c1_def c2_def c3_def by (simp split: if_splits)
  then show ?thesis unfolding F calendarParts_def c1_def c2_def c3_def by (simp only:)
qed

text \<open>The range of 31 March 2024 in Beirut begins at 23:00 of the day before.\<close>

lemma zonedCalendarToDate_local_witness:
  "calendarParts beirut (zonedCalendarToDate beirut \<lparr>year = 2024, month = 3, day = 31, hour = 0, minute = 0, second = 0\<rparr>)
    = \<lparr>year = 2024, month = 3, day = 30, hour = 23, minute = 0, second = 0\<rparr>"
proof -
  define D :: int where "D = 1711843200000"
  have D: "parts_of D = \<lparr>year = 2024, month = 3, day = 31, hour = 0, minute = 0, second = 0\<rparr>"
    "parts_of (D - 3600000) = \<lparr>year = 2024, month = 3, day = 30, hour = 23, minute = 0, second = 0\<rparr>"
    "modern D" "D mod 1000 = 0"
    unfolding D_def by code_simp+
  have "calendarParts beirut (zonedCalendarToDate beirut (parts_of D)) =
    parts_of (if 1711836000000 + 7200000 \<le> D \<and> D < 1711836000000 + 10800000
      then (if D < 1711836000000 then D + (10800000 - 7200000) else D - (10800000 - 7200000)) else D)"
    by (rule zonedCalendarToDate_local) (simp_all add: beirut_def D)
  then show ?thesis by (simp add: D(1) D_def [symmetric] del: One_nat_def) (simp add: D(2) [symmetric] D_def)
qed

text \<open>
  C5. The range of a period is exactly the time of its days: in a zone whose clocks, near the anchor,
  change at most once in three days and by less than a day, and skip or repeat no midnight unless they
  do so from that midnight on and west of UTC, the range contains its anchor and holds exactly the
  instants whose local day is in the period; it begins and ends at local midnights where these exist
  and is the range of each of its instants, so that the ranges partition time; and the previous range
  is the range of the instant just before.
\<close>

theorem getPeriodRange_partition:
  assumes "time_zone off" "plain_time off A"
  shows "\<exists>a b. range_from (getPeriodRange per A off) = iso_string a \<and> range_to (getPeriodRange per A off) = iso_string b
    \<and> a \<le> A \<and> A < b
    \<and> (\<forall>t. a \<le> t \<and> t < b \<longleftrightarrow> first_day per (local_day off A) \<le> local_day off t \<and> local_day off t < next_day per (local_day off A))
    \<and> (\<forall>t. t + off t = first_day per (local_day off A) * day_ms \<longrightarrow> a + off a = first_day per (local_day off A) * day_ms)
    \<and> (\<forall>t. t + off t = next_day per (local_day off A) * day_ms \<longrightarrow> b + off b = next_day per (local_day off A) * day_ms)
    \<and> (\<forall>t. a \<le> t \<and> t < b \<longrightarrow> getPeriodRange per t off = getPeriodRange per A off)
    \<and> previousTo (getPeriodRange per A off) = iso_string a
    \<and> previousFrom (getPeriodRange per A off) = range_from (getPeriodRange per (a - 1) off)"
  using assms by (rule time_zone.range_spec)

text \<open>15 October 2017 in Sao Paulo, a day without a midnight, seen from its noon: it begins at 1:00 and has one range.\<close>

lemma getPeriodRange_partition_witness:
  "range_from (getPeriodRange DayPeriod 1508076000000 sao_paulo) = iso_string 1508036400000
    \<and> getPeriodRange DayPeriod 1508036400000 sao_paulo = getPeriodRange DayPeriod 1508076000000 sao_paulo"
proof -
  have "plain_year sao_paulo 1508076000000" by code_simp
  then have y: "plain_time sao_paulo 1508076000000" by (simp add: plain_time_def sao_paulo_clear)
  have days: "first_day DayPeriod (local_day sao_paulo 1508076000000) = 17454"
    "next_day DayPeriod (local_day sao_paulo 1508076000000) = 17455" by code_simp+
  obtain a b where ab: "range_from (getPeriodRange DayPeriod 1508076000000 sao_paulo) = iso_string a"
    "\<And>t. a \<le> t \<and> t < b \<longleftrightarrow> 17454 \<le> local_day sao_paulo t \<and> local_day sao_paulo t < 17455"
    "\<And>t. a \<le> t \<and> t < b \<Longrightarrow> getPeriodRange DayPeriod t sao_paulo = getPeriodRange DayPeriod 1508076000000 sao_paulo"
    using getPeriodRange_partition [OF sao_paulo.time_zone_axioms y, of DayPeriod] unfolding days by blast
  have near: "local_day sao_paulo 1508036400000 = 17454" "local_day sao_paulo 1508036399999 = 17453" by code_simp+
  then have "a \<le> 1508036400000 \<and> 1508036400000 < b" "\<not> (a \<le> 1508036399999 \<and> 1508036399999 < b)" unfolding ab(2) by simp_all
  then have "a = 1508036400000 \<and> (a \<le> 1508036400000 \<and> 1508036400000 < b)" by linarith
  with ab(1,3) show ?thesis by blast
qed

text \<open>
  The range survives the address bar: parsing the serialized range of a period, on any later
  visit, gives the same range, when \<open>Date.parse\<close> reads what \<open>toISOString\<close> wrote.
\<close>

lemma parseHistorySearch_serialize:
  assumes "date_parser dparse" "time_zone off" "plain_time off A"
  shows "parseHistorySearch dparse (serializeHistoryRange (getPeriodRange per A off)) anchor off = getPeriodRange per A off"
  using assms(2,1,3) by (rule time_zone.parse_serialize)

end
