(* ===== verification/HistoryView.thy ===== *)
theory HistoryView
  imports HistoryRange
begin

text \<open>
  What the history page shows of the points of a period, the other half of
  \<open>web/src/features/history/history-model.ts\<close>: chart segments and gaps, the summary of a period,
  and the rows of the chart with the previous period laid over the current one; and the
  decisions of \<open>SummaryCards.tsx\<close>.

  Parameters: \<open>dparse\<close> (\<open>Date.parse\<close>) and the zone's offset \<open>off\<close>. Dates, powers and energies are
  JavaScript numbers with their rounding, so an unreadable date is \<open>NaN\<close> in every computation.
  Sorting is stable; where a date is unreadable the order of \<open>sort\<close> is up to the engine, and such a
  point is placed at time zero here.
\<close>

section \<open>Points\<close>

record minute_point =
  mp_at :: jsstring
  powerW :: jsnum
  sampleIntervalMinutes :: "jsnum option"

record aggregate_point =
  ap_at :: jsstring
  coveragePct :: jsnum
  energyWh :: jsnum
  peakPowerW :: jsnum
  productiveMinutes :: "jsnum option"

datatype history_point = Minute minute_point | Aggregate aggregate_point

fun point_at :: "history_point \<Rightarrow> jsstring" where
  "point_at (Minute p) = mp_at p"
| "point_at (Aggregate p) = ap_at p"

fun isMinutePoint :: "history_point \<Rightarrow> bool" where
  "isMinutePoint (Minute _) = True"
| "isMinutePoint (Aggregate _) = False"

text \<open>A chart point has the fields of a minute point; an aggregate shows its peak.\<close>

fun toChartPoint :: "history_point \<Rightarrow> minute_point" where
  "toChartPoint (Minute p) = p"
| "toChartPoint (Aggregate p) = \<lparr>mp_at = ap_at p, powerW = peakPowerW p, sampleIntervalMinutes = None\<rparr>"

definition date_num :: "(jsstring \<Rightarrow> int option) \<Rightarrow> jsstring \<Rightarrow> jsnum" where
  "date_num dparse s = (case dparse s of None \<Rightarrow> NaN | Some t \<Rightarrow> num_of_int t)"

definition elapsed :: "(jsstring \<Rightarrow> int option) \<Rightarrow> jsstring \<Rightarrow> jsstring \<Rightarrow> jsnum" where
  "elapsed dparse previous stamp = jsub (date_num dparse stamp) (date_num dparse previous)"

fun RESOLUTION_GAP_MS :: "resolution \<Rightarrow> jsnum" where
  "RESOLUTION_GAP_MS Minutely = Fin 90000"
| "RESOLUTION_GAP_MS Hourly = Fin (90 * 60000)"
| "RESOLUTION_GAP_MS Daily = Fin (36 * 60 * 60000)"
| "RESOLUTION_GAP_MS Monthly = Fin (46 * 24 * 60 * 60000)"

section \<open>Segments\<close>

text \<open>\<open>segments.at(-1)?.push(point)\<close>.\<close>

definition push_last :: "'a \<Rightarrow> 'a list list \<Rightarrow> 'a list list" where
  "push_last p segments = (if segments = [] then [] else butlast segments @ [last segments @ [p]])"

text \<open>The loop over the points after the first: \<open>split\<close> decides whether a gap lies between two.\<close>

fun segment_loop :: "('a \<Rightarrow> 'a \<Rightarrow> bool) \<Rightarrow> 'a list list \<Rightarrow> 'a \<Rightarrow> 'a list \<Rightarrow> 'a list list" where
  "segment_loop split segments previous [] = segments"
| "segment_loop split segments previous (p # ps) =
     segment_loop split (push_last p (if split previous p then segments @ [[]] else segments)) p ps"

definition toChartSegments :: "(jsstring \<Rightarrow> int option) \<Rightarrow> ('a \<Rightarrow> jsstring) \<Rightarrow> jsnum \<Rightarrow> 'a list \<Rightarrow> 'a list list" where
  "toChartSegments dparse stamp maxGapMs points = (case points of
      [] \<Rightarrow> []
    | p # ps \<Rightarrow> segment_loop (\<lambda>previous q. jlt maxGapMs (elapsed dparse (stamp previous) (stamp q))) [[p]] p ps)"

definition cloudSequence :: "minute_point \<Rightarrow> minute_point \<Rightarrow> bool" where
  "cloudSequence previous p \<longleftrightarrow>
     sampleIntervalMinutes previous = Some (Fin 5) \<and> sampleIntervalMinutes p = Some (Fin 5)"

definition adaptive_gap :: "(jsstring \<Rightarrow> int option) \<Rightarrow> resolution \<Rightarrow> minute_point \<Rightarrow> minute_point \<Rightarrow> bool" where
  "adaptive_gap dparse res previous p =
     jlt (if cloudSequence previous p \<and> res = Minutely then Fin (6 * 60000) else RESOLUTION_GAP_MS res)
       (elapsed dparse (mp_at previous) (mp_at p))"

definition toAdaptiveChartSegments ::
    "(jsstring \<Rightarrow> int option) \<Rightarrow> minute_point list \<Rightarrow> resolution \<Rightarrow> minute_point list list" where
  "toAdaptiveChartSegments dparse points res = (case points of
      [] \<Rightarrow> []
    | p # ps \<Rightarrow> segment_loop (adaptive_gap dparse res) [[p]] p ps)"

section \<open>Summaries\<close>

record history_summary =
  sum_coverage :: "jsnum option"
  sum_energy :: jsnum
  sum_peak :: jsnum
  sum_productive :: jsnum

record summary_window =
  window_from :: jsstring
  window_to :: jsstring

definition max_of :: "jsnum list \<Rightarrow> jsnum" where
  "max_of ns = foldl jmax (Fin 0) ns"

fun minute_loop ::
    "(jsstring \<Rightarrow> int option) \<Rightarrow> minute_point \<Rightarrow> minute_point list \<Rightarrow> jsnum \<times> jsnum \<Rightarrow> jsnum \<times> jsnum" where
  "minute_loop dparse previous [] acc = acc"
| "minute_loop dparse previous (p # ps) (energy, minutes) =
     (let elapsedMs = elapsed dparse (mp_at previous) (mp_at p);
          maximumGap = (if cloudSequence previous p then Fin (6 * 60000) else RESOLUTION_GAP_MS Minutely) in
      minute_loop dparse p ps
        (if jle elapsedMs (Fin 0) \<or> jlt maximumGap elapsedMs then (energy, minutes)
         else (jadd energy (jdiv (jmul (jdiv (jadd (powerW previous) (powerW p)) (Fin 2)) elapsedMs) (Fin 3600000)),
               if jlt (Fin 0) (powerW previous) \<or> jlt (Fin 0) (powerW p)
               then jadd minutes (jdiv elapsedMs (Fin 60000)) else minutes)))"

definition summarizeMinute :: "(jsstring \<Rightarrow> int option) \<Rightarrow> minute_point list \<Rightarrow> history_summary" where
  "summarizeMinute dparse points =
     (let (energy, minutes) = (case points of [] \<Rightarrow> (Fin 0, Fin 0)
        | p # ps \<Rightarrow> minute_loop dparse p ps (Fin 0, Fin 0)) in
      \<lparr>sum_coverage = None, sum_energy = energy, sum_peak = max_of (map powerW points), sum_productive = minutes\<rparr>)"

text \<open>\<open>None\<close>: the formatter throws on an invalid date.\<close>

definition bucketEnd :: "(jsstring \<Rightarrow> int option) \<Rightarrow> (int \<Rightarrow> int) \<Rightarrow> jsstring \<Rightarrow> resolution \<Rightarrow> jsnum option" where
  "bucketEnd dparse off stamp res =
     (if res = Hourly then Some (jadd (date_num dparse stamp) (Fin (60 * 60000)))
      else case dparse stamp of
        None \<Rightarrow> None
      | Some start \<Rightarrow> Some (num_of_int (zonedCalendarToDate off
          (shiftCalendar (at_midnight (calendarParts off start)) (if res = Daily then DayPeriod else MonthPeriod) 1))))"

definition overlap :: "jsnum \<Rightarrow> jsnum \<Rightarrow> jsnum \<Rightarrow> jsnum \<Rightarrow> jsnum" where
  "overlap fromMs toMs start finish = jmax (Fin 0) (jsub (jmin toMs finish) (jmax fromMs start))"

definition clamp_pct :: "jsnum \<Rightarrow> jsnum" where
  "clamp_pct c = jmin (Fin 100) (jmax (Fin 0) c)"

fun coverage_weight ::
    "(jsstring \<Rightarrow> int option) \<Rightarrow> (int \<Rightarrow> int) \<Rightarrow> resolution \<Rightarrow> jsnum \<Rightarrow> jsnum \<Rightarrow> aggregate_point list \<Rightarrow> jsnum \<Rightarrow> jsnum option" where
  "coverage_weight dparse off res fromMs toMs [] acc = Some acc"
| "coverage_weight dparse off res fromMs toMs (p # ps) acc = (case bucketEnd dparse off (ap_at p) res of
      None \<Rightarrow> None
    | Some finish \<Rightarrow> coverage_weight dparse off res fromMs toMs ps
        (jadd acc (jmul (clamp_pct (coveragePct p)) (overlap fromMs toMs (date_num dparse (ap_at p)) finish))))"

definition coverage_of ::
    "(jsstring \<Rightarrow> int option) \<Rightarrow> (int \<Rightarrow> int) \<Rightarrow> resolution \<Rightarrow> aggregate_point list \<Rightarrow> summary_window option \<Rightarrow> jsnum option option" where
  "coverage_of dparse off res points window = (case window of
      None \<Rightarrow> Some None
    | Some w \<Rightarrow>
        let fromMs = date_num dparse (window_from w); toMs = date_num dparse (window_to w);
            durationMs = jsub toMs fromMs in
        if jlt (Fin 0) durationMs
        then map_option (\<lambda>weight. Some (jdiv weight durationMs)) (coverage_weight dparse off res fromMs toMs points (Fin 0))
        else Some None)"

definition summarizeAggregate ::
    "(jsstring \<Rightarrow> int option) \<Rightarrow> (int \<Rightarrow> int) \<Rightarrow> aggregate_point list \<Rightarrow> resolution \<Rightarrow> summary_window option \<Rightarrow> history_summary option" where
  "summarizeAggregate dparse off points res window =
     (if points = [] then Some \<lparr>sum_coverage = map_option (\<lambda>_. Fin 0) window, sum_energy = Fin 0, sum_peak = Fin 0, sum_productive = Fin 0\<rparr>
      else map_option (\<lambda>coverage. \<lparr>sum_coverage = coverage,
          sum_energy = foldl (\<lambda>acc p. jadd acc (energyWh p)) (Fin 0) points,
          sum_peak = max_of (map peakPowerW points),
          sum_productive = foldl (\<lambda>acc p. jadd acc (or_else (productiveMinutes p) (Fin 0))) (Fin 0) points\<rparr>)
        (coverage_of dparse off res points window))"

section \<open>The view\<close>

record history_view =
  chartPoints :: "minute_point list"
  gaps :: "(jsstring \<times> jsstring) list"
  hasLowCoverage :: bool
  segments :: "minute_point list list"
  summary :: history_summary

definition order_points :: "(jsstring \<Rightarrow> int option) \<Rightarrow> history_point list \<Rightarrow> history_point list" where
  "order_points dparse points = sort_key (\<lambda>p. or_else (dparse (point_at p)) 0) points"

fun segment_gaps :: "minute_point list list \<Rightarrow> (jsstring \<times> jsstring) list" where
  "segment_gaps (s # t # rest) = (mp_at (last s), mp_at (hd t)) # segment_gaps (t # rest)"
| "segment_gaps _ = []"

fun minute_points :: "history_point list \<Rightarrow> minute_point list" where
  "minute_points [] = []"
| "minute_points (Minute p # ps) = p # minute_points ps"
| "minute_points (Aggregate p # ps) = minute_points ps"

fun aggregate_points :: "history_point list \<Rightarrow> aggregate_point list" where
  "aggregate_points [] = []"
| "aggregate_points (Minute p # ps) = aggregate_points ps"
| "aggregate_points (Aggregate p # ps) = p # aggregate_points ps"

definition buildHistoryView ::
    "(jsstring \<Rightarrow> int option) \<Rightarrow> (int \<Rightarrow> int) \<Rightarrow> history_point list \<Rightarrow> resolution \<Rightarrow> summary_window option \<Rightarrow> history_view option" where
  "buildHistoryView dparse off points res window =
     (let ordered = order_points dparse points;
          cps = map toChartPoint ordered;
          segs = toAdaptiveChartSegments dparse cps res in
      map_option (\<lambda>s. \<lparr>chartPoints = cps, gaps = segment_gaps segs,
          hasLowCoverage = (case sum_coverage s of None \<Rightarrow> False | Some c \<Rightarrow> jlt c (Fin 95)),
          segments = segs, summary = s\<rparr>)
        (if list_all isMinutePoint ordered then Some (summarizeMinute dparse (minute_points ordered))
         else summarizeAggregate dparse off (aggregate_points ordered) res window))"

section \<open>The rows of the chart\<close>

datatype series = CurrentSeries nat | PreviousSeries nat

text \<open>A cell holds a power and the time it comes from: the two properties \<open>add\<close> sets.\<close>

record chart_row =
  row_at :: jsnum
  row_gap :: bool
  cells :: "(series \<times> jsnum \<times> jsstring) list"

type_synonym row_map = "(jsnum \<times> chart_row) list"

definition row_for :: "jsnum \<Rightarrow> row_map \<Rightarrow> chart_row" where
  "row_for stamp rows = or_else (map_of rows stamp) \<lparr>row_at = stamp, row_gap = False, cells = []\<rparr>"

definition add_cell :: "jsnum \<Rightarrow> series \<Rightarrow> minute_point \<Rightarrow> row_map \<Rightarrow> row_map" where
  "add_cell stamp key p rows =
     put stamp ((row_for stamp rows)\<lparr>cells := put key (powerW p, mp_at p) (cells (row_for stamp rows))\<rparr>) rows"

definition add_current :: "(jsstring \<Rightarrow> int option) \<Rightarrow> minute_point list list \<Rightarrow> row_map \<Rightarrow> row_map" where
  "add_current dparse segs rows =
     fold (\<lambda>(i, seg) rs. fold (\<lambda>p. add_cell (date_num dparse (mp_at p)) (CurrentSeries i) p) seg rs)
       (zip [0..<length segs] segs) rows"

definition add_gap :: "(jsstring \<Rightarrow> int option) \<Rightarrow> jsstring \<times> jsstring \<Rightarrow> row_map \<Rightarrow> row_map" where
  "add_gap dparse gap rows =
     (let stamp = jdiv (jadd (date_num dparse (fst gap)) (date_num dparse (snd gap))) (Fin 2) in
      put stamp ((row_for stamp rows)\<lparr>row_gap := True\<rparr>) rows)"

definition shifted_at :: "(jsstring \<Rightarrow> int option) \<Rightarrow> history_range \<Rightarrow> minute_point \<Rightarrow> jsnum" where
  "shifted_at dparse rg p =
     (let currentStart = date_num dparse (range_from rg);
          currentDuration = jsub (date_num dparse (range_to rg)) currentStart;
          previousStart = date_num dparse (previousFrom rg);
          previousDuration = jsub (date_num dparse (previousTo rg)) previousStart;
          progress = jdiv (jsub (date_num dparse (mp_at p)) previousStart) previousDuration in
      jadd currentStart (jmul progress currentDuration))"

definition add_previous :: "(jsstring \<Rightarrow> int option) \<Rightarrow> history_range \<Rightarrow> minute_point list list \<Rightarrow> row_map \<Rightarrow> row_map" where
  "add_previous dparse rg segs rows =
     fold (\<lambda>(i, seg) rs. fold (\<lambda>p. add_cell (shifted_at dparse rg p) (PreviousSeries i) p) seg rs)
       (zip [0..<length segs] segs) rows"

definition num_key :: "jsnum \<Rightarrow> rat" where
  "num_key x = (case x of Fin q \<Rightarrow> q | _ \<Rightarrow> 0)"

definition buildChartRows ::
    "(jsstring \<Rightarrow> int option) \<Rightarrow> history_view \<Rightarrow> history_view option \<Rightarrow> history_range \<Rightarrow> chart_row list" where
  "buildChartRows dparse current previous rg =
     (let rows1 = add_current dparse (segments current) [];
          rows2 = fold (add_gap dparse) (gaps current) rows1;
          rows3 = (case previous of None \<Rightarrow> rows2 | Some v \<Rightarrow> add_previous dparse rg (segments v) rows2) in
      sort_key (num_key \<circ> row_at) (map snd rows3))"

section \<open>The summary cards\<close>

text \<open>
  \<open>SummaryCards.tsx\<close>: the change of energy in percent, and whether the coverages differ.
\<close>

definition comparison :: "history_summary \<Rightarrow> history_summary option \<Rightarrow> jsnum option" where
  "comparison current previous = (case previous of
      Some p \<Rightarrow> if jlt (Fin 0) (sum_energy p)
        then Some (jmul (jdiv (jsub (sum_energy current) (sum_energy p)) (sum_energy p)) (Fin 100)) else None
    | None \<Rightarrow> None)"

definition coverageDiffers :: "history_summary \<Rightarrow> history_summary option \<Rightarrow> bool" where
  "coverageDiffers current previous =
     (case (sum_coverage current, Option.bind previous sum_coverage) of
        (Some a, Some b) \<Rightarrow> \<not> jeq a b | _ \<Rightarrow> False)"

section \<open>Segments are the maximal runs without a gap\<close>

definition runs :: "('a \<Rightarrow> 'a \<Rightarrow> bool) \<Rightarrow> 'a list list \<Rightarrow> bool" where
  "runs split segs \<longleftrightarrow> list_all (\<lambda>s. s \<noteq> [] \<and> successively (\<lambda>a b. \<not> split a b) s) segs
     \<and> successively (\<lambda>s t. split (last s) (hd t)) segs"

lemma runs_snoc:
  "runs split (ss @ [s]) \<longleftrightarrow> runs split ss \<and> s \<noteq> [] \<and> successively (\<lambda>a b. \<not> split a b) s
     \<and> (ss = [] \<or> split (last (last ss)) (hd s))"
  by (auto simp: runs_def successively_append_iff)

lemma runs_push:
  assumes "runs split (ss @ [s])"
  shows "runs split (push_last p (if split (last s) p then (ss @ [s]) @ [[]] else ss @ [s]))"
proof (cases "split (last s) p")
  case True
  have "push_last p ((ss @ [s]) @ [[]]) = (ss @ [s]) @ [[p]]" by (simp only: push_last_def butlast_snoc last_snoc) simp
  moreover have "runs split ((ss @ [s]) @ [[p]])"
    using assms True by (subst runs_snoc) simp
  ultimately show ?thesis using True by simp
next
  case False
  have "push_last p (ss @ [s]) = ss @ [s @ [p]]" by (simp add: push_last_def)
  moreover have "runs split (ss @ [s @ [p]])"
    using assms False by (auto simp: runs_snoc successively_append_iff)
  ultimately show ?thesis using False by simp
qed

lemma segment_loop_runs:
  "runs split (ss @ [s]) \<Longrightarrow> runs split (segment_loop split (ss @ [s]) (last s) ps)
     \<and> concat (segment_loop split (ss @ [s]) (last s) ps) = concat (ss @ [s]) @ ps"
proof (induction ps arbitrary: ss s)
  case (Cons p ps)
  show ?case
  proof (cases "split (last s) p")
    case True
    then have "push_last p (if split (last s) p then (ss @ [s]) @ [[]] else ss @ [s]) = (ss @ [s]) @ [[p]]"
      by (simp only: push_last_def butlast_snoc last_snoc if_True) simp
    with runs_push [OF Cons.prems, of p] Cons.IH [of "ss @ [s]" "[p]"] True show ?thesis by simp
  next
    case False
    then have "push_last p (if split (last s) p then (ss @ [s]) @ [[]] else ss @ [s]) = ss @ [s @ [p]]"
      by (simp add: push_last_def)
    with runs_push [OF Cons.prems, of p] Cons.IH [of ss "s @ [p]"] False show ?thesis by simp
  qed
qed simp

lemma segment_loop_start:
  "runs split (segment_loop split [[p]] p ps)" "concat (segment_loop split [[p]] p ps) = p # ps"
  using segment_loop_runs [of split "[]" "[p]" ps] by (simp_all add: runs_def)

lemma adaptive_runs:
  "runs (adaptive_gap dparse res) (toAdaptiveChartSegments dparse ps res)"
  "concat (toAdaptiveChartSegments dparse ps res) = ps"
  using segment_loop_start [of "adaptive_gap dparse res"]
  by (simp_all add: toAdaptiveChartSegments_def runs_def split: list.splits)

section \<open>Overlap of buckets with the window\<close>

abbreviation small :: "int \<Rightarrow> bool" where
  "small t \<equiv> \<bar>t\<bar> \<le> 4503599627370496"

definition bucket_end_ms :: "(int \<Rightarrow> int) \<Rightarrow> resolution \<Rightarrow> int \<Rightarrow> int" where
  "bucket_end_ms off res start =
     (if res = Hourly then start + 3600000
      else zonedCalendarToDate off
        (shiftCalendar (at_midnight (calendarParts off start)) (if res = Daily then DayPeriod else MonthPeriod) 1))"

definition overlap_ms :: "int \<Rightarrow> int \<Rightarrow> int \<Rightarrow> int \<Rightarrow> int" where
  "overlap_ms a b s f = max 0 (min b f - max a s)"

lemma num_small: "small t \<Longrightarrow> num_of_int t = Fin (of_int t)"
  by (simp add: num_of_int_def fl_int)

lemma bucketEnd_ms:
  assumes "dparse stamp = Some s" "small s"
  shows "bucketEnd dparse off stamp res = Some (num_of_int (bucket_end_ms off res s))"
proof -
  have "jadd (num_of_int s) (Fin 3600000) = num_of_int (s + 3600000)"
    using num_small [OF assms(2)] by (simp add: num_of_int_def)
  with assms show ?thesis by (simp add: bucketEnd_def bucket_end_ms_def date_num_def)
qed

lemma overlap_exact:
  assumes "small a" "small b" "small s" "small f"
  shows "overlap (num_of_int a) (num_of_int b) (num_of_int s) (num_of_int f) = Fin (of_int (overlap_ms a b s f))"
proof -
  have n: "jmin (num_of_int b) (num_of_int f) = Fin (of_int (min b f))"
    "jmax (num_of_int a) (num_of_int s) = Fin (of_int (max a s))"
    using assms by (simp_all add: num_small of_int_min of_int_max)
  have "\<bar>min b f - max a s\<bar> \<le> 9007199254740992" using assms by linarith
  then have "jsub (Fin (of_int (min b f))) (Fin (of_int (max a s))) = Fin (of_int (min b f - max a s))"
    by (intro jsub_int) (simp add: exact_int_def)
  then show ?thesis by (simp add: overlap_def n overlap_ms_def of_int_max)
qed

lemma overlap_ms_nonneg: "0 \<le> overlap_ms a b s f"
  by (simp add: overlap_ms_def)

text \<open>Disjoint buckets in order share the window between them.\<close>

lemma overlaps_sum:
  assumes "successively (\<lambda>s t. s \<le> t \<and> e s \<le> t) ss"
  shows "sum_list (map (\<lambda>s. overlap_ms a b s (e s)) ss)
    \<le> (case ss of [] \<Rightarrow> 0 | s # _ \<Rightarrow> max 0 (b - max a s))"
  using assms
proof (induction ss)
  case (Cons s ss)
  show ?case
  proof (cases ss)
    case Nil
    then show ?thesis by (simp add: overlap_ms_def)
  next
    case (Cons t ts)
    then have "s \<le> t" "e s \<le> t" "successively (\<lambda>s t. s \<le> t \<and> e s \<le> t) ss" using Cons.prems by simp_all
    with Cons.IH Cons have "sum_list (map (\<lambda>s. overlap_ms a b s (e s)) ss) \<le> max 0 (b - max a t)" by simp
    moreover have "overlap_ms a b s (e s) + max 0 (b - max a t) \<le> max 0 (b - max a s)"
      using \<open>s \<le> t\<close> \<open>e s \<le> t\<close> unfolding overlap_ms_def by linarith
    ultimately show ?thesis by simp
  qed
qed simp

lemma overlaps_sum_window:
  assumes "successively (\<lambda>s t. s \<le> t \<and> e s \<le> t) ss" "a \<le> b"
  shows "sum_list (map (\<lambda>s. overlap_ms a b s (e s)) ss) \<le> b - a"
  using overlaps_sum [OF assms(1), of a b] assms(2) by (cases ss) (simp_all add: max_def split: if_splits)

section \<open>Coverage\<close>

lemma clamp_bounds: "c \<noteq> NaN \<Longrightarrow> \<exists>q. clamp_pct c = Fin q \<and> 0 \<le> q \<and> q \<le> 100"
  by (cases c) (auto simp: clamp_pct_def jmax_def jmin_def min_def max_def)

lemma weight_step:
  assumes t: "jle (Fin 0) t" "jle t (Fin (of_int T))" and c: "c \<noteq> NaN"
    and x: "0 \<le> x" "0 \<le> T" "T + 100 * x \<le> 9007199254740992"
  defines "t' \<equiv> jadd t (jmul (clamp_pct c) (Fin (of_int x)))"
  shows "jle (Fin 0) t' \<and> jle t' (Fin (of_int (T + 100 * x)))"
proof -
  obtain q where q: "clamp_pct c = Fin q" "0 \<le> q" "q \<le> 100" using clamp_bounds [OF c] by blast
  obtain r where r: "t = Fin r" using t by (cases t) simp_all
  have full: "fl (of_int (100 * x)) = Fin (of_int (100 * x))" using x by (intro fl_int) simp
  define w where "w = jmul (clamp_pct c) (Fin (of_int x))"
  have w: "w = fl (q * of_int x)" by (simp add: w_def q)
  have "q * of_int x \<le> rat_of_int (100 * x)" using q x by (simp add: mult_right_mono)
  then have hi: "jle w (Fin (of_int (100 * x)))" unfolding w full [symmetric] by (rule fl_mono)
  have lo: "jle (Fin 0) w" unfolding w using q x by (intro fl_nonneg) simp
  obtain v where v: "w = Fin v" using lo hi by (cases w) simp_all
  have sum: "jadd (Fin (of_int T)) (Fin (of_int (100 * x))) = Fin (of_int (T + 100 * x))"
    using x by (intro jadd_int) (simp add: exact_int_def)
  have "jle (jadd t w) (jadd (Fin (of_int T)) (Fin (of_int (100 * x))))"
    by (rule jadd_mono [OF t(2) hi]) (simp_all add: r v)
  then show ?thesis unfolding t'_def w_def [symmetric] sum using jadd_nonneg [OF t(1) lo] by blast
qed

lemma coverage_weight_bounds:
  assumes "map (dparse \<circ> ap_at) ps = map Some ss"
    and "\<forall>s \<in> set ss. small s \<and> small (bucket_end_ms off res s)" "small a" "small b"
    and "\<forall>p \<in> set ps. coveragePct p \<noteq> NaN"
    and "jle (Fin 0) t" "jle t (Fin (of_int T))" "0 \<le> T"
    and "T + 100 * sum_list (map (\<lambda>s. overlap_ms a b s (bucket_end_ms off res s)) ss) \<le> 9007199254740992"
  shows "\<exists>w. coverage_weight dparse off res (num_of_int a) (num_of_int b) ps t = Some w \<and> jle (Fin 0) w
    \<and> jle w (Fin (of_int (T + 100 * sum_list (map (\<lambda>s. overlap_ms a b s (bucket_end_ms off res s)) ss))))"
  using assms
proof (induction ps arbitrary: ss t T)
  case (Cons p ps)
  obtain s rest where ss: "ss = s # rest" "dparse (ap_at p) = Some s" "map (dparse \<circ> ap_at) ps = map Some rest"
    using Cons.prems(1) by (cases ss) (auto simp: comp_def)
  define x where "x = overlap_ms a b s (bucket_end_ms off res s)"
  define R where "R = sum_list (map (\<lambda>s. overlap_ms a b s (bucket_end_ms off res s)) rest)"
  have R: "0 \<le> R" unfolding R_def by (intro sum_list_nonneg) (auto simp: overlap_ms_nonneg)
  have x: "0 \<le> x" by (simp add: x_def overlap_ms_nonneg)
  have tot: "sum_list (map (\<lambda>s. overlap_ms a b s (bucket_end_ms off res s)) ss) = x + R"
    by (simp add: ss(1) x_def R_def)
  have s: "small s" "small (bucket_end_ms off res s)" using Cons.prems(2) ss(1) by simp_all
  have ov: "overlap (num_of_int a) (num_of_int b) (date_num dparse (ap_at p)) (num_of_int (bucket_end_ms off res s)) = Fin (of_int x)"
    using overlap_exact [OF Cons.prems(3,4) s] by (simp add: date_num_def ss(2) x_def)
  define t' where "t' = jadd t (jmul (clamp_pct (coveragePct p)) (Fin (of_int x)))"
  have t': "jle (Fin 0) t' \<and> jle t' (Fin (of_int (T + 100 * x)))"
    unfolding t'_def using Cons.prems(5-9) x R tot by (intro weight_step) simp_all
  have "\<exists>w. coverage_weight dparse off res (num_of_int a) (num_of_int b) ps t' = Some w \<and> jle (Fin 0) w
      \<and> jle w (Fin (of_int (T + 100 * x + 100 * R)))"
    unfolding R_def using Cons.prems t' ss x tot
    by (intro Cons.IH) (simp_all add: R_def [symmetric])
  then show ?case
    unfolding tot using bucketEnd_ms [of dparse "ap_at p" s off res, OF ss(2) s(1)] ov
    by (simp add: t'_def distrib_left add.assoc)
qed simp

lemma coverage_quotient:
  assumes "jle (Fin 0) w" "jle w (Fin (of_int (100 * x)))" "x \<le> d" "0 < d"
  shows "jle (Fin 0) (jdiv w (Fin (of_int d))) \<and> jle (jdiv w (Fin (of_int d))) (Fin 100)"
proof -
  obtain q where q: "w = Fin q" "0 \<le> q" "q \<le> 100 * of_int x" using assms(1,2) by (cases w) simp_all
  have "rat_of_int x \<le> of_int d" using assms(3) by simp
  then have "q / of_int d \<le> 100" using q assms(4) by (simp add: divide_le_eq)
  then have "jle (fl (q / of_int d)) (fl 100)" by (rule fl_mono)
  moreover have "fl 100 = Fin 100" by (rule fl_numeral) simp
  moreover have "jle (Fin 0) (fl (q / of_int d))" using q assms(4) by (intro fl_nonneg) simp
  ultimately show ?thesis using assms(4) q by simp
qed

section \<open>Rows of the chart\<close>

definition rows_ok :: "row_map \<Rightarrow> bool" where
  "rows_ok rows \<longleftrightarrow> distinct (map fst rows) \<and> list_all (\<lambda>(k, r). row_at r = k) rows"

lemma row_for_at: "rows_ok rows \<Longrightarrow> row_at (row_for k rows) = k"
  by (auto simp: row_for_def rows_ok_def list_all_iff split: option.splits dest: map_of_SomeD)

lemma rows_ok_put: "rows_ok rows \<Longrightarrow> row_at r = k \<Longrightarrow> rows_ok (put k r rows)"
  unfolding rows_ok_def list_all_iff using distinct_put [of rows k r] by (auto dest!: values_put)

lemma rows_ok_add: "rows_ok rows \<Longrightarrow> rows_ok (add_cell k key p rows)"
  unfolding add_cell_def by (rule rows_ok_put) (simp_all add: row_for_at)

lemma rows_ok_gap: "rows_ok rows \<Longrightarrow> rows_ok (add_gap dparse g rows)"
  unfolding add_gap_def Let_def by (rule rows_ok_put) (simp_all add: row_for_at)

lemma fold_keeps: "(\<And>x s. P s \<Longrightarrow> P (f x s)) \<Longrightarrow> P s \<Longrightarrow> P (fold f xs s)"
  by (induction xs arbitrary: s) auto

lemma rows_ok_current: "rows_ok rows \<Longrightarrow> rows_ok (add_current dparse segs rows)"
  unfolding add_current_def by (rule fold_keeps) (auto intro: fold_keeps rows_ok_add)

lemma rows_ok_previous: "rows_ok rows \<Longrightarrow> rows_ok (add_previous dparse rg segs rows)"
  unfolding add_previous_def by (rule fold_keeps) (auto intro: fold_keeps rows_ok_add)

text \<open>A cell, once set, is only replaced by a later one of the same series and time.\<close>

definition cell_at :: "row_map \<Rightarrow> jsnum \<Rightarrow> series \<Rightarrow> (jsnum \<times> jsstring) option" where
  "cell_at rows k key = map_of (cells (row_for k rows)) key"

lemma cell_at_add: "cell_at (add_cell k key p rows) k' key'
    = (if k' = k \<and> key' = key then Some (powerW p, mp_at p) else cell_at rows k' key')"
  by (auto simp: cell_at_def add_cell_def row_for_def map_of_put split: option.splits)

lemma cell_at_gap: "cell_at (add_gap dparse g rows) k key = cell_at rows k key"
  by (auto simp: cell_at_def add_gap_def row_for_def map_of_put Let_def split: option.splits)

lemma cell_at_gaps: "cell_at (fold (add_gap dparse) gs rows) k key = cell_at rows k key"
  by (induction gs arbitrary: rows) (simp_all add: cell_at_gap)

lemma cell_at_previous: "cell_at (add_previous dparse rg segs rows) k (CurrentSeries i) = cell_at rows k (CurrentSeries i)"
proof -
  have inner: "cell_at (fold (\<lambda>p. add_cell (g p) (PreviousSeries j) p) seg rs) k (CurrentSeries i) = cell_at rs k (CurrentSeries i)"
    for g j seg rs by (induction seg arbitrary: rs) (simp_all add: cell_at_add)
  have "cell_at (fold (\<lambda>(j, seg) rs. fold (\<lambda>p. add_cell (shifted_at dparse rg p) (PreviousSeries j) p) seg rs) xs rs) k (CurrentSeries i)
      = cell_at rs k (CurrentSeries i)" for xs rs
    by (induction xs arbitrary: rs) (auto simp: inner)
  then show ?thesis by (simp add: add_previous_def)
qed

lemma cell_at_segment:
  "cell_at (fold (\<lambda>p. add_cell (h p) key p) seg rows) k key' =
    (if key' = key then (case rev (filter (\<lambda>p. h p = k) seg) of [] \<Rightarrow> cell_at rows k key
        | q # _ \<Rightarrow> Some (powerW q, mp_at q)) else cell_at rows k key')"
proof (induction seg arbitrary: rows)
  case (Cons p seg)
  show ?case by (auto simp: Cons.IH cell_at_add split: list.splits)
qed simp

lemma filter_unique:
  "distinct (map h xs) \<Longrightarrow> x \<in> set xs \<Longrightarrow> filter (\<lambda>y. h y = h x) xs = [x]"
proof (induction xs)
  case (Cons y ys)
  show ?case
  proof (cases "x = y")
    case True
    then have "filter (\<lambda>y. h y = h x) ys = []" using Cons.prems by (auto simp: filter_empty_conv) (metis image_eqI)
    with True show ?thesis by simp
  next
    case False
    then have "h y \<noteq> h x" using Cons.prems by auto
    with False Cons show ?thesis by simp
  qed
qed simp

text \<open>The last point of a segment with the time of a given one.\<close>

definition last_at :: "(jsstring \<Rightarrow> int option) \<Rightarrow> minute_point \<Rightarrow> minute_point list \<Rightarrow> minute_point" where
  "last_at dparse p seg = last (filter (\<lambda>q. date_num dparse (mp_at q) = date_num dparse (mp_at p)) seg)"

lemma last_at_unique: "distinct (map (\<lambda>p. date_num dparse (mp_at p)) seg) \<Longrightarrow> p \<in> set seg \<Longrightarrow> last_at dparse p seg = p"
  using filter_unique [of "\<lambda>p. date_num dparse (mp_at p)" seg p] by (simp add: last_at_def)

lemma cell_at_current:
  assumes "i < length segs" "p \<in> set (segs ! i)"
  shows "cell_at (add_current dparse segs rows) (date_num dparse (mp_at p)) (CurrentSeries i)
    = Some (powerW (last_at dparse p (segs ! i)), mp_at (last_at dparse p (segs ! i)))"
proof -
  let ?h = "\<lambda>p. date_num dparse (mp_at p)"
  let ?f = "\<lambda>(j, seg) rs. fold (\<lambda>p. add_cell (?h p) (CurrentSeries j) p) seg rs"
  have other: "cell_at (fold ?f xs rs) k (CurrentSeries i) = cell_at rs k (CurrentSeries i)"
    if "i \<notin> fst ` set xs" for xs rs k
    using that by (induction xs arbitrary: rs) (auto simp: cell_at_segment)
  have "filter (\<lambda>q. ?h q = ?h p) (segs ! i) \<noteq> []" using assms(2) by (auto simp: filter_empty_conv)
  then obtain qs where one: "rev (filter (\<lambda>q. ?h q = ?h p) (segs ! i)) = last_at dparse p (segs ! i) # qs"
    unfolding last_at_def by (cases "filter (\<lambda>q. ?h q = ?h p) (segs ! i)" rule: rev_cases) simp_all
  have "zip [0..<length segs] segs = zip [0..<i] (take i segs) @ (i, segs ! i) # zip [Suc i..<length segs] (drop (Suc i) segs)"
  proof -
    obtain k where k: "length segs = i + Suc k" using assms(1) less_imp_Suc_add by force
    then have upt: "[0..<length segs] = [0..<i] @ i # [Suc i..<length segs]"
      using upt_add_eq_append [of 0 i "Suc k"] upt_conv_Cons [of i "length segs"] by (simp del: upt_Suc)
    have "zip [0..<length segs] segs = zip ([0..<i] @ i # [Suc i..<length segs]) (take i segs @ segs ! i # drop (Suc i) segs)"
      using id_take_nth_drop [OF assms(1)] upt by simp
    also have "\<dots> = zip [0..<i] (take i segs) @ (i, segs ! i) # zip [Suc i..<length segs] (drop (Suc i) segs)"
      using assms(1) by (subst zip_append) simp_all
    finally show ?thesis .
  qed
  then have add: "add_current dparse segs rows = fold ?f (zip [Suc i..<length segs] (drop (Suc i) segs))
      (fold (\<lambda>p. add_cell (?h p) (CurrentSeries i) p) (segs ! i) (fold ?f (zip [0..<i] (take i segs)) rows))"
    by (simp add: add_current_def)
  have late: "i \<notin> fst ` set (zip [Suc i..<length segs] (drop (Suc i) segs))"
    by (auto dest: set_zip_leftD)
  show ?thesis unfolding add other [OF late] by (simp add: cell_at_segment one)
qed

section \<open>Properties of the view\<close>

text \<open>
  C24. The chart's segments: joined together they are the points in order, none is empty, no two
  neighbours inside a segment lie further apart than the gap allowed between them, and across every
  boundary they do.
\<close>

theorem toAdaptiveChartSegments_spec:
  "concat (toAdaptiveChartSegments dparse ps res) = ps
   \<and> list_all (\<lambda>s. s \<noteq> [] \<and> successively (\<lambda>p q. \<not> adaptive_gap dparse res p q) s) (toAdaptiveChartSegments dparse ps res)
   \<and> successively (\<lambda>s t. adaptive_gap dparse res (last s) (hd t)) (toAdaptiveChartSegments dparse ps res)"
  using adaptive_runs [where dparse = dparse and res = res and ps = ps] by (simp add: runs_def)

text \<open>
  Coverage is a percentage: for a window of days to years and buckets in order that do not
  overlap, the computed coverage, with all the rounding of its sums and quotient, lies between 0 and
  100, whatever percentages the points claim.
\<close>

lemma coverage_bounded:
  assumes "map (dparse \<circ> ap_at) ps = map Some ss"
    and "successively (\<lambda>s t. s \<le> t \<and> bucket_end_ms off res s \<le> t) ss"
    and "\<forall>s \<in> set ss. small s \<and> small (bucket_end_ms off res s)"
    and "\<forall>p \<in> set ps. coveragePct p \<noteq> NaN"
    and "dparse (window_from w) = Some a" "dparse (window_to w) = Some b"
    and "small a" "small b" "a < b" "100 * (b - a) \<le> 9007199254740992"
  shows "\<exists>c. coverage_of dparse off res ps (Some w) = Some (Some c) \<and> jle (Fin 0) c \<and> jle c (Fin 100)"
proof -
  let ?S = "sum_list (map (\<lambda>s. overlap_ms a b s (bucket_end_ms off res s)) ss)"
  have S: "?S \<le> b - a" using overlaps_sum_window [OF assms(2)] assms(9) by simp
  have "0 + 100 * ?S \<le> 9007199254740992" using mult_left_mono [OF S, of 100] assms(10) by simp
  from coverage_weight_bounds [OF assms(1,3,7,8,4) _ _ order_refl this, of "Fin 0"]
  obtain w' where w': "coverage_weight dparse off res (num_of_int a) (num_of_int b) ps (Fin 0) = Some w'"
    "jle (Fin 0) w'" "jle w' (Fin (of_int (100 * ?S)))" by auto
  have d: "jsub (num_of_int b) (num_of_int a) = Fin (of_int (b - a))"
    using assms(7-9) by (simp only: num_small) (intro jsub_int, simp add: exact_int_def)
  have "coverage_of dparse off res ps (Some w) = Some (Some (jdiv w' (Fin (of_int (b - a)))))"
    using assms(9) by (simp only: coverage_of_def option.case Let_def date_num_def assms(5,6) d w') simp
  then show ?thesis using coverage_quotient [OF w'(2,3) S] assms(9) by simp
qed

definition sample_bucket :: "int \<Rightarrow> rat \<Rightarrow> aggregate_point" where
  "sample_bucket t c = \<lparr>ap_at = iso_string t, coveragePct = Fin c, energyWh = Fin 0, peakPowerW = Fin 0, productiveMinutes = None\<rparr>"

lemma sample_iso: "iso_parse (iso_string 0) = Some 0" "iso_parse (iso_string 3600000) = Some 3600000"
  "iso_parse (iso_string 86400000) = Some 86400000"
proof -
  have "iso_range 0" "iso_range 3600000" "iso_range 86400000" by code_simp+
  then show "iso_parse (iso_string 0) = Some 0" "iso_parse (iso_string 3600000) = Some 3600000"
    "iso_parse (iso_string 86400000) = Some 86400000" by (simp_all add: iso.parse_iso)
qed

lemma coverage_bounded_witness:
  "\<exists>c. coverage_of iso_parse sao_paulo Hourly [sample_bucket 0 250, sample_bucket 3600000 50]
      (Some \<lparr>window_from = iso_string 0, window_to = iso_string 86400000\<rparr>) = Some (Some c) \<and> jle (Fin 0) c \<and> jle c (Fin 100)"
  by (rule coverage_bounded [of iso_parse _ "[0, 3600000]" _ _ _ 0 86400000])
    (simp_all add: sample_bucket_def sample_iso bucket_end_ms_def)

text \<open>
  C25. The chart's rows: their times are distinct and in order, and for every point of a segment of the
  current period the row of its time holds, under the series of its segment, the power and the date of
  the last point of the segment with that time, whatever gaps and previous points share the row; so
  when no two points of a segment share a time, each is there with its own power and date.
\<close>

theorem buildChartRows_current:
  assumes "i < length (segments v)" "p \<in> set (segments v ! i)"
  shows "distinct (map row_at (buildChartRows dparse v previous rg))
    \<and> sorted (map (num_key \<circ> row_at) (buildChartRows dparse v previous rg))
    \<and> (\<exists>r \<in> set (buildChartRows dparse v previous rg). row_at r = date_num dparse (mp_at p)
         \<and> map_of (cells r) (CurrentSeries i)
             = Some (powerW (last_at dparse p (segments v ! i)), mp_at (last_at dparse p (segments v ! i))))
    \<and> (distinct (map (\<lambda>p. date_num dparse (mp_at p)) (segments v ! i)) \<longrightarrow> last_at dparse p (segments v ! i) = p)"
proof -
  define rows2 where "rows2 = fold (add_gap dparse) (gaps v) (add_current dparse (segments v) [])"
  define rows where "rows = (case previous of None \<Rightarrow> rows2 | Some u \<Rightarrow> add_previous dparse rg (segments u) rows2)"
  define q where "q = last_at dparse p (segments v ! i)"
  have out: "buildChartRows dparse v previous rg = sort_key (num_key \<circ> row_at) (map snd rows)"
    by (simp only: buildChartRows_def rows_def rows2_def Let_def)
  have "rows_ok []" by (simp add: rows_ok_def)
  then have "rows_ok rows2" unfolding rows2_def by (intro fold_keeps [where P = rows_ok] rows_ok_gap rows_ok_current)
  then have ok: "rows_ok rows" by (auto simp: rows_def rows_ok_previous split: option.splits)
  have ats: "map row_at (map snd rows) = map fst rows"
    using ok by (auto simp: rows_ok_def list_all_iff)
  have "distinct (map row_at (map snd rows))" unfolding ats using ok by (simp add: rows_ok_def)
  then have "distinct (map row_at (buildChartRows dparse v previous rg))"
    unfolding out distinct_map [of row_at] by (simp only: distinct_sort set_sort)
  moreover have "sorted (map (num_key \<circ> row_at) (buildChartRows dparse v previous rg))"
    unfolding out by simp
  moreover have "\<exists>r \<in> set (map snd rows). row_at r = date_num dparse (mp_at p)
      \<and> map_of (cells r) (CurrentSeries i) = Some (powerW q, mp_at q)"
  proof -
    let ?k = "date_num dparse (mp_at p)"
    have c: "cell_at rows ?k (CurrentSeries i) = Some (powerW q, mp_at q)"
      using cell_at_current [OF assms, of dparse "[]", folded q_def]
      by (auto simp: rows_def rows2_def cell_at_previous cell_at_gaps split: option.splits)
    then obtain r where r: "map_of rows ?k = Some r"
      by (auto simp: cell_at_def row_for_def split: option.splits)
    then have "(?k, r) \<in> set rows" by (rule map_of_SomeD)
    moreover have "row_at r = ?k" using row_for_at [OF ok, of ?k] r by (simp add: row_for_def)
    moreover have "map_of (cells r) (CurrentSeries i) = Some (powerW q, mp_at q)"
      using c r by (simp add: cell_at_def row_for_def)
    ultimately show ?thesis by force
  qed
  ultimately show ?thesis
    using last_at_unique [OF _ assms(2), of dparse] unfolding out q_def by simp
qed

definition sample_minute :: "int \<Rightarrow> rat \<Rightarrow> minute_point" where
  "sample_minute t w = \<lparr>mp_at = iso_string t, powerW = Fin w, sampleIntervalMinutes = None\<rparr>"

definition sample_view :: history_view where
  "sample_view = \<lparr>chartPoints = [sample_minute 0 500], gaps = [], hasLowCoverage = False,
     segments = [[sample_minute 0 500]], summary = summarizeMinute iso_parse [sample_minute 0 500]\<rparr>"

lemma buildChartRows_current_witness:
  "\<exists>r \<in> set (buildChartRows iso_parse sample_view (Some sample_view) (getPeriodRange DayPeriod 0 sao_paulo)).
     row_at r = num_of_int 0 \<and> map_of (cells r) (CurrentSeries 0) = Some (Fin 500, iso_string 0)"
proof -
  have "0 < length (segments sample_view)" "sample_minute 0 500 \<in> set (segments sample_view ! 0)"
    "distinct (map (\<lambda>p. date_num iso_parse (mp_at p)) (segments sample_view ! 0))"
    by (simp_all add: sample_view_def)
  note here = this
  have "last_at iso_parse (sample_minute 0 500) (segments sample_view ! 0) = sample_minute 0 500"
    by (rule last_at_unique [OF here(3,2)])
  with buildChartRows_current [OF here(1,2), of iso_parse "Some sample_view" "getPeriodRange DayPeriod 0 sao_paulo"]
  have "\<exists>r \<in> set (buildChartRows iso_parse sample_view (Some sample_view) (getPeriodRange DayPeriod 0 sao_paulo)).
      row_at r = date_num iso_parse (mp_at (sample_minute 0 500))
      \<and> map_of (cells r) (CurrentSeries 0) = Some (powerW (sample_minute 0 500), mp_at (sample_minute 0 500))" by simp
  then show ?thesis by (simp add: sample_minute_def date_num_def sample_iso)
qed

lemma max_of_ge:
  "a \<noteq> NaN \<Longrightarrow> \<forall>n \<in> set ns. n \<noteq> NaN \<Longrightarrow>
   jle a (foldl jmax a ns) \<and> (\<forall>n \<in> set ns. jle n (foldl jmax a ns))"
proof (induction ns arbitrary: a)
  case (Cons n ns)
  have "jmax a n \<noteq> NaN" using Cons.prems by (simp add: jmax_def)
  from Cons.IH [OF this] Cons.prems
  have IH: "jle (jmax a n) (foldl jmax (jmax a n) ns)" "\<forall>m \<in> set ns. jle m (foldl jmax (jmax a n) ns)" by simp_all
  have "jle a (jmax a n)" "jle n (jmax a n)" using Cons.prems by simp_all
  with IH show ?case using jle_trans by fastforce
qed (simp add: jle_refl)

definition readable :: "(jsstring \<Rightarrow> int option) \<Rightarrow> minute_point \<Rightarrow> bool" where
  "readable dparse p \<longleftrightarrow> (case dparse (mp_at p) of Some t \<Rightarrow> small t | None \<Rightarrow> False)"

lemma elapsed_readable: "readable dparse p \<Longrightarrow> readable dparse q \<Longrightarrow> \<exists>k. elapsed dparse (mp_at p) (mp_at q) = Fin k"
proof -
  assume "readable dparse p" "readable dparse q"
  then obtain a b where ab: "dparse (mp_at p) = Some a" "small a" "dparse (mp_at q) = Some b" "small b"
    by (auto simp: readable_def split: option.splits)
  have "jsub (Fin (of_int b)) (Fin (of_int a)) = Fin (of_int (b - a))"
    using ab by (intro jsub_int) (simp add: exact_int_def)
  with ab show ?thesis by (simp add: elapsed_def date_num_def num_small)
qed

lemma minute_loop_nonneg:
  assumes "list_all (\<lambda>p. jle (Fin 0) (powerW p)) (previous # ps)" "list_all (readable dparse) (previous # ps)"
    and "jle (Fin 0) energy" "jle (Fin 0) minutes"
  shows "jle (Fin 0) (fst (minute_loop dparse previous ps (energy, minutes)))
    \<and> jle (Fin 0) (snd (minute_loop dparse previous ps (energy, minutes)))"
  using assms
proof (induction ps arbitrary: previous energy minutes)
  case (Cons p ps)
  obtain k where k: "elapsed dparse (mp_at previous) (mp_at p) = Fin k"
    using elapsed_readable [of dparse previous p] Cons.prems by auto
  have mean: "jle (Fin 0) (jdiv (jadd (powerW previous) (powerW p)) (Fin 2))"
    using Cons.prems by (intro jdiv_Fin_nonneg jadd_nonneg) simp_all
  have "jle (Fin 0) (jadd energy (jdiv (jmul (jdiv (jadd (powerW previous) (powerW p)) (Fin 2)) (Fin k)) (Fin 3600000)))"
    "jle (Fin 0) (jadd minutes (jdiv (Fin k) (Fin 60000)))" if "0 < k"
    using that Cons.prems mean by (auto intro!: jadd_nonneg jdiv_Fin_nonneg jmul_Fin_nonneg simp del: jdiv.simps jadd.simps)
  with Cons show ?case by (simp add: Let_def k)
qed simp

lemma minute_loop_idle:
  "list_all (\<lambda>p. powerW p = Fin 0) (previous # ps) \<Longrightarrow> snd (minute_loop dparse previous ps (energy, minutes)) = minutes"
  by (induction ps arbitrary: previous energy) (simp_all add: Let_def)

text \<open>
  The summary of minute readings: with no negative power and all times readable, energy and
  productive time are never negative, the peak is at least every reading, and the productive time
  is zero when no reading is positive.
\<close>

lemma summarizeMinute_bounds:
  assumes "list_all (\<lambda>p. jle (Fin 0) (powerW p)) ps" "list_all (readable dparse) ps"
  shows "jle (Fin 0) (sum_energy (summarizeMinute dparse ps)) \<and> jle (Fin 0) (sum_productive (summarizeMinute dparse ps))
    \<and> list_all (\<lambda>p. jle (powerW p) (sum_peak (summarizeMinute dparse ps))) ps
    \<and> (list_all (\<lambda>p. powerW p = Fin 0) ps \<longrightarrow> sum_productive (summarizeMinute dparse ps) = Fin 0)"
proof -
  have peak: "list_all (\<lambda>p. jle (powerW p) (max_of (map powerW ps))) ps"
  proof -
    have "\<forall>n \<in> set (map powerW ps). n \<noteq> NaN" using assms(1) by (auto simp: list_all_iff)
    then show ?thesis using max_of_ge [of "Fin 0" "map powerW ps"] by (simp add: max_of_def list_all_iff)
  qed
  show ?thesis
  proof (cases ps)
    case (Cons p qs)
    have "jle (Fin 0) (fst (minute_loop dparse p qs (Fin 0, Fin 0))) \<and> jle (Fin 0) (snd (minute_loop dparse p qs (Fin 0, Fin 0)))"
      using assms Cons by (intro minute_loop_nonneg) simp_all
    with peak Cons minute_loop_idle [of p qs dparse "Fin 0" "Fin 0"] show ?thesis
      by (simp add: summarizeMinute_def split_beta)
  qed (simp add: summarizeMinute_def)
qed

end
