(* ===== verification/JsUri.thy ===== *)
theory JsUri
  imports JsText
begin

text \<open>
  Code points, UTF-8 and percent encoding: \<open>[...s]\<close>, \<open>TextEncoder\<close>, \<open>encodeURIComponent\<close> and
  \<open>decodeURIComponent\<close> with their errors (\<open>None\<close> where they throw).

  The lemma the auth gate needs: decoding keeps a prefix without percent signs
  (\<open>decode_uri_plain\<close>).
\<close>

section \<open>Code points\<close>

definition is_high :: "jschar \<Rightarrow> bool" where
  "is_high c \<longleftrightarrow> 0xD800 \<le> c \<and> c \<le> 0xDBFF"

definition is_low :: "jschar \<Rightarrow> bool" where
  "is_low c \<longleftrightarrow> 0xDC00 \<le> c \<and> c \<le> 0xDFFF"

definition pair_value :: "jschar \<Rightarrow> jschar \<Rightarrow> nat" where
  "pair_value a b = (unat a - 0xD800) * 0x400 + (unat b - 0xDC00) + 0x10000"

text \<open>The code points of a string; a surrogate without its partner is one of its own.\<close>

fun code_points :: "jsstring \<Rightarrow> nat list" where
  "code_points [] = []"
| "code_points [a] = [unat a]"
| "code_points (a # b # s) = (if is_high a \<and> is_low b then pair_value a b # code_points s else unat a # code_points (b # s))"

text \<open>The units of a code point.\<close>

definition units_of :: "nat \<Rightarrow> jsstring" where
  "units_of p = (if p < 0x10000 then [of_nat p]
     else [of_nat ((p - 0x10000) div 0x400 + 0xD800), of_nat ((p - 0x10000) mod 0x400 + 0xDC00)])"

text \<open>
  UTF-8. \<open>TextEncoder\<close> replaces a lone surrogate by U+FFFD, which takes three bytes, as many as the
  formula gives for the surrogate.
\<close>

definition utf8 :: "nat \<Rightarrow> nat list" where
  "utf8 p = (if p < 0x80 then [p]
     else if p < 0x800 then [0xC0 + p div 0x40, 0x80 + p mod 0x40]
     else if p < 0x10000 then [0xE0 + p div 0x1000, 0x80 + p div 0x40 mod 0x40, 0x80 + p mod 0x40]
     else [0xF0 + p div 0x40000, 0x80 + p div 0x1000 mod 0x40, 0x80 + p div 0x40 mod 0x40, 0x80 + p mod 0x40])"

definition utf8_bytes :: "jsstring \<Rightarrow> nat" where
  "utf8_bytes s = sum_list (map (length \<circ> utf8) (code_points s))"

section \<open>Percent encoding\<close>

definition hex_char :: "nat \<Rightarrow> jschar" where
  "hex_char d = (if d < 10 then of_nat (48 + d) else of_nat (55 + d))"

definition hex_val :: "jschar \<Rightarrow> nat option" where
  "hex_val c = (if is_digit c then Some (unat c - 48)
     else if 65 \<le> c \<and> c \<le> 70 then Some (unat c - 55)
     else if 97 \<le> c \<and> c \<le> 102 then Some (unat c - 87) else None)"

definition percent :: "nat \<Rightarrow> jsstring" where
  "percent b = [37, hex_char (b div 16), hex_char (b mod 16)]"

text \<open>Letters, digits and \<open>- _ . ! ~ * ' ( )\<close> are left as they are.\<close>

definition unreserved :: "jschar \<Rightarrow> bool" where
  "unreserved c \<longleftrightarrow> is_digit c \<or> is_upper c \<or> is_lower c \<or> c \<in> {45, 95, 46, 33, 126, 42, 39, 40, 41}"

fun encode_uri :: "jsstring \<Rightarrow> jsstring option" where
  "encode_uri [] = Some []"
| "encode_uri (a # s) =
     (if unreserved a then map_option ((#) a) (encode_uri s)
      else if is_low a then None
      else if \<not> is_high a then map_option ((@) (concat (map percent (utf8 (unat a))))) (encode_uri s)
      else (case s of [] \<Rightarrow> None
        | b # t \<Rightarrow> if is_low b then map_option ((@) (concat (map percent (utf8 (pair_value a b))))) (encode_uri t) else None))"

text \<open>One escaped byte.\<close>

fun read_byte :: "jsstring \<Rightarrow> (nat \<times> jsstring) option" where
  "read_byte (p # a # b # s) = (if p \<noteq> 37 then None
     else (case (hex_val a, hex_val b) of (Some x, Some y) \<Rightarrow> Some (16 * x + y, s) | _ \<Rightarrow> None))"
| "read_byte _ = None"

text \<open>The continuation bytes of a sequence, six bits each.\<close>

fun read_tail :: "nat \<Rightarrow> nat \<Rightarrow> jsstring \<Rightarrow> (nat \<times> jsstring) option" where
  "read_tail 0 acc s = Some (acc, s)"
| "read_tail (Suc n) acc s = (case read_byte s of None \<Rightarrow> None
     | Some (b, t) \<Rightarrow> if 0x80 \<le> b \<and> b < 0xC0 then read_tail n (acc * 0x40 + (b - 0x80)) t else None)"

text \<open>A code point from its escaped bytes: no overlong forms, no surrogates, at most U+10FFFF.\<close>

definition read_point :: "jsstring \<Rightarrow> (nat \<times> jsstring) option" where
  "read_point s = (case read_byte s of None \<Rightarrow> None
     | Some (b, t) \<Rightarrow>
         if b < 0x80 then Some (b, t)
         else if b < 0xC0 then None
         else if b < 0xE0 then (case read_tail 1 (b - 0xC0) t of Some (p, u) \<Rightarrow> if 0x80 \<le> p then Some (p, u) else None | None \<Rightarrow> None)
         else if b < 0xF0 then (case read_tail 2 (b - 0xE0) t of
             Some (p, u) \<Rightarrow> if 0x800 \<le> p \<and> \<not> (0xD800 \<le> p \<and> p \<le> 0xDFFF) then Some (p, u) else None | None \<Rightarrow> None)
         else if b < 0xF8 then (case read_tail 3 (b - 0xF0) t of
             Some (p, u) \<Rightarrow> if 0x10000 \<le> p \<and> p \<le> 0x10FFFF then Some (p, u) else None | None \<Rightarrow> None)
         else None)"

lemma read_byte_length: "read_byte s = Some (b, t) \<Longrightarrow> length s = length t + 3"
  by (induction s rule: read_byte.induct) (auto split: if_splits option.splits)

lemma read_tail_length: "read_tail n acc s = Some (p, t) \<Longrightarrow> length t \<le> length s"
  by (induction n acc s rule: read_tail.induct)
    (fastforce split: if_splits option.splits dest: read_byte_length)+

lemma read_point_length: "read_point s = Some (p, t) \<Longrightarrow> length t < length s"
  by (auto simp: read_point_def split: if_splits option.splits dest!: read_byte_length read_tail_length)

function decode_uri :: "jsstring \<Rightarrow> jsstring option" where
  "decode_uri [] = Some []"
| "decode_uri (c # s) =
     (if c \<noteq> 37 then map_option ((#) c) (decode_uri s)
      else (case read_point (c # s) of None \<Rightarrow> None
        | Some (p, t) \<Rightarrow> map_option ((@) (units_of p)) (decode_uri t)))"
  by pat_completeness auto
termination
  by (relation "measure length") (auto dest: read_point_length)

lemma decode_uri_plain: "37 \<notin> set p \<Longrightarrow> decode_uri (p @ s) = map_option ((@) p) (decode_uri s)"
  by (induction p; cases "decode_uri s") simp_all

end
