(* ===== verification/HistoryPage.thy ===== *)
theory HistoryPage
  imports HistoryView JsUri
begin

text \<open>
  The history page, \<open>web/src/features/history/HistoryPage.tsx\<close>: the requests it makes, what it shows for
  each state of its queries, and the period it shows as a machine over the buttons of
  \<open>PeriodPicker.tsx\<close> and the browser's history, which the page writes and reads as text.

  The main result is a refinement: through the address bar and back, the page behaves as a browser
  history whose entries are the ranges themselves (\<open>page_step_concrete\<close>).

  Parameters: \<open>parse\<close>, the entries \<open>new URLSearchParams(text)\<close> holds (locale \<open>search_params\<close>), \<open>dparse\<close>
  (\<open>Date.parse\<close>) and \<open>off\<close>, the zone, as in \<open>HistoryRange\<close>.
\<close>

section \<open>Search parameters as text\<close>

text \<open>\<open>URLSearchParams.toString\<close>: letters, digits and \<open>* - . _\<close> stay, a blank becomes a plus sign.\<close>

definition form_char :: "jschar \<Rightarrow> bool" where
  "form_char c \<longleftrightarrow> is_digit c \<or> is_upper c \<or> is_lower c \<or> c \<in> {42, 45, 46, 95}"

text \<open>A surrogate without its partner is written as U+FFFD.\<close>

definition form_point :: "nat \<Rightarrow> jsstring" where
  "form_point p = (if p < 128 \<and> form_char (of_nat p) then [of_nat p]
     else if p = 32 then [43]
     else concat (map percent (utf8 (if 0xD800 \<le> p \<and> p \<le> 0xDFFF then 0xFFFD else p))))"

definition form_encode :: "jsstring \<Rightarrow> jsstring" where
  "form_encode s = concat (map form_point (code_points s))"

definition params_text :: "search \<Rightarrow> jsstring" where
  "params_text ps = join [38] (map (\<lambda>(k, v). form_encode k @ 61 # form_encode v) ps)"

section \<open>Requests\<close>

fun resolution_name :: "resolution \<Rightarrow> jsstring" where
  "resolution_name Minutely = js ''minute''"
| "resolution_name Hourly = js ''hour''"
| "resolution_name Daily = js ''day''"
| "resolution_name Monthly = js ''month''"

definition historyPath :: "jsstring \<Rightarrow> jsstring \<Rightarrow> resolution \<Rightarrow> jsstring" where
  "historyPath fr t res = js ''/history?'' @
     params_text [(js ''from'', fr), (js ''to'', t), (js ''resolution'', resolution_name res)]"

text \<open>\<open>None\<close> when encoding throws.\<close>

definition exportPath :: "history_range \<Rightarrow> jsstring option" where
  "exportPath r = (case (encode_uri (range_from r), encode_uri (range_to r)) of
       (Some fr, Some t) \<Rightarrow> Some (js ''/api/v1/history.csv?from='' @ fr @ js ''&to='' @ t)
     | _ \<Rightarrow> None)"

record history_request =
  q_period :: period
  q_previous :: bool
  q_from :: jsstring
  q_to :: jsstring
  q_resolution :: resolution
  q_path :: jsstring

definition requestOptions :: "history_range \<Rightarrow> bool \<Rightarrow> history_request" where
  "requestOptions r prev = (let fr = (if prev then previousFrom r else range_from r);
       t = (if prev then previousTo r else range_to r) in
     \<lparr>q_period = range_period r, q_previous = prev, q_from = fr, q_to = t, q_resolution = range_resolution r,
      q_path = historyPath fr t (range_resolution r)\<rparr>)"

text \<open>The title: the first and the last day of the range, by their instants; \<open>None\<close> when a date is unreadable.\<close>

definition rangeTitle :: "(jsstring \<Rightarrow> int option) \<Rightarrow> (int \<Rightarrow> jsstring) \<Rightarrow> history_range \<Rightarrow> jsstring option" where
  "rangeTitle dparse show r = (case (dparse (range_from r), dparse (range_to r)) of
       (Some a, Some b) \<Rightarrow> Some (show a @ [32, 0x2014, 32] @ show (b - 1))
     | _ \<Rightarrow> None)"

definition formatCoverage :: "(jsnum \<Rightarrow> jsstring) \<Rightarrow> jsnum \<Rightarrow> jsstring" where
  "formatCoverage show value = show value @ [37]"

section \<open>What the page shows\<close>

datatype 'a result = Pending | Failed | Loaded 'a

datatype page_kind = ZoneFailed | ZonePending | HistoryPending | HistoryFailed | NoReadings
  | Readings "jsnum option"

text \<open>
  The two views \<open>useMemo\<close> computes; an aggregate summary that throws takes the page down, which is
  \<open>None\<close>. \<open>Readings\<close> carries the coverage of the warning, when there is one.
\<close>

definition view_of ::
  "(jsstring \<Rightarrow> int option) \<Rightarrow> (int \<Rightarrow> int) \<Rightarrow> history_range \<Rightarrow> bool \<Rightarrow> history_point list result \<Rightarrow> history_view option option" where
  "view_of dparse off r prev q = (case q of
       Loaded points \<Rightarrow> map_option Some (buildHistoryView dparse off points (range_resolution r)
         (Some \<lparr>window_from = if prev then previousFrom r else range_from r, window_to = if prev then previousTo r else range_to r\<rparr>))
     | _ \<Rightarrow> Some None)"

definition coverage_warning :: "history_view \<Rightarrow> jsnum option" where
  "coverage_warning v = (if hasLowCoverage v then sum_coverage (summary v) else None)"

definition HistoryContent ::
  "(jsstring \<Rightarrow> int option) \<Rightarrow> (int \<Rightarrow> int) \<Rightarrow> history_range \<Rightarrow> history_point list result \<Rightarrow> history_point list result
     \<Rightarrow> page_kind option" where
  "HistoryContent dparse off r now before = (case (view_of dparse off r False now, view_of dparse off r True before) of
       (Some current, Some previous) \<Rightarrow> Some (
         if now = Pending \<or> before = Pending then HistoryPending
         else if now = Failed \<or> before = Failed then HistoryFailed
         else (case current of None \<Rightarrow> NoReadings
           | Some v \<Rightarrow> if chartPoints v = [] then NoReadings else Readings (coverage_warning v)))
     | _ \<Rightarrow> None)"

text \<open>Without an override the zone comes from the settings.\<close>

definition HistoryPage :: "jsstring option \<Rightarrow> jsstring result \<Rightarrow> page_kind + jsstring" where
  "HistoryPage override settings = (let zone = (case override of Some z \<Rightarrow> Some z
         | None \<Rightarrow> (case settings of Loaded z \<Rightarrow> Some z | _ \<Rightarrow> None)) in
     if (override = None \<or> override = Some []) \<and> settings = Failed then Inl ZoneFailed
     else (case zone of None \<Rightarrow> Inl ZonePending | Some z \<Rightarrow> if z = [] then Inl ZonePending else Inr z))"

section \<open>The period in the address bar\<close>

text \<open>
  \<open>here\<close> is the search part of the address without its question mark, \<open>behind\<close> and \<open>ahead\<close> the
  entries of the session history on this page, nearest first.
\<close>

record history_page =
  shown :: history_range
  here :: jsstring
  behind :: "jsstring list"
  ahead :: "jsstring list"

datatype page_event = ChangePeriod period int | GoBack int | GoForward int

definition range_text :: "history_range \<Rightarrow> jsstring" where
  "range_text r = params_text (serializeHistoryRange r)"

text \<open>The effect on \<open>range\<close>: replace the entry when its text is another.\<close>

definition sync_url :: "history_page \<Rightarrow> history_page" where
  "sync_url w = (let t = range_text (shown w) in if here w \<noteq> t then w\<lparr>here := t\<rparr> else w)"

definition read_url ::
  "(jsstring \<Rightarrow> search) \<Rightarrow> (jsstring \<Rightarrow> int option) \<Rightarrow> (int \<Rightarrow> int) \<Rightarrow> jsstring \<Rightarrow> int \<Rightarrow> history_range" where
  "read_url parse dparse off t now = parseHistorySearch dparse (parse t) now off"

definition open_page ::
  "(jsstring \<Rightarrow> search) \<Rightarrow> (jsstring \<Rightarrow> int option) \<Rightarrow> (int \<Rightarrow> int) \<Rightarrow> jsstring \<Rightarrow> int \<Rightarrow> history_page" where
  "open_page parse dparse off t now =
     sync_url \<lparr>shown = read_url parse dparse off t now, here = t, behind = [], ahead = []\<rparr>"

definition changePeriod :: "(int \<Rightarrow> int) \<Rightarrow> period \<Rightarrow> int \<Rightarrow> history_page \<Rightarrow> history_page" where
  "changePeriod off per now w = (let r = getPeriodRange per now off in
     w\<lparr>shown := r, here := range_text r, behind := here w # behind w, ahead := []\<rparr>)"

text \<open>Moving through the history changes the address, and \<open>onPopState\<close> reads it.\<close>

fun page_step ::
  "(jsstring \<Rightarrow> search) \<Rightarrow> (jsstring \<Rightarrow> int option) \<Rightarrow> (int \<Rightarrow> int) \<Rightarrow> history_page \<Rightarrow> page_event \<Rightarrow> history_page" where
  "page_step parse dparse off w (ChangePeriod per now) = sync_url (changePeriod off per now w)"
| "page_step parse dparse off w (GoBack now) = (case behind w of [] \<Rightarrow> w
     | t # ts \<Rightarrow> sync_url (w\<lparr>shown := read_url parse dparse off t now, here := t, behind := ts, ahead := here w # ahead w\<rparr>))"
| "page_step parse dparse off w (GoForward now) = (case ahead w of [] \<Rightarrow> w
     | t # ts \<Rightarrow> sync_url (w\<lparr>shown := read_url parse dparse off t now, here := t, ahead := ts, behind := here w # behind w\<rparr>))"

fun period_label :: "period \<Rightarrow> jsstring" where
  "period_label DayPeriod = js ''Dia''"
| "period_label WeekPeriod = js ''Semana''"
| "period_label MonthPeriod = js ''M'' @ [0xEA] @ js ''s''"
| "period_label YearPeriod = js ''Ano''"

definition PERIODS :: "period list" where
  "PERIODS = [DayPeriod, WeekPeriod, MonthPeriod, YearPeriod]"

text \<open>The buttons: the label, the period and whether it is pressed.\<close>

definition PeriodPicker :: "period \<Rightarrow> (jsstring \<times> period \<times> bool) list" where
  "PeriodPicker value = map (\<lambda>p. (period_label p, p, value = p)) PERIODS"

section \<open>What the page relies on of \<open>URLSearchParams\<close>\<close>

definition ascii :: "jsstring \<Rightarrow> bool" where
  "ascii s \<longleftrightarrow> list_all (\<lambda>c. unat c < 128) s"

text \<open>Reading what was written gives the parameters back, here for plain ASCII names and values.\<close>

locale search_params =
  fixes parse :: "jsstring \<Rightarrow> search"
  assumes parse_text: "list_all (\<lambda>(k, v). ascii k \<and> ascii v) ps \<Longrightarrow> parse (params_text ps) = ps"

text \<open>A parser for such texts.\<close>

fun form_decode :: "jsstring \<Rightarrow> jsstring" where
  "form_decode [] = []"
| "form_decode (c # s) = (if c = 43 then 32 # form_decode s
     else if c \<noteq> 37 then c # form_decode s
     else (case s of a # b # t \<Rightarrow> (case (hex_val a, hex_val b) of
             (Some x, Some y) \<Rightarrow> of_nat (16 * x + y) # form_decode t
           | _ \<Rightarrow> c # form_decode s)
         | _ \<Rightarrow> c # form_decode s))"

definition form_parse :: "jsstring \<Rightarrow> search" where
  "form_parse s = map (\<lambda>p. (form_decode (takeWhile (\<lambda>c. c \<noteq> 61) p), form_decode (drop 1 (dropWhile (\<lambda>c. c \<noteq> 61) p))))
     (filter (\<lambda>p. p \<noteq> []) (split_on 38 s))"

lemma hex_char_facts:
  "list_all (\<lambda>d. hex_val (hex_char d) = Some d \<and> hex_char d \<notin> {37, 38, 43, 61}) [0..<16]"
  by code_simp

lemma hex_char_val:
  assumes "d < 16"
  shows "hex_val (hex_char d) = Some d" "hex_char d \<notin> {37, 38, 43, 61}"
  using hex_char_facts assms by (auto simp: list_all_iff)

lemma form_char_plain: "form_char c \<Longrightarrow> c \<notin> {37, 38, 43, 61}"
  by (auto simp: form_char_def is_digit_def is_upper_def is_lower_def)

lemma code_points_ascii: "ascii s \<Longrightarrow> code_points s = map unat s"
  by (induction s rule: code_points.induct) (auto simp: ascii_def is_high_def word_le_nat_alt)

lemma ascii_point_cases:
  assumes "unat c < 128"
  obtains "form_point (unat c) = [c]" "c \<notin> {37, 38, 43, 61}"
  | "c = 32" "form_point (unat c) = [43]"
  | "form_point (unat c) = [37, hex_char (unat c div 16), hex_char (unat c mod 16)]"
proof (cases "form_char c")
  case True
  with assms that(1) form_char_plain [OF True] show ?thesis by (simp add: form_point_def)
next
  case False
  show ?thesis
  proof (cases "c = 32")
    case True
    with False that(2) show ?thesis by (simp add: form_point_def)
  next
    case no32: False
    then have "unat c \<noteq> 32" using word_unat_eq_iff [of c 32] by simp
    with assms False that(3) show ?thesis by (simp add: form_point_def utf8_def percent_def)
  qed
qed

lemma form_decode_point:
  assumes "unat c < 128"
  shows "form_decode (form_point (unat c) @ s) = c # form_decode s"
  by (rule ascii_point_cases [OF assms]) (use assms in \<open>auto simp: hex_char_val\<close>)

lemma form_point_set:
  assumes "unat (c :: jschar) < 128"
  shows "38 \<notin> set (form_point (unat c)) \<and> 61 \<notin> set (form_point (unat c))"
  using hex_char_val(2) [of "unat c div 16"] hex_char_val(2) [of "unat c mod 16"] assms
  by (cases rule: ascii_point_cases [OF assms]) auto

lemma form_decode_encode:
  assumes "ascii s"
  shows "form_decode (form_encode s) = s" "38 \<notin> set (form_encode s)" "61 \<notin> set (form_encode s)"
proof -
  have "list_all (\<lambda>c. unat c < 128) s \<Longrightarrow> form_decode (concat (map form_point (map unat s))) = s
    \<and> 38 \<notin> set (concat (map form_point (map unat s))) \<and> 61 \<notin> set (concat (map form_point (map unat s)))" for s :: jsstring
    by (induction s) (auto simp: form_decode_point dest: form_point_set)
  with assms show "form_decode (form_encode s) = s" "38 \<notin> set (form_encode s)" "61 \<notin> set (form_encode s)"
    using code_points_ascii [OF assms] by (simp_all add: form_encode_def ascii_def)
qed

lemma free_split: "c \<notin> set p \<Longrightarrow> takeWhile (\<lambda>x. x \<noteq> c) (p @ c # s) = p \<and> dropWhile (\<lambda>x. x \<noteq> c) (p @ c # s) = c # s"
  by (induction p) auto

lemma split_on_join: "ps \<noteq> [] \<Longrightarrow> list_all (\<lambda>p. c \<notin> set p) ps \<Longrightarrow> split_on c (join [c] ps) = ps"
  by (induction "[c]" ps rule: join.induct) (auto simp: split_on_append split_on_free)

interpretation form: search_params form_parse
proof
  fix ps :: search
  assume ps: "list_all (\<lambda>(k, v). ascii k \<and> ascii v) ps"
  define parts where "parts = map (\<lambda>(k, v). form_encode k @ 61 # form_encode v) ps"
  have free: "list_all (\<lambda>p. 38 \<notin> set p) parts" and ne: "list_all (\<lambda>p. p \<noteq> []) parts"
    using ps by (auto simp: parts_def list_all_iff form_decode_encode)
  have "filter (\<lambda>p. p \<noteq> []) (split_on 38 (params_text ps)) = parts"
  proof (cases "ps = []")
    case False
    then have "split_on 38 (params_text ps) = parts"
      unfolding params_text_def parts_def [symmetric] using free by (intro split_on_join) (simp add: parts_def)
    with ne show ?thesis by (simp add: list_all_iff)
  qed (simp add: params_text_def parts_def)
  moreover have "map (\<lambda>p. (form_decode (takeWhile (\<lambda>c. c \<noteq> 61) p), form_decode (drop 1 (dropWhile (\<lambda>c. c \<noteq> 61) p)))) parts = ps"
    unfolding parts_def using ps
    by (auto simp: list_all_iff form_decode_encode free_split o_def intro!: map_idI)
  ultimately show "form_parse (params_text ps) = ps" by (simp add: form_parse_def)
qed

section \<open>The page is a browser history of ranges\<close>

text \<open>The specification: entries are ranges, and moving back shows the range that was shown there.\<close>

record visits =
  past :: "history_range list"
  current :: history_range
  future :: "history_range list"

fun visit_step :: "(int \<Rightarrow> int) \<Rightarrow> visits \<Rightarrow> page_event \<Rightarrow> visits" where
  "visit_step off v (ChangePeriod per now) =
     \<lparr>past = current v # past v, current = getPeriodRange per now off, future = []\<rparr>"
| "visit_step off v (GoBack now) = (case past v of [] \<Rightarrow> v
     | r # rs \<Rightarrow> \<lparr>past = rs, current = r, future = current v # future v\<rparr>)"
| "visit_step off v (GoForward now) = (case future v of [] \<Rightarrow> v
     | r # rs \<Rightarrow> \<lparr>past = current v # past v, current = r, future = rs\<rparr>)"

text \<open>The page that shows a history.\<close>

definition concrete :: "visits \<Rightarrow> history_page" where
  "concrete v = \<lparr>shown = current v, here = range_text (current v),
     behind = map range_text (past v), ahead = map range_text (future v)\<rparr>"

text \<open>A range of an instant in a year the calendar writes with four digits, with midnights the code finds around it.\<close>

definition plain_range :: "(int \<Rightarrow> int) \<Rightarrow> history_range \<Rightarrow> bool" where
  "plain_range off r \<longleftrightarrow> (\<exists>per A. plain_time off A \<and> r = getPeriodRange per A off)"

definition plain_visits :: "(int \<Rightarrow> int) \<Rightarrow> visits \<Rightarrow> bool" where
  "plain_visits off v \<longleftrightarrow> plain_range off (current v) \<and> list_all (plain_range off) (past v) \<and> list_all (plain_range off) (future v)"

fun plain_event :: "(int \<Rightarrow> int) \<Rightarrow> page_event \<Rightarrow> bool" where
  "plain_event off (ChangePeriod per now) = plain_time off now"
| "plain_event off _ = True"

lemma ascii_js: "list_all (\<lambda>c. of_char c < (128 :: nat)) s \<Longrightarrow> ascii (js s)"
  by (auto simp: ascii_def js_def list_all_iff unat_of_char)

lemma ascii_append [simp]: "ascii (s @ t) \<longleftrightarrow> ascii s \<and> ascii t"
  by (simp add: ascii_def)

lemma ascii_digits: "list_all is_digit s \<Longrightarrow> ascii s"
  by (auto simp: ascii_def list_all_iff is_digit_unat)

lemma ascii_iso: "ascii (iso_string t)"
proof -
  have lit: "ascii (js s)" if "list_all (\<lambda>c. of_char c < (128 :: nat)) s" for s using that by (rule ascii_js)
  have "ascii (js ''-'')" "ascii (js ''+'')" "ascii (js ''T'')" "ascii (js '':'')" "ascii (js ''.'')" "ascii (js ''Z'')"
    by (rule lit; code_simp)+
  moreover have "ascii (padded k n)" for k n by (rule ascii_digits) simp
  ultimately show ?thesis by (simp add: iso_string_def iso_year_def Let_def)
qed

lemma ascii_period: "ascii (period_name per)"
proof -
  have "ascii (js ''day'')" "ascii (js ''week'')" "ascii (js ''month'')" "ascii (js ''year'')"
    by (rule ascii_js; code_simp)+
  then show ?thesis by (simp add: period_name_def split: period.splits)
qed

lemma ascii_serialized: "list_all (\<lambda>(k, v). ascii k \<and> ascii v) (serializeHistoryRange (getPeriodRange per A off))"
proof -
  have "ascii (js ''period'')" "ascii (js ''from'')" "ascii (js ''to'')" by (rule ascii_js; code_simp)+
  then show ?thesis by (simp add: serializeHistoryRange_def getPeriodRange_def Let_def ascii_iso ascii_period)
qed

text \<open>The text of a plain range reads back as the range, at any time.\<close>

lemma read_range_text:
  assumes "search_params parse" "date_parser dparse" "time_zone off" "plain_range off r"
  shows "read_url parse dparse off (range_text r) now = r"
proof -
  obtain per A where r: "plain_time off A" "r = getPeriodRange per A off" using assms(4) by (auto simp: plain_range_def)
  have "parse (range_text r) = serializeHistoryRange r"
    unfolding range_text_def r(2) by (rule search_params.parse_text [OF assms(1) ascii_serialized])
  then show ?thesis
    using time_zone.parse_serialize [OF assms(3,2) r(1), of per now] by (simp add: read_url_def r(2))
qed

lemma sync_url_same: "here w = range_text (shown w) \<Longrightarrow> sync_url w = w"
  by (simp add: sync_url_def)

lemma page_step_concrete:
  assumes "search_params parse" "date_parser dparse" "time_zone off" "plain_visits off v"
  shows "page_step parse dparse off (concrete v) e = concrete (visit_step off v e)"
  using assms(4) read_range_text [OF assms(1-3)]
  by (cases e)
    (auto simp: concrete_def plain_visits_def changePeriod_def Let_def sync_url_same split: list.splits)

lemma plain_visit_step: "plain_visits off v \<Longrightarrow> plain_event off e \<Longrightarrow> plain_visits off (visit_step off v e)"
  by (cases e) (auto simp: plain_visits_def plain_range_def split: list.splits)

lemma page_run_concrete:
  assumes "search_params parse" "date_parser dparse" "time_zone off" "plain_visits off v" "list_all (plain_event off) es"
  shows "foldl (page_step parse dparse off) (concrete v) es = concrete (foldl (visit_step off) v es)"
  using assms(4,5)
proof (induction es arbitrary: v)
  case (Cons e es)
  then show ?case
    using page_step_concrete [OF assms(1-3) Cons.prems(1), of e] plain_visit_step [of off v e] by simp
qed simp

lemma open_page_concrete: "open_page parse dparse off t now = concrete \<lparr>past = [], current = read_url parse dparse off t now, future = []\<rparr>"
  by (simp add: open_page_def concrete_def sync_url_def Let_def)

text \<open>
  C4. The address bar is a faithful memory: however the user changes the period and moves through
  the browser's history, at whatever times, the page shows exactly the ranges of a browser history
  that stored the ranges themselves, and the address is always the text of the range shown, as long as
  the ranges are of times whose nearby midnights the code finds (\<open>plain_time\<close>, see C5).
\<close>

theorem history_refines:
  assumes "search_params parse" "date_parser dparse" "time_zone off"
    and "plain_range off (read_url parse dparse off t now)" "list_all (plain_event off) es"
  shows "foldl (page_step parse dparse off) (open_page parse dparse off t now) es
    = concrete (foldl (visit_step off) \<lparr>past = [], current = read_url parse dparse off t now, future = []\<rparr> es)"
  unfolding open_page_concrete
  by (rule page_run_concrete [OF assms(1-3) _ assms(5)]) (simp add: plain_visits_def assms(4))

text \<open>Opened on a plain address, then a week, then back: the day of the first visit is shown again.\<close>

lemma history_refines_witness:
  "shown (foldl (page_step form_parse iso_parse sao_paulo) (open_page form_parse iso_parse sao_paulo [] 1710000000000)
      [ChangePeriod WeekPeriod 1720000000000, GoBack 1730000000000]) = getPeriodRange DayPeriod 1710000000000 sao_paulo"
proof -
  have "plain_year sao_paulo 1710000000000" "plain_year sao_paulo 1720000000000" by code_simp+
  then have y: "plain_time sao_paulo 1710000000000" "plain_time sao_paulo 1720000000000"
    by (simp_all add: plain_time_def sao_paulo_clear)
  have first: "read_url form_parse iso_parse sao_paulo [] 1710000000000 = getPeriodRange DayPeriod 1710000000000 sao_paulo"
    by (simp add: read_url_def form_parse_def parseHistorySearch_def isPeriod_def)
  have "plain_range sao_paulo (read_url form_parse iso_parse sao_paulo [] 1710000000000)"
    using y(1) unfolding first plain_range_def by blast
  from history_refines [OF form.search_params_axioms iso.date_parser_axioms sao_paulo.time_zone_axioms this,
      of "[ChangePeriod WeekPeriod 1720000000000, GoBack 1730000000000]"] y(2)
  show ?thesis by (simp add: first concrete_def)
qed

end
