(* ===== verification/Forms.thy ===== *)
theory Forms
  imports JsShow JsValue JsUri "HOL-Library.List_Lexorder"
begin

text \<open>
  The validation of the forms: \<open>web/src/features/onboarding/schema.ts\<close>, \<open>currencies.ts\<close> and
  \<open>web/src/features/settings/settings-model.ts\<close>.

  The fields of a form are strings, as in the source; \<open>onboarding_values\<close> is \<open>settings_values\<close> with
  the three fields of the account, so that both validators read the same selectors. An object of
  errors is the list of its properties in insertion order, because the first one gets the focus.
  Messages are constructors: one for each text of the source.

  Parameters (\<open>locale_env\<close>): whether \<open>Intl.DateTimeFormat\<close> accepts a time zone, and the Unicode
  tables of \<open>toUpperCase\<close> and \<open>toLowerCase\<close>.
\<close>

section \<open>Fields, messages and values\<close>

datatype field = Username | Password | ConfirmPassword | LoggerHost | LoggerSerial | LoggerPort | ModbusSlave
  | PanelCount | PanelWattage | ActiveMPPT | Latitude | Longitude | Timezone | Currency | Tariff | RetentionDays
  | CurrentPassword | General

datatype message = UsernameMissing | PasswordShort | PasswordLong | PasswordsDiffer
  | HostInvalid | SerialInvalid | PortInvalid | SlaveInvalid
  | CountInvalid | WattageInvalid | PowerTooHigh | NoInput
  | LatitudeInvalid | LongitudeInvalid | TimezoneInvalid | CurrencyInvalid | CurrencyRefused | TariffInvalid | RetentionInvalid
  | SerialRefused | ServerRefused field | SettingsRefused
  | PasswordMissing | PasswordRefused | ChangedElsewhere | Unreachable | SaveFailed | SetupFailed

type_synonym errors = "(field \<times> message) list"

record settings_values =
  activeMPPT :: "jsnum list"
  currency :: jsstring
  latitude :: jsstring
  loggerHost :: jsstring
  loggerPort :: jsstring
  loggerSerial :: jsstring
  longitude :: jsstring
  modbusSlave :: jsstring
  panelCount :: jsstring
  panelWattage :: jsstring
  retentionDays :: jsstring
  tariff :: jsstring
  timezone :: jsstring

record onboarding_values = settings_values +
  confirmPassword :: jsstring
  password :: jsstring
  username :: jsstring

text \<open>\<open>Settings\<close> of \<open>api/types.ts\<close>, what the server stores.\<close>

record settings =
  s_activeMPPT :: "jsnum list"
  s_currency :: jsstring
  s_latitude :: jsnum
  s_loggerHost :: jsstring
  s_loggerPort :: jsnum
  s_loggerSerial :: jsstring
  s_longitude :: jsnum
  s_modbusSlave :: jsnum
  s_panelCount :: jsnum
  s_panelWattage :: jsnum
  s_retentionDays :: jsnum
  s_tariffMinorPerKWh :: jsnum
  s_timezone :: jsstring

record bootstrap_payload =
  p_username :: jsstring
  p_password :: jsstring
  p_settings :: settings

record locale_env =
  zone_ok :: "jsstring \<Rightarrow> bool"
  upper :: "jsstring \<Rightarrow> jsstring"
  lower :: "jsstring \<Rightarrow> jsstring"

section \<open>Editing a form\<close>

text \<open>\<open>{ ...current, [field]: value }\<close> for the text fields, and the switches of the inputs.\<close>

fun set_settings_field :: "field \<Rightarrow> jsstring \<Rightarrow> 'a settings_values_scheme \<Rightarrow> 'a settings_values_scheme" where
  "set_settings_field Currency s v = v\<lparr>currency := s\<rparr>"
| "set_settings_field Latitude s v = v\<lparr>latitude := s\<rparr>"
| "set_settings_field LoggerHost s v = v\<lparr>loggerHost := s\<rparr>"
| "set_settings_field LoggerPort s v = v\<lparr>loggerPort := s\<rparr>"
| "set_settings_field LoggerSerial s v = v\<lparr>loggerSerial := s\<rparr>"
| "set_settings_field Longitude s v = v\<lparr>longitude := s\<rparr>"
| "set_settings_field ModbusSlave s v = v\<lparr>modbusSlave := s\<rparr>"
| "set_settings_field PanelCount s v = v\<lparr>panelCount := s\<rparr>"
| "set_settings_field PanelWattage s v = v\<lparr>panelWattage := s\<rparr>"
| "set_settings_field RetentionDays s v = v\<lparr>retentionDays := s\<rparr>"
| "set_settings_field Tariff s v = v\<lparr>tariff := s\<rparr>"
| "set_settings_field Timezone s v = v\<lparr>timezone := s\<rparr>"
| "set_settings_field _ s v = v"

fun set_onboarding_field :: "field \<Rightarrow> jsstring \<Rightarrow> onboarding_values \<Rightarrow> onboarding_values" where
  "set_onboarding_field Username s v = v\<lparr>username := s\<rparr>"
| "set_onboarding_field Password s v = v\<lparr>password := s\<rparr>"
| "set_onboarding_field ConfirmPassword s v = v\<lparr>confirmPassword := s\<rparr>"
| "set_onboarding_field f s v = set_settings_field f s v"

text \<open>\<open>{ ...current, [field]: undefined }\<close>: the property reads as absent.\<close>

definition drop_error :: "field \<Rightarrow> errors \<Rightarrow> errors" where
  "drop_error f es = filter (\<lambda>(g, m). g \<noteq> f) es"

section \<open>Numbers in fields\<close>

definition integer :: "jsstring \<Rightarrow> jsnum option" where
  "integer s = (if \<not> all_digits s then None
     else let n = fl (of_nat (digits_val s)) in if is_safe_integer n then Some n else None)"

text \<open>\<open>s.replace(',', '.')\<close>: the first comma only.\<close>

fun replace_comma :: "jsstring \<Rightarrow> jsstring" where
  "replace_comma [] = []"
| "replace_comma (c # s) = (if c = 44 then 46 # s else c # replace_comma s)"

definition decimal :: "jsstring \<Rightarrow> jsnum option" where
  "decimal s = (let normalized = replace_comma (trim s) in
     if \<not> decimal_shape normalized then None
     else let n = number_of_decimal normalized in if is_finite n then Some n else None)"

text \<open>\<open>/^(\d+)(?:[.,](\d{1,2}))?$/\<close>: the whole part and the fraction, empty when it is not there.\<close>

definition tariff_match :: "jsstring \<Rightarrow> (jsstring \<times> jsstring) option" where
  "tariff_match s = (let w = whole_digits s; r = after_whole s in
     if w = [] then None
     else if r = [] then Some (w, [])
     else if (hd r = 46 \<or> hd r = 44) \<and> list_all is_digit (tl r) \<and> length (tl r) \<in> {1, 2} then Some (w, tl r)
     else None)"

definition tariffMinor :: "jsstring \<Rightarrow> jsnum option" where
  "tariffMinor s = (case tariff_match s of None \<Rightarrow> None
     | Some (w, f) \<Rightarrow> let minor = digits_val w * 100 + digits_val (pad_end 2 48 f) in
         if 1000000000 < minor then None else Some (fl (of_nat minor)))"

section \<open>Checks\<close>

definition ip_part :: "jsstring \<Rightarrow> bool" where
  "ip_part p \<longleftrightarrow> all_digits p \<and> (p = [48] \<or> hd p \<noteq> 48 \<and> length p \<le> 3) \<and> digits_val p \<le> 255"

definition validIPv4 :: "jsstring \<Rightarrow> bool" where
  "validIPv4 s \<longleftrightarrow> (let parts = split_on 46 s in length parts = 4 \<and> list_all ip_part parts)"

definition validLoggerSerial :: "jsstring \<Rightarrow> bool" where
  "validLoggerSerial s \<longleftrightarrow> all_digits s \<and> digits_val s \<le> 4294967295"

definition validTimezone :: "locale_env \<Rightarrow> jsstring \<Rightarrow> bool" where
  "validTimezone env s \<longleftrightarrow> s \<noteq> [] \<and> s \<noteq> js ''Local'' \<and> zone_ok env s"

text \<open>The literal of the table and its split at blanks.\<close>

definition ISO_TEXT :: string where
  "ISO_TEXT = ''AED AFN ALL AMD ANG AOA ARS AUD AWG AZN BAM BBD BDT BGN BHD BIF BMD BND BOB BOV BRL BSD BTN BWP BYN '' @
    ''BZD CAD CDF CHE CHF CHW CLF CLP CNY COP COU CRC CUC CUP CVE CZK DJF DKK DOP DZD EGP ERN ETB EUR FJD '' @
    ''FKP GBP GEL GHS GIP GMD GNF GTQ GYD HKD HNL HRK HTG HUF IDR ILS INR IQD IRR ISK JMD JOD JPY KES KGS '' @
    ''KHR KMF KPW KRW KWD KYD KZT LAK LBP LKR LRD LSL LYD MAD MDL MGA MKD MMK MNT MOP MRU MUR MVR MWK MXN '' @
    ''MXV MYR MZN NAD NGN NIO NOK NPR NZD OMR PAB PEN PGK PHP PKR PLN PYG QAR RON RSD RUB RWF SAR SBD SCR '' @
    ''SDG SEK SGD SHP SLE SLL SOS SRD SSP STN SVC SYP SZL THB TJS TMT TND TOP TRY TTD TWD TZS UAH UGX USD '' @
    ''USN UYI UYU UYW UZS VED VES VND VUV WST XAF XAG XAU XBA XBB XBC XBD XCD XDR XOF XPD XPF XPT XSU XTS '' @
    ''XUA XXX YER ZAR ZMW ZWL''"

definition HELIO_ISO_4217 :: "jsstring list" where
  "HELIO_ISO_4217 = split_on 32 (js ISO_TEXT)"

definition three_upper :: "jsstring \<Rightarrow> bool" where
  "three_upper s \<longleftrightarrow> length s = 3 \<and> list_all is_upper s"

definition validCurrency :: "locale_env \<Rightarrow> jsstring \<Rightarrow> bool" where
  "validCurrency env s \<longleftrightarrow> (let normalized = upper env (trim s) in
     three_upper normalized \<and> normalized \<in> set HELIO_ISO_4217)"

text \<open>A field that must hold an integer between two bounds.\<close>

definition integer_outside :: "int \<Rightarrow> int \<Rightarrow> jsstring \<Rightarrow> bool" where
  "integer_outside lo hi s = (case integer s of None \<Rightarrow> True
     | Some n \<Rightarrow> jlt n (Fin (of_int lo)) \<or> jlt (Fin (of_int hi)) n)"

definition integer_below :: "int \<Rightarrow> jsstring \<Rightarrow> bool" where
  "integer_below lo s = (case integer s of None \<Rightarrow> True | Some n \<Rightarrow> jlt n (Fin (of_int lo)))"

definition decimal_outside :: "int \<Rightarrow> jsstring \<Rightarrow> bool" where
  "decimal_outside bound s = (case decimal s of None \<Rightarrow> True
     | Some n \<Rightarrow> jlt n (Fin (of_int (- bound))) \<or> jlt (Fin (of_int bound)) n)"

definition power_above :: "jsstring \<Rightarrow> jsstring \<Rightarrow> bool" where
  "power_above count watts = (case (integer count, integer watts) of
       (Some c, Some w) \<Rightarrow> jlt (Fin 0) c \<and> jlt (Fin 0) w \<and> jlt (Fin 12000) (jmul c w)
     | _ \<Rightarrow> False)"

text \<open>The assignments \<open>if (c) errors.f = m\<close>, in order.\<close>

definition gather :: "(bool \<times> field \<times> message) list \<Rightarrow> errors" where
  "gather cs = fold (\<lambda>(c, f, m) es. if c then put f m es else es) cs []"

section \<open>The onboarding schema\<close>

definition initialOnboardingValues :: "jsstring \<Rightarrow> onboarding_values" where
  "initialOnboardingValues browserTimezone = \<lparr>activeMPPT = [Fin 1], currency = js ''BRL'', latitude = [],
     loggerHost = [], loggerPort = js ''8899'', loggerSerial = [], longitude = [], modbusSlave = js ''1'',
     panelCount = js ''7'', panelWattage = js ''610'', retentionDays = js ''730'', tariff = js ''0,95'',
     timezone = browserTimezone, confirmPassword = [], password = [], username = []\<rparr>"

definition validateStep :: "locale_env \<Rightarrow> nat \<Rightarrow> onboarding_values \<Rightarrow> errors" where
  "validateStep env step v = gather (
     if step = 0 then
       [(trim (username v) = [], Username, UsernameMissing),
        (length (code_points (password v)) < 12, Password, PasswordShort),
        (\<not> length (code_points (password v)) < 12 \<and> 128 < utf8_bytes (password v), Password, PasswordLong),
        (password v \<noteq> confirmPassword v, ConfirmPassword, PasswordsDiffer)]
     else if step = 1 then
       [(\<not> validIPv4 (loggerHost v), LoggerHost, HostInvalid),
        (\<not> validLoggerSerial (loggerSerial v), LoggerSerial, SerialInvalid),
        (integer_outside 1 65535 (loggerPort v), LoggerPort, PortInvalid),
        (integer_outside 1 247 (modbusSlave v), ModbusSlave, SlaveInvalid)]
     else if step = 2 then
       [(integer_below 1 (panelCount v), PanelCount, CountInvalid),
        (integer_below 1 (panelWattage v), PanelWattage, WattageInvalid),
        (power_above (panelCount v) (panelWattage v), PanelCount, PowerTooHigh),
        (activeMPPT v = [], ActiveMPPT, NoInput)]
     else if step = 3 then
       [(decimal_outside 90 (latitude v), Latitude, LatitudeInvalid),
        (decimal_outside 180 (longitude v), Longitude, LongitudeInvalid),
        (\<not> validTimezone env (timezone v), Timezone, TimezoneInvalid),
        (\<not> validCurrency env (currency v), Currency, CurrencyInvalid),
        (tariffMinor (tariff v) = None, Tariff, TariffInvalid),
        (integer_outside 30 3650 (retentionDays v), RetentionDays, RetentionInvalid)]
     else [])"

text \<open>A thrown error is the field it names.\<close>

definition requiredInteger :: "jsstring \<Rightarrow> field \<Rightarrow> field + jsnum" where
  "requiredInteger s f = (case integer s of None \<Rightarrow> Inl f | Some n \<Rightarrow> Inr n)"

definition requiredDecimal :: "jsstring \<Rightarrow> field \<Rightarrow> field + jsnum" where
  "requiredDecimal s f = (case decimal s of None \<Rightarrow> Inl f | Some n \<Rightarrow> Inr n)"

definition requiredTariffMinor :: "jsstring \<Rightarrow> field + jsnum" where
  "requiredTariffMinor s = (case tariffMinor s of None \<Rightarrow> Inl Tariff | Some n \<Rightarrow> Inr n)"

text \<open>\<open>[...xs].sort()\<close>: by the text of the numbers.\<close>

definition sort_text :: "jsnum list \<Rightarrow> jsnum list" where
  "sort_text xs = sort_key num_text xs"

definition toBootstrapPayload :: "locale_env \<Rightarrow> onboarding_values \<Rightarrow> field + bootstrap_payload" where
  "toBootstrapPayload env v =
     bind_result (requiredDecimal (latitude v) Latitude) (\<lambda>lat.
     bind_result (requiredInteger (loggerPort v) LoggerPort) (\<lambda>port.
     bind_result (requiredDecimal (longitude v) Longitude) (\<lambda>long.
     bind_result (requiredInteger (modbusSlave v) ModbusSlave) (\<lambda>slave.
     bind_result (requiredInteger (panelCount v) PanelCount) (\<lambda>count.
     bind_result (requiredInteger (panelWattage v) PanelWattage) (\<lambda>watts.
     bind_result (requiredInteger (retentionDays v) RetentionDays) (\<lambda>days.
     bind_result (requiredTariffMinor (tariff v)) (\<lambda>minor.
     Inr \<lparr>p_username = trim (username v), p_password = password v, p_settings =
       \<lparr>s_activeMPPT = sort_text (activeMPPT v), s_currency = upper env (trim (currency v)), s_latitude = lat,
        s_loggerHost = trim (loggerHost v), s_loggerPort = port, s_loggerSerial = loggerSerial v,
        s_longitude = long, s_modbusSlave = slave, s_panelCount = count, s_panelWattage = watts,
        s_retentionDays = days, s_tariffMinorPerKWh = minor, s_timezone = trim (timezone v)\<rparr>\<rparr>))))))))"

definition installedPower :: "onboarding_values \<Rightarrow> jsnum" where
  "installedPower v = (case (integer (panelCount v), integer (panelWattage v)) of
       (Some count, Some perPanel) \<Rightarrow> let watts = jmul count perPanel in if is_safe_integer watts then watts else Fin 0
     | _ \<Rightarrow> Fin 0)"

section \<open>Errors of the server\<close>

text \<open>\<open>p\<close> occurs in \<open>s\<close>: a regular expression without operators, or \<open>includes\<close>.\<close>

fun occurs :: "jsstring \<Rightarrow> jsstring \<Rightarrow> bool" where
  "occurs p [] = (p = [])"
| "occurs p (c # s) = (starts_with p (c # s) \<or> occurs p s)"

definition server_mappings :: "(jsstring list \<times> field \<times> message) list" where
  "server_mappings =
    [([js ''username''], Username, UsernameMissing),
     ([js ''logger host'', js ''loggerhost''], LoggerHost, ServerRefused LoggerHost),
     ([js ''logger serial'', js ''loggerserial'', js ''serial''], LoggerSerial, ServerRefused LoggerSerial),
     ([js ''logger port'', js ''loggerport''], LoggerPort, ServerRefused LoggerPort),
     ([js ''modbus slave'', js ''modbusslave''], ModbusSlave, ServerRefused ModbusSlave),
     ([js ''installed power'', js ''panel count''], PanelCount, ServerRefused PanelCount),
     ([js ''panel wattage'', js ''panelwattage'', js ''wattage''], PanelWattage, ServerRefused PanelWattage),
     ([js ''mppt''], ActiveMPPT, ServerRefused ActiveMPPT),
     ([js ''latitude''], Latitude, ServerRefused Latitude),
     ([js ''longitude''], Longitude, ServerRefused Longitude),
     ([js ''timezone'', js ''time zone''], Timezone, ServerRefused Timezone),
     ([js ''currency''], Currency, ServerRefused Currency),
     ([js ''tariff''], Tariff, ServerRefused Tariff),
     ([js ''retention''], RetentionDays, ServerRefused RetentionDays)]"

definition serverFieldError :: "locale_env \<Rightarrow> jsstring \<Rightarrow> jsstring \<Rightarrow> field \<times> message" where
  "serverFieldError env message code = (let normalized = lower env message in
     if code = js ''invalid_request'' then (Username, UsernameMissing)
     else if code = js ''invalid_password'' \<or> occurs (js ''password'') normalized then (Password, ServerRefused Password)
     else case find (\<lambda>(ps, _). list_ex (\<lambda>p. occurs p normalized) ps) server_mappings of
         Some (_, f, m) \<Rightarrow> (f, m)
       | None \<Rightarrow> (General, ServerRefused General))"

section \<open>The settings model\<close>

text \<open>\<open>x % y\<close>: the remainder has the sign of \<open>x\<close> and is exact.\<close>

fun jrem :: "jsnum \<Rightarrow> jsnum \<Rightarrow> jsnum" where
  "jrem (Fin a) (Fin b) = (if b = 0 then NaN
     else Fin (a - b * of_int (if 0 \<le> a / b then \<lfloor>a / b\<rfloor> else \<lceil>a / b\<rceil>)))"
| "jrem (Fin a) PInf = Fin a"
| "jrem (Fin a) NInf = Fin a"
| "jrem _ _ = NaN"

definition settings_tariffMinor :: "jsstring \<Rightarrow> jsnum option" where
  "settings_tariffMinor s = (case tariff_match (trim s) of None \<Rightarrow> None
     | Some (w, f) \<Rightarrow> let minor = digits_val w * 100 + digits_val (pad_end 2 48 f) in
         if minor \<le> 1000000000 then Some (fl (of_nat minor)) else None)"

definition settingsToValues :: "settings \<Rightarrow> settings_values" where
  "settingsToValues st = (let major = jfloor (jdiv (s_tariffMinorPerKWh st) (Fin 100));
       fraction = pad_start 2 48 (num_text (jrem (s_tariffMinorPerKWh st) (Fin 100))) in
     \<lparr>activeMPPT = s_activeMPPT st, currency = s_currency st, latitude = num_text (s_latitude st),
      loggerHost = s_loggerHost st, loggerPort = num_text (s_loggerPort st), loggerSerial = s_loggerSerial st,
      longitude = num_text (s_longitude st), modbusSlave = num_text (s_modbusSlave st),
      panelCount = num_text (s_panelCount st), panelWattage = num_text (s_panelWattage st),
      retentionDays = num_text (s_retentionDays st), tariff = num_text major @ [44] @ fraction,
      timezone = s_timezone st\<rparr>)"

text \<open>\<open>count && wattage && count * wattage > 12_000\<close>.\<close>

definition settings_power_above :: "jsstring \<Rightarrow> jsstring \<Rightarrow> bool" where
  "settings_power_above count watts = (case (integer count, integer watts) of
       (Some c, Some w) \<Rightarrow> truthy (JNum c) \<and> truthy (JNum w) \<and> jlt (Fin 12000) (jmul c w)
     | _ \<Rightarrow> False)"

definition validateSettings :: "locale_env \<Rightarrow> settings_values \<Rightarrow> errors" where
  "validateSettings env v = gather
     [(integer_below 1 (panelCount v), PanelCount, CountInvalid),
      (integer_below 1 (panelWattage v), PanelWattage, WattageInvalid),
      (settings_power_above (panelCount v) (panelWattage v), PanelCount, PowerTooHigh),
      (activeMPPT v = [], ActiveMPPT, NoInput),
      (\<not> validIPv4 (loggerHost v), LoggerHost, HostInvalid),
      (\<not> (all_digits (loggerSerial v) \<and> digits_val (loggerSerial v) \<le> 4294967295), LoggerSerial, SerialRefused),
      (integer_outside 1 65535 (loggerPort v), LoggerPort, PortInvalid),
      (integer_outside 1 247 (modbusSlave v), ModbusSlave, SlaveInvalid),
      (decimal_outside 90 (latitude v), Latitude, LatitudeInvalid),
      (decimal_outside 180 (longitude v), Longitude, LongitudeInvalid),
      (\<not> validTimezone env (timezone v), Timezone, TimezoneInvalid),
      (upper env (trim (currency v)) \<notin> set HELIO_ISO_4217, Currency, CurrencyRefused),
      (settings_tariffMinor (tariff v) = None, Tariff, TariffInvalid),
      (integer_outside 30 3650 (retentionDays v), RetentionDays, RetentionInvalid)]"

definition valuesToSettings :: "locale_env \<Rightarrow> settings_values \<Rightarrow> settings" where
  "valuesToSettings env v =
     \<lparr>s_activeMPPT = sort_text (activeMPPT v), s_currency = upper env (trim (currency v)),
      s_latitude = or_else (decimal (latitude v)) (Fin 0), s_loggerHost = trim (loggerHost v),
      s_loggerPort = or_else (integer (loggerPort v)) (Fin 0), s_loggerSerial = loggerSerial v,
      s_longitude = or_else (decimal (longitude v)) (Fin 0), s_modbusSlave = or_else (integer (modbusSlave v)) (Fin 0),
      s_panelCount = or_else (integer (panelCount v)) (Fin 0), s_panelWattage = or_else (integer (panelWattage v)) (Fin 0),
      s_retentionDays = or_else (integer (retentionDays v)) (Fin 0),
      s_tariffMinorPerKWh = or_else (settings_tariffMinor (tariff v)) (Fin 0), s_timezone = trim (timezone v)\<rparr>"

definition derivedInstalledPower :: "settings_values \<Rightarrow> jsnum" where
  "derivedInstalledPower v = (case (integer (panelCount v), integer (panelWattage v)) of
       (Some c, Some w) \<Rightarrow> if truthy (JNum c) \<and> truthy (JNum w) \<and> is_safe_integer (jmul c w) then jmul c w else Fin 0
     | _ \<Rightarrow> Fin 0)"

definition differs :: "jsnum option \<Rightarrow> jsnum \<Rightarrow> bool" where
  "differs v n = (case v of None \<Rightarrow> True | Some m \<Rightarrow> \<not> jeq m n)"

definition loggerIdentityChanged :: "settings_values \<Rightarrow> settings \<Rightarrow> bool" where
  "loggerIdentityChanged v original \<longleftrightarrow> trim (loggerHost v) \<noteq> s_loggerHost original
     \<or> loggerSerial v \<noteq> s_loggerSerial original
     \<or> differs (integer (loggerPort v)) (s_loggerPort original)
     \<or> differs (integer (modbusSlave v)) (s_modbusSlave original)"

text \<open>The object \<open>JSON.stringify\<close> writes for the values.\<close>

definition values_json :: "settings_values \<Rightarrow> jsval" where
  "values_json v = JObj
     [(js ''activeMPPT'', JArr (map JNum (activeMPPT v))), (js ''currency'', JStr (currency v)),
      (js ''latitude'', JStr (latitude v)), (js ''loggerHost'', JStr (loggerHost v)),
      (js ''loggerPort'', JStr (loggerPort v)), (js ''loggerSerial'', JStr (loggerSerial v)),
      (js ''longitude'', JStr (longitude v)), (js ''modbusSlave'', JStr (modbusSlave v)),
      (js ''panelCount'', JStr (panelCount v)), (js ''panelWattage'', JStr (panelWattage v)),
      (js ''retentionDays'', JStr (retentionDays v)), (js ''tariff'', JStr (tariff v)),
      (js ''timezone'', JStr (timezone v))]"

definition sameSettingsValues :: "settings_values \<Rightarrow> settings_values \<Rightarrow> bool" where
  "sameSettingsValues left right \<longleftrightarrow> json_image (values_json left) = json_image (values_json right)"

definition sameSettings :: "settings \<Rightarrow> settings \<Rightarrow> bool" where
  "sameSettings left right \<longleftrightarrow> sameSettingsValues (settingsToValues left) (settingsToValues right)"

definition settingsServerError :: "locale_env \<Rightarrow> jsstring \<Rightarrow> jsstring \<Rightarrow> field \<times> message" where
  "settingsServerError env message code = (let (f, safe) = serverFieldError env message code in
     if f \<in> {General, Username, Password, ConfirmPassword} then (General, SettingsRefused) else (f, safe))"

section \<open>The table of currencies\<close>

text \<open>
  Every code of the table is three capital letters. The check runs over the characters of the
  literal, where it is quick, and carries over to the split string.
\<close>

definition capital :: "char \<Rightarrow> bool" where
  "capital c \<longleftrightarrow> c \<in> set ''ABCDEFGHIJKLMNOPQRSTUVWXYZ''"

fun split_chars :: "string \<Rightarrow> string list" where
  "split_chars [] = [[]]"
| "split_chars (c # s) = (if c = CHR '' '' then [] # split_chars s
     else (case split_chars s of [] \<Rightarrow> [[c]] | p # ps \<Rightarrow> (c # p) # ps))"

lemma split_js: "split_on 32 (js s) = map js (split_chars s)"
proof (induction s)
  case (Cons c s)
  have "js (c # s) = of_char c # js s" by (simp add: js_def)
  with Cons show ?case by (simp add: of_char_blank js_def split: list.splits)
qed (simp add: js_def)

lemma capital_upper: "capital c \<Longrightarrow> is_upper (of_char c)"
proof -
  have "list_all (\<lambda>c. is_upper (of_char c)) ''ABCDEFGHIJKLMNOPQRSTUVWXYZ''" by code_simp
  then show "capital c \<Longrightarrow> is_upper (of_char c)" by (simp only: capital_def list_all_iff)
qed

lemma currencies_upper: "list_all three_upper HELIO_ISO_4217"
proof -
  have "list_all (\<lambda>p. length p = 3 \<and> list_all capital p) (split_chars ISO_TEXT)" by code_simp
  then show ?thesis
    unfolding HELIO_ISO_4217_def split_js by (auto simp: list_all_iff three_upper_def js_def capital_upper)
qed

lemma currency_BRL: "js ''BRL'' \<in> set HELIO_ISO_4217"
proof -
  have "''BRL'' \<in> set (split_chars ISO_TEXT)" by code_simp
  then show ?thesis unfolding HELIO_ISO_4217_def split_js by (simp only: set_map imageI)
qed

section \<open>Reading the checks\<close>

lemma put_not_Nil [simp]: "put k v ps \<noteq> []"
  by (cases "(k, v, ps)" rule: put.cases) simp_all

lemma gather_keys: "fst ` set (gather cs) = {f. \<exists>m. (True, f, m) \<in> set cs}"
proof -
  have "fst ` set (fold (\<lambda>(c, f, m) es. if c then put f m es else es) cs es) = fst ` set es \<union> {f. \<exists>m. (True, f, m) \<in> set cs}" for es
  proof (induction cs arbitrary: es)
    case (Cons p cs)
    obtain c f m where p: "p = (c, f, m)" by (cases p)
    show ?case unfolding p by (cases c) (auto simp: Cons.IH keys_put)
  qed simp
  from this [of "[]"] show ?thesis by (simp add: gather_def)
qed

lemma gather_Nil: "gather cs = [] \<longleftrightarrow> (\<forall>(c, f, m) \<in> set cs. \<not> c)"
proof -
  have "gather cs = [] \<longleftrightarrow> fst ` set (gather cs) = {}" by simp
  then show ?thesis unfolding gather_keys by (auto 0 3)
qed

lemma integer_Some:
  "integer s = Some n \<longleftrightarrow> all_digits s \<and> digits_val s \<le> 9007199254740991 \<and> n = Fin (of_nat (digits_val s))"
proof -
  have "fl (of_nat (digits_val s)) = Fin (of_nat (digits_val s))" if "digits_val s \<le> 9007199254740991"
    using that by (intro fl_nat) simp
  then show ?thesis by (auto simp: integer_def Let_def fl_nat_safe simp del: is_safe_integer.simps)
qed

lemma integer_show: "n \<le> 9007199254740991 \<Longrightarrow> integer (show_nat n) = Some (Fin (of_nat n))"
  by (simp add: integer_Some)

text \<open>An integer within bounds, as a number.\<close>

definition nat_within :: "nat \<Rightarrow> nat \<Rightarrow> jsnum \<Rightarrow> bool" where
  "nat_within lo hi x \<longleftrightarrow> (\<exists>n. x = Fin (of_nat n) \<and> lo \<le> n \<and> n \<le> hi)"

lemma not_outside:
  assumes "\<not> integer_outside (int lo) (int hi) s"
  shows "\<exists>x. integer s = Some x \<and> nat_within lo hi x"
proof -
  from assms obtain x where x: "integer s = Some x" "\<not> jlt x (Fin (of_nat lo))" "\<not> jlt (Fin (of_nat hi)) x"
    by (auto simp: integer_outside_def split: option.splits)
  then show ?thesis by (auto simp: integer_Some nat_within_def)
qed

lemma not_below:
  assumes "\<not> integer_below (int lo) s"
  shows "\<exists>x n. integer s = Some x \<and> x = Fin (of_nat n) \<and> lo \<le> n"
  using assms by (auto simp: integer_below_def integer_Some split: option.splits)

lemma decimal_finite: "decimal s = Some x \<Longrightarrow> \<exists>q. x = Fin q"
  by (cases x) (auto simp: decimal_def Let_def split: if_splits)

lemma not_decimal_outside:
  assumes "\<not> decimal_outside b s"
  shows "\<exists>q. decimal s = Some (Fin q) \<and> \<bar>q\<bar> \<le> of_int b"
proof -
  from assms obtain x where x: "decimal s = Some x" "\<not> jlt x (Fin (of_int (- b)))" "\<not> jlt (Fin (of_int b)) x"
    by (auto simp: decimal_outside_def split: option.splits)
  with decimal_finite [OF x(1)] show ?thesis by (auto simp: abs_le_iff)
qed

lemma tariffMinor_Some: "tariffMinor s = Some x \<Longrightarrow> nat_within 0 1000000000 x"
proof -
  assume "tariffMinor s = Some x"
  then obtain n where "n \<le> 1000000000" "x = fl (of_nat n)"
    by (auto simp: tariffMinor_def Let_def not_less split: option.splits if_splits simp del: of_nat_add of_nat_mult)
  then show ?thesis by (auto simp: nat_within_def fl_nat)
qed

lemma settings_tariffMinor_eq: "settings_tariffMinor s = tariffMinor (trim s)"
  by (simp add: settings_tariffMinor_def tariffMinor_def Let_def split: option.splits)

end
