(* ===== verification/ApiClient.thy ===== *)
theory ApiClient
  imports JsShow JsValue JsUri
begin

text \<open>
  The HTTP client of the web application: \<open>web/src/api/client.ts\<close>, the calls of
  \<open>web/src/api/queries.ts\<close> and the retry policy of \<open>web/src/app/query-client.ts\<close>.

  \<open>fetch\<close> is the browser: a request is what the client hands to it, and what comes back is a
  response or a rejection. The module's variable \<open>csrfToken\<close> is state that is passed explicitly;
  the handler of status 401, which \<open>configureUnauthorizedHandler\<close> installs, is a function on the
  state of the application.

  Parameters: \<open>upper\<close> and \<open>lower\<close> (\<open>toUpperCase\<close> and \<open>toLowerCase\<close>) and \<open>to_text\<close> (\<open>String\<close> of a value).
\<close>

section \<open>Requests and responses\<close>

record request_options =
  o_method :: "jsstring option"
  o_headers :: "(jsstring \<times> jsstring) list"
  o_body :: "jsval option"
  o_suppress :: bool

record http_request =
  r_url :: jsstring
  r_method :: jsstring
  r_headers :: "(jsstring \<times> jsstring) list"
  r_body :: "jsval option"

text \<open>\<open>body_json\<close> is what \<open>response.json()\<close> gives, \<open>None\<close> when it rejects.\<close>

record http_response =
  status :: int
  content_type :: "jsstring option"
  retry_after :: "jsstring option"
  disposition :: "jsstring option"
  body_json :: "jsval option"

record api_error =
  e_code :: jsval
  e_status :: int
  e_message :: jsstring
  e_retry :: "jsnum option"

text \<open>What a call ends with: its data, an \<open>ApiError\<close>, or a \<open>TypeError\<close> (a failed fetch, or a property of \<open>null\<close>).\<close>

datatype failure = ApiFailure api_error | TypeFailure

section \<open>Building a request\<close>

definition MUTATION_METHODS :: "jsstring set" where
  "MUTATION_METHODS = {js ''DELETE'', js ''PATCH'', js ''POST'', js ''PUT''}"

definition csrf_header :: jsstring where
  "csrf_header = js ''X-CSRF-Token''"

definition build_request ::
  "(jsstring \<Rightarrow> jsstring) \<Rightarrow> jsstring \<Rightarrow> jsstring option \<Rightarrow> jsstring \<Rightarrow> request_options \<Rightarrow> http_request" where
  "build_request upper base csrf path opts =
     (let method = upper (or_else (o_method opts) (js ''GET''));
          h1 = fold (\<lambda>(k, v). put k v) (o_headers opts) [(js ''Accept'', js ''application/json'')];
          h2 = (if o_body opts \<noteq> None then put (js ''Content-Type'') (js ''application/json'') h1 else h1);
          h3 = (case csrf of None \<Rightarrow> h2
            | Some token \<Rightarrow> if method \<in> MUTATION_METHODS \<and> token \<noteq> [] then put csrf_header token h2 else h2)
      in \<lparr>r_url = base @ path, r_method = method, r_headers = h3, r_body = map_option json_image (o_body opts)\<rparr>)"

section \<open>Reading a response\<close>

definition response_ok :: "http_response \<Rightarrow> bool" where
  "response_ok r \<longleftrightarrow> 200 \<le> status r \<and> status r \<le> 299"

text \<open>\<open>Number.parseInt(s, 10)\<close>.\<close>

definition parse_int :: "jsstring \<Rightarrow> jsnum" where
  "parse_int s = (let t = dropWhile is_space s;
     neg = (t \<noteq> [] \<and> hd t = 45);
     u = (if t \<noteq> [] \<and> (hd t = 45 \<or> hd t = 43) then tl t else t);
     d = takeWhile is_digit u in
     if d = [] then NaN else if neg then jneg (fl (of_nat (digits_val d))) else fl (of_nat (digits_val d)))"

definition parseRetryAfter :: "jsstring option \<Rightarrow> jsnum option" where
  "parseRetryAfter v = (case v of None \<Rightarrow> None
     | Some s \<Rightarrow> if s = [] then None
         else let seconds = parse_int s in if is_finite seconds \<and> jlt (Fin 0) seconds then Some seconds else None)"

fun contains :: "jsstring \<Rightarrow> jsstring \<Rightarrow> bool" where
  "contains p [] = (p = [])"
| "contains p (c # s) = (starts_with p (c # s) \<or> contains p s)"

definition is_json :: "(jsstring \<Rightarrow> jsstring) \<Rightarrow> http_response \<Rightarrow> bool" where
  "is_json lower r \<longleftrightarrow> contains (js ''application/json'') (lower (or_else (content_type r) []))"

definition plain_error :: "int \<Rightarrow> jsstring \<Rightarrow> jsstring \<Rightarrow> api_error" where
  "plain_error st code text = \<lparr>e_code = JStr code, e_status = st, e_message = text, e_retry = None\<rparr>"

definition invalid_response :: "http_response \<Rightarrow> jsstring \<Rightarrow> api_error" where
  "invalid_response r text = plain_error (if response_ok r then 502 else status r) (js ''invalid_response'') text"

text \<open>\<open>envelope.error?.k ?? d\<close>; reading \<open>error\<close> of \<open>null\<close> throws.\<close>

definition envelope_field :: "jsval \<Rightarrow> jsstring \<Rightarrow> jsval \<Rightarrow> jsval" where
  "envelope_field data k d = coalesce (get (get data (js ''error'')) k) d"

definition error_of :: "(jsval \<Rightarrow> jsstring) \<Rightarrow> http_response \<Rightarrow> jsval \<Rightarrow> failure" where
  "error_of to_text r data = (if data = JNull then TypeFailure
     else ApiFailure \<lparr>e_code = envelope_field data (js ''code'') (JStr (js ''request_failed'')), e_status = status r,
       e_message = to_text (envelope_field data (js ''message'')
         (JStr (js ''N'' @ [0xE3] @ js ''o foi poss'' @ [0xED] @ js ''vel concluir a solicita'' @ [0xE7, 0xE3] @ js ''o''))),
       e_retry = parseRetryAfter (retry_after r)\<rparr>)"

definition read_response ::
  "(jsstring \<Rightarrow> jsstring) \<Rightarrow> (jsval \<Rightarrow> jsstring) \<Rightarrow> http_response \<Rightarrow> failure + jsval" where
  "read_response lower to_text r =
     (if status r = 204 then Inr JUndef
      else if \<not> is_json lower r then Inl (ApiFailure (invalid_response r (js ''Resposta inesperada do servidor'')))
      else (case body_json r of
          None \<Rightarrow> Inl (ApiFailure (invalid_response r (js ''Resposta JSON inv'' @ [0xE1] @ js ''lida do servidor'')))
        | Some data \<Rightarrow> if response_ok r then Inr data else Inl (error_of to_text r data)))"

text \<open>
  A whole call on the state of the application: the fetch may reject, status 401 runs the handler
  unless it is suppressed, and then the response is read.
\<close>

definition finish_request ::
  "(jsstring \<Rightarrow> jsstring) \<Rightarrow> (jsval \<Rightarrow> jsstring) \<Rightarrow> ('w \<Rightarrow> 'w) \<Rightarrow> bool \<Rightarrow> http_response option \<Rightarrow> 'w \<Rightarrow> (failure + jsval) \<times> 'w" where
  "finish_request lower to_text unauthorized suppress response w = (case response of
       None \<Rightarrow> (Inl TypeFailure, w)
     | Some r \<Rightarrow> (read_response lower to_text r,
         if status r = 401 \<and> \<not> suppress then unauthorized w else w))"

section \<open>Downloads\<close>

definition download_request :: "jsstring \<Rightarrow> jsstring \<Rightarrow> http_request" where
  "download_request base path = \<lparr>r_url = base @ path, r_method = js ''GET'',
     r_headers = [(js ''Accept'', js ''application/vnd.sqlite3'')], r_body = None\<rparr>"

text \<open>\<open>/filename="?([^";]+)"?/i\<close>: the first place where it matches; \<open>None\<close> if there is none.\<close>

definition filename_here :: "(jsstring \<Rightarrow> jsstring) \<Rightarrow> jsstring \<Rightarrow> jsstring option" where
  "filename_here lower s = (if lower (take 9 s) \<noteq> js ''filename='' then None
     else let t = drop 9 s; u = (if t \<noteq> [] \<and> hd t = 34 then tl t else t);
            name = takeWhile (\<lambda>c. c \<noteq> 34 \<and> c \<noteq> 59) u in
          if name \<noteq> [] then Some name else None)"

fun find_filename :: "(jsstring \<Rightarrow> jsstring) \<Rightarrow> jsstring \<Rightarrow> jsstring option" where
  "find_filename lower [] = None"
| "find_filename lower (c # s) = (case filename_here lower (c # s) of
       Some name \<Rightarrow> Some name | None \<Rightarrow> find_filename lower s)"

definition finish_download ::
  "(jsstring \<Rightarrow> jsstring) \<Rightarrow> ('w \<Rightarrow> 'w) \<Rightarrow> http_response option \<Rightarrow> 'w \<Rightarrow> (failure + jsstring) \<times> 'w" where
  "finish_download lower unauthorized response w = (case response of
       None \<Rightarrow> (Inl TypeFailure, w)
     | Some r \<Rightarrow>
         (if response_ok r then Inr (or_else (find_filename lower (or_else (disposition r) [])) (js ''helio-backup.db''))
          else Inl (ApiFailure \<lparr>
            e_code = (case body_json r of None \<Rightarrow> JStr (js ''request_failed'')
              | Some data \<Rightarrow> envelope_field data (js ''code'') (JStr (js ''request_failed''))),
            e_status = status r,
            e_message = js ''N'' @ [0xE3] @ js ''o foi poss'' @ [0xED] @ js ''vel baixar o arquivo'',
            e_retry = None\<rparr>),
          if status r = 401 then unauthorized w else w))"

section \<open>Retries\<close>

definition retry :: "nat \<Rightarrow> failure \<Rightarrow> bool" where
  "retry failureCount error = (case error of
       ApiFailure e \<Rightarrow> if 400 \<le> e_status e \<and> e_status e < 500 then False else failureCount < 2
     | TypeFailure \<Rightarrow> failureCount < 2)"

text \<open>
  The query library calls \<open>retry\<close> after each failure, with the number of failures before it, and
  fetches again when it says so: the outcomes a query consumes from those of the fetches to come.
\<close>

fun run_query :: "nat \<Rightarrow> (failure + jsval) list \<Rightarrow> (failure + jsval) option \<times> nat" where
  "run_query n [] = (None, n)"
| "run_query n (Inr v # outs) = (Some (Inr v), Suc n)"
| "run_query n (Inl e # outs) = (if retry n e then run_query (Suc n) outs else (Some (Inl e), Suc n))"

section \<open>The calls of the application\<close>

datatype api_call = BootstrapStatus | SessionCall | LiveCall | SettingsCall | SolarmanCall
  | InsightsCall jsstring | AlertsCall jsstring | HealthCall | FinanceCall | ProposalsCall
  | ApproveProposal jsnum | SettingsProposal | ManualProposal jsval | CreateCycle jsval | RecalculateCycle jsnum
  | Login jsval | ConfirmCall jsval | Logout | CreateBootstrap jsval | UpdateSettings jsval
  | UpdateSolarman jsval | TestSolarman | SyncSolarman jsnum

definition API_BASE :: jsstring where
  "API_BASE = js ''/api/v1''"

definition read_options :: request_options where
  "read_options = \<lparr>o_method = None, o_headers = [], o_body = None, o_suppress = False\<rparr>"

definition send_options :: "jsstring \<Rightarrow> jsval option \<Rightarrow> request_options" where
  "send_options method payload = \<lparr>o_method = Some method, o_headers = [], o_body = payload, o_suppress = False\<rparr>"

text \<open>\<open>const { k: _, ...rest } = payload\<close>.\<close>

fun without :: "jsstring \<Rightarrow> jsval \<Rightarrow> jsval" where
  "without k (JObj ps) = JObj (filter (\<lambda>(k', v). k' \<noteq> k) ps)"
| "without k v = v"

text \<open>The base, the path and the options of a call; \<open>None\<close> when encoding the day throws.\<close>

fun call_of :: "api_call \<Rightarrow> (jsstring \<times> jsstring \<times> request_options) option" where
  "call_of BootstrapStatus = Some (API_BASE, js ''/bootstrap/status'', read_options)"
| "call_of SessionCall = Some (API_BASE, js ''/auth/session'', read_options)"
| "call_of LiveCall = Some (API_BASE, js ''/live'', read_options)"
| "call_of SettingsCall = Some (API_BASE, js ''/settings'', read_options)"
| "call_of SolarmanCall = Some (API_BASE, js ''/solarman'', read_options)"
| "call_of (InsightsCall day) = map_option (\<lambda>d. (API_BASE, js ''/insights?day='' @ d, read_options)) (encode_uri day)"
| "call_of (AlertsCall st) = Some (API_BASE, js ''/alerts?state='' @ st, read_options)"
| "call_of HealthCall = Some ([], js ''/health/components'', read_options)"
| "call_of FinanceCall = Some (API_BASE, js ''/finance/summary'', read_options)"
| "call_of ProposalsCall = Some (API_BASE, js ''/finance/tariff-proposals'', read_options)"
| "call_of (ApproveProposal i) =
     Some (API_BASE, js ''/finance/tariff-proposals/'' @ num_text i @ js ''/approve'', send_options (js ''POST'') (Some (JObj [])))"
| "call_of SettingsProposal =
     Some (API_BASE, js ''/finance/tariff-proposals/from-settings'', send_options (js ''POST'') (Some (JObj [])))"
| "call_of (ManualProposal p) = Some (API_BASE, js ''/finance/tariff-proposals/manual'', send_options (js ''POST'') (Some p))"
| "call_of (CreateCycle p) = Some (API_BASE, js ''/finance/cycles'', send_options (js ''POST'') (Some p))"
| "call_of (RecalculateCycle i) =
     Some (API_BASE, js ''/finance/cycles/'' @ num_text i @ js ''/recalculate'', send_options (js ''POST'') (Some (JObj [])))"
| "call_of (Login p) = Some (API_BASE, js ''/auth/login'', send_options (js ''POST'') (Some p))"
| "call_of (ConfirmCall p) =
     Some (API_BASE, js ''/auth/confirm-password'', (send_options (js ''POST'') (Some p))\<lparr>o_suppress := True\<rparr>)"
| "call_of Logout = Some (API_BASE, js ''/auth/logout'', send_options (js ''POST'') None)"
| "call_of (CreateBootstrap p) = Some (API_BASE, js ''/bootstrap'', send_options (js ''POST'') (Some p))"
| "call_of (UpdateSettings p) =
     Some (API_BASE, js ''/settings'', send_options (js ''PUT'') (Some (without (js ''installedPowerW'') p)))"
| "call_of (UpdateSolarman p) = Some (API_BASE, js ''/solarman'', send_options (js ''PUT'') (Some p))"
| "call_of TestSolarman = Some (API_BASE, js ''/solarman/test'', send_options (js ''POST'') (Some (JObj [])))"
| "call_of (SyncSolarman days) =
     Some (API_BASE, js ''/solarman/sync'', send_options (js ''POST'') (Some (JObj [(js ''days'', JNum days)])))"

fun only_reads :: "api_call \<Rightarrow> bool" where
  "only_reads c = (case c of BootstrapStatus \<Rightarrow> True | SessionCall \<Rightarrow> True | LiveCall \<Rightarrow> True | SettingsCall \<Rightarrow> True
     | SolarmanCall \<Rightarrow> True | InsightsCall _ \<Rightarrow> True | AlertsCall _ \<Rightarrow> True | HealthCall \<Rightarrow> True
     | FinanceCall \<Rightarrow> True | ProposalsCall \<Rightarrow> True | _ \<Rightarrow> False)"

section \<open>The properties of the client\<close>

lemma run_query_bounded: "n \<le> 2 \<Longrightarrow> snd (run_query n outs) \<le> 3"
  by (induction n outs rule: run_query.induct) (auto simp: retry_def split: failure.splits if_splits)

text \<open>A client error is never fetched again.\<close>

lemma run_query_client_error:
  "400 \<le> e_status e \<Longrightarrow> e_status e < 500 \<Longrightarrow> run_query n (Inl (ApiFailure e) # outs) = (Some (Inl (ApiFailure e)), Suc n)"
  by (simp add: retry_def)

text \<open>
  C22. Requests that change something, and only they, carry the session's CSRF token: whatever call
  the application makes, the request is for a path of the same origin, its method is \<open>GET\<close> exactly
  when the call only reads, and the token is among the headers exactly when the call changes
  something and a token is held.
\<close>

theorem csrf_on_mutations:
  assumes "\<forall>m \<in> {js ''GET'', js ''POST'', js ''PUT''}. upper m = m"
    and "call_of c = Some (base, path, opts)" and "q = build_request upper base csrf path opts"
  shows "map_of (r_headers q) csrf_header = (if only_reads c \<or> csrf = Some [] then None else csrf)
    \<and> starts_with (js ''/'') (r_url q) \<and> (r_method q = js ''GET'' \<longleftrightarrow> only_reads c)
    \<and> (r_body q \<noteq> None \<longrightarrow> map_of (r_headers q) (js ''Content-Type'') = Some (js ''application/json''))"
proof -
  have up: "upper (js ''GET'') = js ''GET''" "upper (js ''POST'') = js ''POST''" "upper (js ''PUT'') = js ''PUT''"
    using assms(1) by simp_all
  have kind: "o_headers opts = [] \<and> (only_reads c \<and> o_method opts = None \<and> o_body opts = None
      \<or> \<not> only_reads c \<and> (o_method opts = Some (js ''POST'') \<or> o_method opts = Some (js ''PUT'')))"
    and url: "starts_with (js ''/'') (base @ path)"
    using assms(2) by (cases c; auto simp: read_options_def send_options_def API_BASE_def starts_with_iff js_def)+
  show ?thesis
  proof (cases "only_reads c")
    case True
    then show ?thesis using kind url up
      by (auto simp: assms(3) build_request_def Let_def js_inj MUTATION_METHODS_def csrf_header_def split: option.splits)
  next
    case False
    then show ?thesis using kind url up
      by (auto simp: assms(3) build_request_def Let_def js_inj MUTATION_METHODS_def csrf_header_def map_of_put split: option.splits)
  qed
qed

lemma csrf_on_mutations_witness:
  "map_of (r_headers (build_request id API_BASE (Some (js ''t'')) (js ''/auth/logout'') (send_options (js ''POST'') None))) csrf_header
   = Some (js ''t'')"
  using csrf_on_mutations [of id Logout API_BASE "js ''/auth/logout''" "send_options (js ''POST'') None" _ "Some (js ''t'')"]
  by simp

end
