(* ===== verification/Panels.thy ===== *)
theory Panels
  imports Forms ApiClient Markup
begin

text \<open>
  The panels of the settings page beside its form: the Solarman connection
  (\<open>web/src/features/settings/SolarmanPanel.tsx\<close>) and the backup (\<open>DataPanel.tsx\<close>) as machines, the
  health of the components (\<open>ConnectionPanel.tsx\<close>) and the capacity of the system (\<open>SystemForm.tsx\<close>).

  The main lemma, \<open>solarman_ok_step\<close>: the panel only calls what it offers, one call of a kind at a
  time.
\<close>

section \<open>The Solarman panel\<close>

record credentials =
  appId :: jsstring
  appSecret :: jsstring
  account :: jsstring
  sm_password :: jsstring

record solarman_status =
  sm_available :: bool
  sm_configured :: bool
  sm_account :: "jsstring option"
  appIdSuffix :: "jsstring option"
  sm_reason :: "jsstring option"
  stationId :: "jsnum option"
  stationName :: "jsstring option"

datatype credential = AppId | AppSecret | Account | SolarmanPassword

text \<open>The texts the panel shows; one that quotes the server keeps what it quotes.\<close>

datatype panel_text = NoText | CredentialsStored | StationFound jsstring | StationsFound nat | Synced jsnum jsstring
  | NotStored | NotConnected | NotSynced | KeyMissing | FromServer jsstring

definition panel_copy :: "panel_text \<Rightarrow> jsstring" where
  "panel_copy m = (case m of
       NoText \<Rightarrow> []
     | CredentialsStored \<Rightarrow> jsx ''Credenciais cifradas neste Helio. Teste conex&atilde;o para confirmar acesso.''
     | StationFound name \<Rightarrow> jsx ''Conectado. Esta&ccedil;&atilde;o encontrada: '' @ name @ js ''.''
     | StationsFound n \<Rightarrow> js ''Conectado. '' @ show_nat n @ jsx '' esta&ccedil;&otilde;es encontradas.''
     | Synced frames name \<Rightarrow> jsx ''Sincroniza&ccedil;&atilde;o conclu&iacute;da: '' @ num_text frames @ js '' leituras importadas de '' @ name
         @ jsx ''. Hist&oacute;rico reconstru&iacute;do.''
     | NotStored \<Rightarrow> jsx ''N&atilde;o foi poss&iacute;vel cifrar credenciais Solarman.''
     | NotConnected \<Rightarrow> jsx ''Solarman n&atilde;o aceitou conex&atilde;o.''
     | NotSynced \<Rightarrow> jsx ''N&atilde;o foi poss&iacute;vel sincronizar hist&oacute;rico Solarman.''
     | KeyMissing \<Rightarrow> js ''Defina HELIO_SECRETS_KEY e reinicie Docker antes de salvar.''
     | FromServer text \<Rightarrow> text)"

text \<open>\<open>sm_calls\<close> records each call, newest first, with the status the panel showed.\<close>

record solarman =
  sm_status :: "solarman_status option"
  sm_values :: credentials
  sm_saving :: bool
  sm_testing :: bool
  sm_syncing :: bool
  sm_message :: panel_text
  sm_error :: panel_text
  sm_calls :: "(solarman_status \<times> api_call) list"

datatype solarman_event = StatusArrived solarman_status | TypeCredential credential jsstring
  | SaveClick | SaveReply "failure + solarman_status"
  | TestClick | TestReply "failure + (jsstring \<times> jsstring) list"
  | SyncWeek | SyncMonth | SyncReply "failure + (jsnum \<times> jsstring)"

definition no_credentials :: credentials where
  "no_credentials = \<lparr>appId = [], appSecret = [], account = [], sm_password = []\<rparr>"

definition solarman_initial :: solarman where
  "solarman_initial = \<lparr>sm_status = None, sm_values = no_credentials, sm_saving = False, sm_testing = False,
     sm_syncing = False, sm_message = NoText, sm_error = NoText, sm_calls = []\<rparr>"

definition ready :: "credentials \<Rightarrow> bool" where
  "ready v \<longleftrightarrow> trim (appId v) \<noteq> [] \<and> trim (appSecret v) \<noteq> [] \<and> trim (account v) \<noteq> [] \<and> sm_password v \<noteq> []"

fun set_credential :: "credential \<Rightarrow> jsstring \<Rightarrow> credentials \<Rightarrow> credentials" where
  "set_credential AppId s v = v\<lparr>appId := s\<rparr>"
| "set_credential AppSecret s v = v\<lparr>appSecret := s\<rparr>"
| "set_credential Account s v = v\<lparr>account := s\<rparr>"
| "set_credential SolarmanPassword s v = v\<lparr>sm_password := s\<rparr>"

definition credentials_json :: "credentials \<Rightarrow> jsval" where
  "credentials_json v = JObj [(js ''appId'', JStr (appId v)), (js ''appSecret'', JStr (appSecret v)),
     (js ''account'', JStr (account v)), (js ''password'', JStr (sm_password v))]"

definition messageFor :: "failure \<Rightarrow> panel_text \<Rightarrow> panel_text" where
  "messageFor cause fallback = (case cause of
       ApiFailure e \<Rightarrow> if e_code e = JStr (js ''solarman_unavailable'') then KeyMissing
         else if e_code e = JStr (js ''solarman_sync_failed'') then FromServer (e_message e) else fallback
     | TypeFailure \<Rightarrow> fallback)"

definition quiet :: "solarman \<Rightarrow> solarman" where
  "quiet w = w\<lparr>sm_error := NoText, sm_message := NoText\<rparr>"

definition record_call :: "solarman_status \<Rightarrow> api_call \<Rightarrow> solarman \<Rightarrow> solarman" where
  "record_call st c w = w\<lparr>sm_calls := (st, c) # sm_calls w\<rparr>"

text \<open>Each button is on the page only for some statuses, and does nothing while its call is open.\<close>

definition save_click :: "solarman \<Rightarrow> solarman" where
  "save_click w = (case sm_status w of None \<Rightarrow> w
     | Some st \<Rightarrow> if \<not> sm_available st \<or> \<not> ready (sm_values w) \<or> sm_saving w then w
         else record_call st (UpdateSolarman (credentials_json (sm_values w))) ((quiet w)\<lparr>sm_saving := True\<rparr>))"

definition save_reply :: "failure + solarman_status \<Rightarrow> solarman \<Rightarrow> solarman" where
  "save_reply r w = (if \<not> sm_saving w then w else (case r of
       Inr saved \<Rightarrow> w\<lparr>sm_status := Some saved, sm_values := no_credentials, sm_message := CredentialsStored, sm_saving := False\<rparr>
     | Inl cause \<Rightarrow> w\<lparr>sm_error := messageFor cause NotStored, sm_saving := False\<rparr>))"

definition test_click :: "solarman \<Rightarrow> solarman" where
  "test_click w = (case sm_status w of None \<Rightarrow> w
     | Some st \<Rightarrow> if \<not> sm_available st \<or> \<not> sm_configured st \<or> sm_testing w then w
         else record_call st TestSolarman ((quiet w)\<lparr>sm_testing := True\<rparr>))"

text \<open>One station is shown by its name, or by its number when the name is empty.\<close>

definition stations_text :: "(jsstring \<times> jsstring) list \<Rightarrow> panel_text" where
  "stations_text ss = (case ss of [(i, name)] \<Rightarrow> StationFound (if name \<noteq> [] then name else i) | _ \<Rightarrow> StationsFound (length ss))"

definition test_reply :: "failure + (jsstring \<times> jsstring) list \<Rightarrow> solarman \<Rightarrow> solarman" where
  "test_reply r w = (if \<not> sm_testing w then w else (case r of
       Inr stations \<Rightarrow> w\<lparr>sm_message := stations_text stations, sm_testing := False\<rparr>
     | Inl cause \<Rightarrow> w\<lparr>sm_error := messageFor cause NotConnected, sm_testing := False\<rparr>))"

definition has_station :: "solarman_status \<Rightarrow> bool" where
  "has_station st \<longleftrightarrow> (case stationId st of None \<Rightarrow> False | Some n \<Rightarrow> truthy (JNum n))"

definition sync_click :: "jsnum \<Rightarrow> solarman \<Rightarrow> solarman" where
  "sync_click days w = (case sm_status w of None \<Rightarrow> w
     | Some st \<Rightarrow> if \<not> sm_available st \<or> \<not> sm_configured st \<or> \<not> has_station st \<or> sm_syncing w then w
         else record_call st (SyncSolarman days) ((quiet w)\<lparr>sm_syncing := True\<rparr>))"

definition sync_reply :: "failure + (jsnum \<times> jsstring) \<Rightarrow> solarman \<Rightarrow> solarman" where
  "sync_reply r w = (if \<not> sm_syncing w then w else (case r of
       Inr (frames, name) \<Rightarrow> w\<lparr>sm_message := Synced frames name, sm_syncing := False\<rparr>
     | Inl cause \<Rightarrow> w\<lparr>sm_error := messageFor cause NotSynced, sm_syncing := False\<rparr>))"

text \<open>What the line below the form shows: the error first, and whether it is styled as one.\<close>

definition shown_text :: "solarman \<Rightarrow> (bool \<times> panel_text) option" where
  "shown_text w = (if panel_copy (sm_error w) \<noteq> [] then Some (True, sm_error w)
     else if panel_copy (sm_message w) \<noteq> [] then Some (False, sm_message w) else None)"

fun solarman_step :: "solarman \<Rightarrow> solarman_event \<Rightarrow> solarman" where
  "solarman_step w (StatusArrived st) = w\<lparr>sm_status := Some st\<rparr>"
| "solarman_step w (TypeCredential k s) = w\<lparr>sm_values := set_credential k s (sm_values w)\<rparr>"
| "solarman_step w SaveClick = save_click w"
| "solarman_step w (SaveReply r) = save_reply r w"
| "solarman_step w TestClick = test_click w"
| "solarman_step w (TestReply r) = test_reply r w"
| "solarman_step w SyncWeek = sync_click (Fin 7) w"
| "solarman_step w SyncMonth = sync_click (Fin 30) w"
| "solarman_step w (SyncReply r) = sync_reply r w"

section \<open>What the panel calls\<close>

fun offered :: "solarman_status \<Rightarrow> api_call \<Rightarrow> bool" where
  "offered st (UpdateSolarman v) = (sm_available st \<and> (\<exists>c. v = credentials_json c \<and> ready c))"
| "offered st TestSolarman = (sm_available st \<and> sm_configured st)"
| "offered st (SyncSolarman days) = (sm_available st \<and> sm_configured st \<and> has_station st \<and> days \<in> {Fin 7, Fin 30})"
| "offered st _ = False"

definition solarman_ok :: "solarman \<Rightarrow> bool" where
  "solarman_ok w \<longleftrightarrow> list_all (\<lambda>(st, c). offered st c) (sm_calls w)"

lemma quiet_simps [simp]:
  "sm_calls (quiet w) = sm_calls w" "sm_values (quiet w) = sm_values w" "sm_status (quiet w) = sm_status w"
  by (simp_all add: quiet_def)

lemma solarman_ok_step: "solarman_ok w \<Longrightarrow> solarman_ok (solarman_step w e)"
  by (cases e)
    (auto simp: solarman_ok_def save_click_def save_reply_def test_click_def test_reply_def sync_click_def sync_reply_def
      record_call_def split: option.splits sum.splits)

interpretation solarman: event_machine solarman_step solarman_ok
  by unfold_locales (rule solarman_ok_step)

text \<open>Every call of every run was one the panel offered at that moment.\<close>

lemma solarman_calls: "list_all (\<lambda>(st, c). offered st c) (sm_calls (foldl solarman_step solarman_initial es))"
  using solarman.run_inv [of solarman_initial es] by (simp add: solarman_ok_def solarman_initial_def)

text \<open>No secret stays in the form after a save that succeeded.\<close>

lemma saved_clears_secrets: "sm_saving w \<Longrightarrow> sm_values (solarman_step w (SaveReply (Inr st))) = no_credentials"
  by (simp add: save_reply_def)

section \<open>The backup\<close>

datatype backup_state = BackupIdle | BackupLoading | BackupError | BackupSuccess

record backup =
  backup_state :: backup_state
  downloads :: nat
  files :: "jsstring list"

datatype backup_event = BackupClick | BackupReply "failure + jsstring"

definition backup_initial :: backup where
  "backup_initial = \<lparr>backup_state = BackupIdle, downloads = 0, files = []\<rparr>"

text \<open>\<open>downloads\<close> counts the requests, \<open>files\<close> are the names handed to the browser.\<close>

fun backup_step :: "backup \<Rightarrow> backup_event \<Rightarrow> backup" where
  "backup_step w BackupClick = (if backup_state w = BackupLoading then w
     else w\<lparr>backup_state := BackupLoading, downloads := Suc (downloads w)\<rparr>)"
| "backup_step w (BackupReply r) = (if backup_state w \<noteq> BackupLoading then w
     else (case r of Inr name \<Rightarrow> w\<lparr>backup_state := BackupSuccess, files := name # files w\<rparr>
       | Inl _ \<Rightarrow> w\<lparr>backup_state := BackupError\<rparr>))"

definition backup_ok :: "backup \<Rightarrow> bool" where
  "backup_ok w \<longleftrightarrow> length (files w) + (if backup_state w = BackupLoading then 1 else 0) \<le> downloads w
     \<and> (backup_state w = BackupSuccess \<longrightarrow> files w \<noteq> [])"

interpretation backup: event_machine backup_step backup_ok
proof
  show "backup_ok w \<Longrightarrow> backup_ok (backup_step w e)" for w e
    by (cases e) (auto simp: backup_ok_def split: sum.splits)
qed

section \<open>The health of the components\<close>

definition healthLabels :: "(jsstring \<times> jsstring) list" where
  "healthLabels =
    [(js ''available'', js ''Dispon'' @ [0xED] @ js ''vel''), (js ''idle'', js ''Em espera''),
     (js ''offline'', js ''Desconectado''), (js ''ok'', js ''Operacional''), (js ''online'', js ''Conectado''),
     (js ''running'', js ''Em execu'' @ [0xE7, 0xE3] @ js ''o''), (js ''stale'', js ''Desatualizado''),
     (js ''unavailable'', js ''Indispon'' @ [0xED] @ js ''vel''), (js ''unknown'', js ''Sem leitura'')]"

definition Health :: "jsstring \<Rightarrow> jsstring \<Rightarrow> jsstring \<times> jsstring \<times> jsstring" where
  "Health label value = (label, js ''health-dot is-'' @ value, or_else (map_of healthLabels value) value)"

text \<open>\<open>ComponentHealth\<close>.\<close>

record component_health =
  analysis :: "jsstring option"
  alerts :: "jsstring option"
  collector :: jsstring
  collectorUpdatedAt :: "jsstring option"
  database :: jsstring
  databaseUpdatedAt :: "jsstring option"
  jobs :: "jsstring option"
  logger :: jsstring
  loggerUpdatedAt :: "jsstring option"
  weather :: jsstring
  cloudCoverPct :: "jsnum option"
  precipitationMM :: "jsnum option"
  temperatureC :: "jsnum option"
  weatherCode :: "jsnum option"
  windSpeedKMH :: "jsnum option"
  irradianceWM2 :: "jsnum option"
  weatherFetchedAt :: "jsstring option"
  weatherUpdatedAt :: "jsstring option"

datatype health_view = HealthRetry | HealthList "(jsstring \<times> jsstring \<times> jsstring) list" | HealthPending

definition health_rows :: "bool \<Rightarrow> component_health option \<Rightarrow> health_view" where
  "health_rows healthError health = (if healthError then HealthRetry
     else (case health of None \<Rightarrow> HealthPending
       | Some h \<Rightarrow> HealthList [Health (js ''Processo'') (collector h), Health (js ''Banco de dados'') (database h),
           Health (js ''Logger'') (logger h), Health (js ''Clima'') (weather h)]))"

section \<open>The capacity\<close>

text \<open>The counts as typed, a dash for an empty one, and the capacity in kilowatts when it is positive.\<close>

definition capacity_output :: "(jsnum \<Rightarrow> jsstring) \<Rightarrow> settings_values \<Rightarrow> jsstring \<times> jsstring" where
  "capacity_output show v = (let dash = [0x2014]; p = derivedInstalledPower v in
     ((if panelCount v \<noteq> [] then panelCount v else dash) @ [32, 0xD7, 32]
        @ (if panelWattage v \<noteq> [] then panelWattage v else dash) @ js '' W'',
      if jlt (Fin 0) p then show (jdiv p (Fin 1000)) @ js '' kWp'' else dash))"

text \<open>Nothing but a positive capacity is shown as one.\<close>

lemma capacity_dash: "\<not> jlt (Fin 0) (derivedInstalledPower v) \<Longrightarrow> snd (capacity_output show v) = [0x2014]"
  by (simp add: capacity_output_def Let_def)

end
