(* ===== verification/Live.thy ===== *)
theory Live
  imports JsValue
begin

text \<open>
  The live page: validation of stream events (\<open>web/src/api/live-events.ts\<close>), the merge of states and
  the connection state (\<open>web/src/features/live/useLiveTelemetry.ts\<close>), and the decisions of
  \<open>HeroPower\<close>, \<open>HealthPanel\<close>, \<open>WeatherContext\<close> and \<open>NowPage\<close>.

  A validated state is kept as the record \<open>live_state\<close>; an absent property is \<open>None\<close>. The hook is a
  machine: its state is what its variables and the query cache hold, its events are the browser's
  and the query library's. React Query is third-party code: a fetched result replaces the cached
  data and clears the error, a failed fetch sets the error, and \<open>setQueryData\<close> counts as a success.

  Parameters: \<open>json\<close> (\<open>JSON.parse\<close>, \<open>None\<close> when it throws), \<open>dparse\<close> (\<open>Date.parse\<close>), and the
  \<open>Intl\<close> number formats.
\<close>

section \<open>Validation\<close>

definition isMPPT :: "jsval \<Rightarrow> bool" where
  "isMPPT v \<longleftrightarrow> is_object v \<and> is_bool (get v (js ''active''))
     \<and> finite_num (get v (js ''currentA'')) \<and> finite_num (get v (js ''powerW'')) \<and> finite_num (get v (js ''voltageV''))"

definition fault_code :: "jsval \<Rightarrow> bool" where
  "fault_code v = (case v of JNum n \<Rightarrow> is_integer n \<and> jle (Fin 0) n | _ \<Rightarrow> False)"

definition readable_date :: "(jsstring \<Rightarrow> int option) \<Rightarrow> jsval \<Rightarrow> bool" where
  "readable_date dparse v = (case v of JStr s \<Rightarrow> dparse s \<noteq> None | _ \<Rightarrow> False)"

definition isSnapshot :: "(jsstring \<Rightarrow> int option) \<Rightarrow> jsval \<Rightarrow> bool" where
  "isSnapshot dparse v \<longleftrightarrow> is_object v \<and> is_object (get v (js ''grid''))
     \<and> readable_date dparse (get v (js ''observedAt'')) \<and> is_str (get v (js ''status''))
     \<and> finite_num (get v (js ''acPowerW'')) \<and> finite_num (get v (js ''energyTodayWh''))
     \<and> finite_num (get v (js ''energyLifetimeWh''))
     \<and> isMPPT (get v (js ''pv1'')) \<and> isMPPT (get v (js ''pv2''))
     \<and> finite_num (get (get v (js ''grid'')) (js ''voltageV'')) \<and> finite_num (get (get v (js ''grid'')) (js ''frequencyHz''))
     \<and> (case get v (js ''faultCodes'') of JArr cs \<Rightarrow> list_all fault_code cs | _ \<Rightarrow> False)"

definition optionalString :: "jsval \<Rightarrow> jsstring \<Rightarrow> bool" where
  "optionalString v k \<longleftrightarrow> get v k = JUndef \<or> is_str (get v k)"

definition isState :: "(jsstring \<Rightarrow> int option) \<Rightarrow> jsval \<Rightarrow> bool" where
  "isState dparse v \<longleftrightarrow> is_object v \<and> \<not> has v (js ''version'') \<and> is_bool (get v (js ''stale''))
     \<and> optionalString v (js ''lastSuccess'') \<and> optionalString v (js ''lastError'')
     \<and> optionalString v (js ''lastErrorAt'') \<and> optionalString v (js ''errorClass'')
     \<and> (get v (js ''lastSuccess'') = JUndef \<or> readable_date dparse (get v (js ''lastSuccess'')))
     \<and> (get v (js ''lastErrorAt'') = JUndef \<or> readable_date dparse (get v (js ''lastErrorAt'')))
     \<and> (get v (js ''snapshot'') = JUndef \<or> isSnapshot dparse (get v (js ''snapshot'')))"

text \<open>Validated values.\<close>

record live_snapshot =
  observedAt :: jsstring
  snap_status :: jsstring
  acPowerW :: jsnum
  faultCodes :: "jsnum list"
  snap_value :: jsval   \<comment> \<open>the whole object, with the readings the page prints\<close>

record live_state =
  errorClass :: "jsstring option"
  lastError :: "jsstring option"
  lastErrorAt :: "jsstring option"
  lastSuccess :: "jsstring option"
  live_snap :: "live_snapshot option"
  stale :: bool

datatype live_event = StateEvent live_state | SnapshotEvent live_state live_snapshot

definition text_of :: "jsval \<Rightarrow> jsstring option" where
  "text_of v = (case v of JStr s \<Rightarrow> Some s | _ \<Rightarrow> None)"

fun codes_of :: "jsval list \<Rightarrow> jsnum list" where
  "codes_of [] = []"
| "codes_of (JNum n # vs) = n # codes_of vs"
| "codes_of (_ # vs) = codes_of vs"

definition snapshot_of_value :: "jsval \<Rightarrow> live_snapshot" where
  "snapshot_of_value v =
     \<lparr>observedAt = or_else (text_of (get v (js ''observedAt''))) [],
      snap_status = or_else (text_of (get v (js ''status''))) [],
      acPowerW = (case get v (js ''acPowerW'') of JNum n \<Rightarrow> n | _ \<Rightarrow> NaN),
      faultCodes = (case get v (js ''faultCodes'') of JArr cs \<Rightarrow> codes_of cs | _ \<Rightarrow> []),
      snap_value = v\<rparr>"

definition state_of_value :: "jsval \<Rightarrow> live_state" where
  "state_of_value v =
     \<lparr>errorClass = text_of (get v (js ''errorClass'')), lastError = text_of (get v (js ''lastError'')),
      lastErrorAt = text_of (get v (js ''lastErrorAt'')), lastSuccess = text_of (get v (js ''lastSuccess'')),
      live_snap = (if get v (js ''snapshot'') = JUndef then None else Some (snapshot_of_value (get v (js ''snapshot'')))),
      stale = (get v (js ''stale'') = JBool True)\<rparr>"

definition parseLiveEvent ::
    "(jsstring \<Rightarrow> jsval option) \<Rightarrow> (jsstring \<Rightarrow> int option) \<Rightarrow> jsstring \<Rightarrow> jsstring \<Rightarrow> live_event option" where
  "parseLiveEvent json dparse kind value = (case json value of
      None \<Rightarrow> None
    | Some parsed \<Rightarrow>
        if kind = js ''state''
        then (if isState dparse parsed then Some (StateEvent (state_of_value parsed)) else None)
        else if kind \<noteq> js ''snapshot'' \<or> \<not> is_object parsed \<or> get parsed (js ''kind'') \<noteq> JStr (js ''snapshot'')
          \<or> has parsed (js ''version'') then None
        else if \<not> isState dparse (get parsed (js ''state'')) \<or> \<not> isSnapshot dparse (get parsed (js ''snapshot'')) then None
        else Some (SnapshotEvent (state_of_value (get parsed (js ''state''))) (snapshot_of_value (get parsed (js ''snapshot'')))))"

section \<open>Merging states\<close>

text \<open>\<open>time\<close>: minus infinity when there is no readable date. \<open>None\<close> is minus infinity.\<close>

definition time_of :: "(jsstring \<Rightarrow> int option) \<Rightarrow> jsstring option \<Rightarrow> int option" where
  "time_of dparse v = (case v of None \<Rightarrow> None | Some s \<Rightarrow> if s = [] then None else dparse s)"

fun at_least :: "int option \<Rightarrow> int option \<Rightarrow> bool" where
  "at_least _ None = True"
| "at_least None (Some _) = False"
| "at_least (Some a) (Some b) = (b \<le> a)"

definition snap_time :: "(jsstring \<Rightarrow> int option) \<Rightarrow> live_snapshot option \<Rightarrow> int option" where
  "snap_time dparse s = time_of dparse (map_option observedAt s)"

text \<open>A property of \<open>{...a, ...b}\<close>: the one of \<open>b\<close> where it has one.\<close>

definition spread :: "'a option \<Rightarrow> 'a option \<Rightarrow> 'a option" where
  "spread a b = (case b of None \<Rightarrow> a | Some x \<Rightarrow> Some x)"

definition mergeState ::
    "(jsstring \<Rightarrow> int option) \<Rightarrow> live_state option \<Rightarrow> live_state \<Rightarrow> live_snapshot option \<Rightarrow> live_state" where
  "mergeState dparse current incoming eventSnapshot =
     (let candidate = spread (live_snap incoming) eventSnapshot in
      case current of
        None \<Rightarrow> incoming\<lparr>live_snap := candidate\<rparr>
      | Some cur \<Rightarrow>
          let snap = (if at_least (snap_time dparse candidate) (snap_time dparse (live_snap cur)) then candidate else live_snap cur);
              incomingIsCurrent = at_least (time_of dparse (lastSuccess incoming)) (time_of dparse (lastSuccess cur));
              older = (if incomingIsCurrent then cur else incoming);
              newer = (if incomingIsCurrent then incoming else cur) in
          \<lparr>errorClass = spread (errorClass older) (errorClass newer),
           lastError = spread (lastError older) (lastError newer),
           lastErrorAt = spread (lastErrorAt older) (lastErrorAt newer),
           lastSuccess = (if incomingIsCurrent then spread (lastSuccess cur) (lastSuccess incoming) else lastSuccess cur),
           live_snap = snap,
           stale = (if incomingIsCurrent then stale incoming else stale cur)\<rparr>)"

section \<open>The hook\<close>

datatype stream_state = Connecting | StreamConnected | StreamReconnecting

datatype connection_state = Connected | Loading | Offline | Reconnecting | Stale | Unavailable

text \<open>
  \<open>fetching\<close> says that the query has a fetch under way whose result will count: \<open>cancelQueries\<close> discards it.
  The query starts one at its own times (\<open>FetchStarted\<close>: when it is mounted, say), which joins one
  that is under way; \<open>refetchQueries\<close> starts a new one instead.
\<close>

record telemetry =
  query_data :: "live_state option"
  isPending :: bool
  isError :: bool
  fetching :: bool
  streamState :: stream_state
  clock :: int
  offline :: bool

datatype telemetry_event =
    Tick int
  | WentOnline | WentOffline
  | StreamOpened | StreamFailed
  | Message jsstring jsstring        \<comment> \<open>kind and data of a stream event\<close>
  | FetchStarted | FetchDone live_state | FetchFailed

definition apply_event :: "(jsstring \<Rightarrow> int option) \<Rightarrow> live_event \<Rightarrow> telemetry \<Rightarrow> telemetry" where
  "apply_event dparse ev s =
     (let merged = (case ev of
          StateEvent st \<Rightarrow> mergeState dparse (query_data s) st None
        | SnapshotEvent st snap \<Rightarrow> mergeState dparse (query_data s) st (Some snap)) in
      s\<lparr>query_data := Some merged, isPending := False, isError := False, fetching := False, streamState := StreamConnected\<rparr>)"

fun telemetry_step ::
    "(jsstring \<Rightarrow> jsval option) \<Rightarrow> (jsstring \<Rightarrow> int option) \<Rightarrow> telemetry \<Rightarrow> telemetry_event \<Rightarrow> telemetry" where
  "telemetry_step json dparse s (Tick now) = s\<lparr>clock := now\<rparr>"
| "telemetry_step json dparse s WentOnline = s\<lparr>offline := False\<rparr>"
| "telemetry_step json dparse s WentOffline = s\<lparr>offline := True\<rparr>"
| "telemetry_step json dparse s StreamOpened = s\<lparr>streamState := StreamConnected, fetching := True\<rparr>"
| "telemetry_step json dparse s StreamFailed = s\<lparr>streamState := StreamReconnecting, fetching := True\<rparr>"
| "telemetry_step json dparse s (Message kind value) = (case parseLiveEvent json dparse kind value of
      None \<Rightarrow> s | Some ev \<Rightarrow> apply_event dparse ev s)"
| "telemetry_step json dparse s FetchStarted = s\<lparr>fetching := True\<rparr>"
| "telemetry_step json dparse s (FetchDone st) =
     (if fetching s then s\<lparr>query_data := Some st, isPending := False, isError := False, fetching := False\<rparr> else s)"
| "telemetry_step json dparse s FetchFailed = (if fetching s then s\<lparr>isPending := False, isError := True, fetching := False\<rparr> else s)"

definition lastSuccessAt :: "(jsstring \<Rightarrow> int option) \<Rightarrow> telemetry \<Rightarrow> int option" where
  "lastSuccessAt dparse s = time_of dparse (Option.bind (query_data s) lastSuccess)"

definition isOld :: "(jsstring \<Rightarrow> int option) \<Rightarrow> telemetry \<Rightarrow> bool" where
  "isOld dparse s = (case lastSuccessAt dparse s of None \<Rightarrow> False | Some t \<Rightarrow> clock s - t > 30000)"

definition current_snapshot :: "telemetry \<Rightarrow> live_snapshot option" where
  "current_snapshot s = Option.bind (query_data s) live_snap"

definition connectionState :: "(jsstring \<Rightarrow> int option) \<Rightarrow> telemetry \<Rightarrow> connection_state" where
  "connectionState dparse s =
     (if offline s then Offline
      else if current_snapshot s = None \<and> isError s then Unavailable
      else if isPending s \<or> streamState s = Connecting then Loading
      else if streamState s = StreamReconnecting then Reconnecting
      else if (case query_data s of None \<Rightarrow> False | Some st \<Rightarrow> stale st) \<or> isOld dparse s then Stale
      else Connected)"

definition lastSuccessAgeMs :: "(jsstring \<Rightarrow> int option) \<Rightarrow> telemetry \<Rightarrow> int option" where
  "lastSuccessAgeMs dparse s = map_option (\<lambda>t. max 0 (clock s - t)) (lastSuccessAt dparse s)"

section \<open>Announcements\<close>

fun connectionLabels :: "connection_state \<Rightarrow> jsstring" where
  "connectionLabels Connected = js ''Ao vivo''"
| "connectionLabels Loading = js ''Verificando dados''"
| "connectionLabels Offline = js ''Sem conex'' @ [0xE3] @ js ''o''"
| "connectionLabels Reconnecting = js ''Reconectando''"
| "connectionLabels Stale = js ''Dados desatualizados''"
| "connectionLabels Unavailable = js ''Dados indispon'' @ [0xED] @ js ''veis''"

text \<open>\<open>String(n)\<close> of a validated fault code, a natural number below \<open>10 ^ 21\<close>.\<close>

definition code_text :: "jsnum \<Rightarrow> jsstring" where
  "code_text n = (case n of Fin q \<Rightarrow> show_nat (nat \<lfloor>q\<rfloor>) | _ \<Rightarrow> [])"

definition faultAnnouncement :: "live_snapshot option \<Rightarrow> jsstring" where
  "faultAnnouncement s = (case s of
      None \<Rightarrow> js ''Sistema sem falhas ativas.''
    | Some snap \<Rightarrow>
        if snap_status snap \<noteq> js ''fault'' \<and> faultCodes snap = [] then js ''Sistema sem falhas ativas.''
        else if faultCodes snap = [] then js ''Falha informada pelo inversor. Nenhum c'' @ [0xF3] @ js ''digo foi informado.''
        else js ''Falha informada pelo inversor. C'' @ [0xF3] @ js ''digos ''
          @ join (js '', '') (map code_text (faultCodes snap)) @ js ''.'')"

record shared_status =
  announcement :: jsstring
  shared_connection :: connection_state
  notifications :: nat   \<comment> \<open>how often the listeners were called\<close>

definition announce :: "connection_state \<Rightarrow> live_snapshot option \<Rightarrow> jsstring" where
  "announce c s =
     (if c = Connected then connectionLabels c @ js ''. '' @ faultAnnouncement s else connectionLabels c)"

definition publishStatus :: "connection_state \<Rightarrow> live_snapshot option \<Rightarrow> shared_status \<Rightarrow> shared_status" where
  "publishStatus c s sh =
     (if shared_connection sh = c \<and> announcement sh = announce c s then sh
      else \<lparr>announcement = announce c s, shared_connection = c, notifications = Suc (notifications sh)\<rparr>)"

definition joinCodes :: "jsnum list \<Rightarrow> jsstring" where
  "joinCodes codes =
     (if length codes < 2 then (case codes of [] \<Rightarrow> js ''undefined'' | c # _ \<Rightarrow> code_text c)
      else if length codes = 2 then code_text (codes ! 0) @ js '' e '' @ code_text (codes ! 1)
      else join (js '', '') (map code_text (butlast codes)) @ js '' e '' @ code_text (last codes))"

definition has_fault :: "live_snapshot \<Rightarrow> bool" where
  "has_fault s \<longleftrightarrow> faultCodes s \<noteq> [] \<or> snap_status s = js ''fault''"

text \<open>What \<open>NowPage\<close> shows.\<close>

datatype now_view = LoadingView | EmptyView | ReadingView live_snapshot

definition NowPage :: "telemetry \<Rightarrow> now_view" where
  "NowPage s = (case current_snapshot s of
      Some snap \<Rightarrow> ReadingView snap
    | None \<Rightarrow> if isPending s then LoadingView else EmptyView)"

section \<open>Readings and weather\<close>

record live_formats =
  whole :: "jsnum \<Rightarrow> jsstring"
  two_digits :: "jsnum \<Rightarrow> jsstring"

definition formatPower :: "live_formats \<Rightarrow> jsnum \<Rightarrow> jsstring" where
  "formatPower F watts =
     (if jlt watts (Fin 1000) then whole F (jround watts) @ js '' W''
      else two_digits F (jdiv watts (Fin 1000)) @ js '' kW'')"

definition formatWattHours :: "live_formats \<Rightarrow> jsnum \<Rightarrow> jsstring" where
  "formatWattHours F wh =
     (if jlt wh (Fin 1000) then whole F (jround wh) @ js '' Wh''
      else two_digits F (jdiv wh (Fin 1000)) @ js '' kWh'')"

text \<open>The potential of the installation under the modelled irradiance, and the production's share.\<close>

definition potentialPowerW :: "jsnum option \<Rightarrow> jsnum \<Rightarrow> jsnum option" where
  "potentialPowerW irradiance installedPowerW = (case irradiance of
      None \<Rightarrow> None
    | Some i \<Rightarrow> if jlt i (Fin 50) \<or> jle installedPowerW (Fin 0) then None
        else Some (jdiv (jmul installedPowerW i) (Fin 1000)))"

definition potentialRatio :: "jsnum option \<Rightarrow> jsnum \<Rightarrow> jsnum option" where
  "potentialRatio potential acPower = (case potential of
      Some p \<Rightarrow> if jlt (Fin 0) p then Some (jdiv acPower p) else None
    | None \<Rightarrow> None)"

text \<open>The age line: \<open>None\<close> without a date; hours from one hour on, else at least one minute.\<close>

datatype age_copy = HoursAgo int | MinutesAgo int

definition ageCopy :: "int \<Rightarrow> int option \<Rightarrow> age_copy option" where
  "ageCopy now updatedAt = map_option (\<lambda>t.
     let age = max 0 (now - t) in
     if 3600000 \<le> age then HoursAgo (age div 3600000) else MinutesAgo (max 1 (age div 60000))) updatedAt"

section \<open>The order of times\<close>

lemma at_least_trans: "at_least a b \<Longrightarrow> at_least b c \<Longrightarrow> at_least a c"
  by (cases a; cases b; cases c) simp_all

lemma at_least_refl [simp]: "at_least a a"
  by (cases a) simp_all

lemma at_least_total: "\<not> at_least a b \<Longrightarrow> at_least b a"
  by (cases a; cases b) simp_all

lemma at_least_Some: "at_least a (Some t) \<Longrightarrow> a \<noteq> None"
  by (cases a) simp_all

text \<open>The merge keeps the newer snapshot and the newer success.\<close>

definition state_snap_time :: "(jsstring \<Rightarrow> int option) \<Rightarrow> live_state option \<Rightarrow> int option" where
  "state_snap_time dparse st = snap_time dparse (Option.bind st live_snap)"

definition success_time :: "(jsstring \<Rightarrow> int option) \<Rightarrow> live_state option \<Rightarrow> int option" where
  "success_time dparse st = time_of dparse (Option.bind st lastSuccess)"

lemma time_of_spread: "at_least (time_of dparse b) (time_of dparse a) \<Longrightarrow>
  at_least (time_of dparse (spread a b)) (time_of dparse b) \<and> at_least (time_of dparse (spread a b)) (time_of dparse a)"
  by (cases b) (simp_all add: spread_def time_of_def)

lemma snap_time_None [simp]: "snap_time dparse None = None"
  by (simp add: snap_time_def time_of_def)

lemma merge_snap_time:
  "at_least (state_snap_time dparse (Some (mergeState dparse cur st ev))) (state_snap_time dparse cur)"
  "at_least (state_snap_time dparse (Some (mergeState dparse cur st ev))) (snap_time dparse (spread (live_snap st) ev))"
  unfolding state_snap_time_def
  by (auto simp: mergeState_def Let_def dest: at_least_total split: option.split)

lemma merge_success_time:
  "at_least (success_time dparse (Some (mergeState dparse cur st ev))) (success_time dparse cur)"
  "at_least (success_time dparse (Some (mergeState dparse cur st ev))) (time_of dparse (lastSuccess st))"
proof -
  have none: "time_of dparse None = None" by (simp add: time_of_def)
  show "at_least (success_time dparse (Some (mergeState dparse cur st ev))) (success_time dparse cur)"
    unfolding success_time_def using time_of_spread [of dparse "lastSuccess st"]
    by (auto simp: mergeState_def Let_def none split: option.split)
  show "at_least (success_time dparse (Some (mergeState dparse cur st ev))) (time_of dparse (lastSuccess st))"
    unfolding success_time_def using time_of_spread [of dparse "lastSuccess st"]
    by (auto simp: mergeState_def Let_def none dest: at_least_total split: option.split)
qed

section \<open>Runs of the hook\<close>

abbreviation telemetry_run ::
    "(jsstring \<Rightarrow> jsval option) \<Rightarrow> (jsstring \<Rightarrow> int option) \<Rightarrow> telemetry \<Rightarrow> telemetry_event list \<Rightarrow> telemetry" where
  "telemetry_run json dparse \<equiv> foldl (telemetry_step json dparse)"

fun event_state :: "live_event \<Rightarrow> live_state" where
  "event_state (StateEvent st) = st"
| "event_state (SnapshotEvent st snap) = st"

fun event_snapshot :: "live_event \<Rightarrow> live_snapshot option" where
  "event_snapshot (StateEvent st) = live_snap st"
| "event_snapshot (SnapshotEvent st snap) = Some snap"

text \<open>The event an event of the hook delivers, if any.\<close>

definition delivered ::
    "(jsstring \<Rightarrow> jsval option) \<Rightarrow> (jsstring \<Rightarrow> int option) \<Rightarrow> telemetry_event \<Rightarrow> live_event option" where
  "delivered json dparse e = (case e of Message kind value \<Rightarrow> parseLiveEvent json dparse kind value | _ \<Rightarrow> None)"

text \<open>A fetch that ends now and counts.\<close>

definition fetched :: "telemetry \<Rightarrow> telemetry_event \<Rightarrow> live_state option" where
  "fetched s e = (case e of FetchDone st \<Rightarrow> if fetching s then Some st else None | _ \<Rightarrow> None)"

lemma step_data:
  "query_data (telemetry_step json dparse s e) = (case fetched s e of Some st \<Rightarrow> Some st | None \<Rightarrow>
     (case delivered json dparse e of
        None \<Rightarrow> query_data s
      | Some ev \<Rightarrow> Some (mergeState dparse (query_data s) (event_state ev)
          (case ev of StateEvent _ \<Rightarrow> None | SnapshotEvent _ snap \<Rightarrow> Some snap))))"
  by (cases e) (auto simp: fetched_def delivered_def apply_event_def split: option.splits live_event.splits)

text \<open>Times of a state: at least those of another one.\<close>

definition no_older :: "(jsstring \<Rightarrow> int option) \<Rightarrow> live_state option \<Rightarrow> live_state option \<Rightarrow> bool" where
  "no_older dparse a b \<longleftrightarrow> at_least (state_snap_time dparse a) (state_snap_time dparse b)
     \<and> at_least (success_time dparse a) (success_time dparse b)"

text \<open>
  What the server owes a fetch: its answer is no older than the state that was shown when the fetch
  was started (\<open>base\<close>). A fetch that was cancelled owes nothing.
\<close>

definition starts_fetch :: "telemetry \<Rightarrow> telemetry_event \<Rightarrow> bool" where
  "starts_fetch s e \<longleftrightarrow> e = StreamOpened \<or> e = StreamFailed \<or> e = FetchStarted \<and> \<not> fetching s"

fun server_honest ::
    "(jsstring \<Rightarrow> jsval option) \<Rightarrow> (jsstring \<Rightarrow> int option) \<Rightarrow> telemetry \<Rightarrow> live_state option \<Rightarrow> telemetry_event list \<Rightarrow> bool" where
  "server_honest json dparse s base [] \<longleftrightarrow> True"
| "server_honest json dparse s base (e # es) \<longleftrightarrow>
     (case fetched s e of None \<Rightarrow> True | Some st \<Rightarrow> no_older dparse (Some st) base)
     \<and> server_honest json dparse (telemetry_step json dparse s e) (if starts_fetch s e then query_data s else base) es"

text \<open>While a fetch is under way nothing changes what is shown: a message would have cancelled it.\<close>

lemma fetch_base:
  assumes "fetching s \<longrightarrow> base = query_data s" "fetching (telemetry_step json dparse s e)"
  shows "(if starts_fetch s e then query_data s else base) = query_data (telemetry_step json dparse s e)"
  using assms by (cases e) (auto simp: starts_fetch_def apply_event_def split: option.splits live_event.splits)

lemma spread_event:
  "spread (live_snap (event_state ev)) (case ev of StateEvent _ \<Rightarrow> None | SnapshotEvent _ snap \<Rightarrow> Some snap) = event_snapshot ev"
  by (cases ev) (simp_all add: spread_def)

lemma step_times:
  assumes "\<And>st. fetched s e = Some st \<Longrightarrow> no_older dparse (Some st) (query_data s)"
  shows "no_older dparse (query_data (telemetry_step json dparse s e)) (query_data s)
    \<and> (\<forall>ev. delivered json dparse e = Some ev \<longrightarrow>
        at_least (state_snap_time dparse (query_data (telemetry_step json dparse s e))) (snap_time dparse (event_snapshot ev))
        \<and> at_least (success_time dparse (query_data (telemetry_step json dparse s e))) (time_of dparse (lastSuccess (event_state ev))))"
proof (cases "fetched s e")
  case None
  show ?thesis
  proof (cases "delivered json dparse e")
    case None
    with \<open>fetched s e = None\<close> show ?thesis by (simp add: step_data no_older_def)
  next
    case (Some ev)
    show ?thesis
      unfolding step_data Some \<open>fetched s e = None\<close> option.case no_older_def
      using merge_snap_time merge_success_time spread_event [of ev] by (metis option.inject)
  qed
next
  case (Some st)
  then have "delivered json dparse e = None" by (auto simp: fetched_def delivered_def split: telemetry_event.splits)
  with Some assms show ?thesis by (simp add: step_data)
qed

lemma no_older_trans: "no_older dparse a b \<Longrightarrow> no_older dparse b c \<Longrightarrow> no_older dparse a c"
  unfolding no_older_def using at_least_trans by blast

lemma run_times:
  assumes "fetching s \<longrightarrow> base = query_data s" "server_honest json dparse s base es"
  shows "no_older dparse (query_data (telemetry_run json dparse s es)) (query_data s)
    \<and> (\<forall>e \<in> set es. \<forall>ev. delivered json dparse e = Some ev \<longrightarrow>
        at_least (state_snap_time dparse (query_data (telemetry_run json dparse s es))) (snap_time dparse (event_snapshot ev))
        \<and> at_least (success_time dparse (query_data (telemetry_run json dparse s es))) (time_of dparse (lastSuccess (event_state ev))))"
  using assms
proof (induction es arbitrary: s base)
  case Nil
  show ?case by (simp add: no_older_def)
next
  case (Cons e es)
  let ?s = "telemetry_step json dparse s e"
  have "no_older dparse (Some st) (query_data s)" if "fetched s e = Some st" for st
  proof -
    have "fetching s" using that by (auto simp: fetched_def split: telemetry_event.splits if_splits)
    with that Cons.prems show ?thesis by simp
  qed
  note now = step_times [OF this]
  have "fetching ?s \<longrightarrow> (if starts_fetch s e then query_data s else base) = query_data ?s"
    using fetch_base [OF Cons.prems(1)] by blast
  note later = Cons.IH [OF this] 
  have "server_honest json dparse ?s (if starts_fetch s e then query_data s else base) es" using Cons.prems(2) by simp
  note later = later [OF this]
  show ?case unfolding foldl_Cons set_simps using now later no_older_trans at_least_trans unfolding no_older_def by blast
qed

section \<open>A silent stream\<close>

definition no_news :: "(jsstring \<Rightarrow> jsval option) \<Rightarrow> (jsstring \<Rightarrow> int option) \<Rightarrow> telemetry_event \<Rightarrow> bool" where
  "no_news json dparse e \<longleftrightarrow> (\<forall>st. e \<noteq> FetchDone st) \<and> delivered json dparse e = None"

lemma silent_run: "list_all (no_news json dparse) es \<Longrightarrow> query_data (telemetry_run json dparse s es) = query_data s"
proof (induction es arbitrary: s)
  case (Cons e es)
  then have "query_data (telemetry_step json dparse s e) = query_data s"
    by (subst step_data) (auto simp: no_news_def fetched_def split: telemetry_event.split)
  with Cons show ?case by simp
qed simp

lemma run_started:
  "\<not> isPending s \<and> streamState s \<noteq> Connecting \<Longrightarrow>
   \<not> isPending (telemetry_run json dparse s es) \<and> streamState (telemetry_run json dparse s es) \<noteq> Connecting"
proof (induction es arbitrary: s)
  case (Cons e es)
  have "\<not> isPending (telemetry_step json dparse s e) \<and> streamState (telemetry_step json dparse s e) \<noteq> Connecting"
    using Cons.prems by (cases e) (auto simp: apply_event_def split: option.splits)
  with Cons show ?case by simp
qed simp

section \<open>Properties of the live page\<close>

text \<open>Concrete values for the witnesses: a state text, read by a parser of one text.\<close>

definition sample_mppt :: jsval where
  "sample_mppt = JObj [(js ''active'', JBool True), (js ''currentA'', JNum (Fin 1)), (js ''powerW'', JNum (Fin 2)),
     (js ''voltageV'', JNum (Fin 3))]"

definition sample_live_snapshot :: jsval where
  "sample_live_snapshot = JObj [(js ''grid'', JObj [(js ''voltageV'', JNum (Fin 220)), (js ''frequencyHz'', JNum (Fin 60))]),
     (js ''observedAt'', JStr (js ''t'')), (js ''status'', JStr (js ''normal'')), (js ''acPowerW'', JNum (Fin 10)),
     (js ''energyTodayWh'', JNum (Fin 20)), (js ''energyLifetimeWh'', JNum (Fin 30)), (js ''pv1'', sample_mppt),
     (js ''pv2'', sample_mppt), (js ''faultCodes'', JArr [JNum (Fin 4)])]"

definition sample_state :: jsval where
  "sample_state = JObj [(js ''stale'', JBool False), (js ''lastSuccess'', JStr (js ''t'')), (js ''snapshot'', sample_live_snapshot)]"

definition sample_dparse :: "jsstring \<Rightarrow> int option" where
  "sample_dparse s = (if s = js ''t'' then Some 1000 else None)"

definition fresh_telemetry :: telemetry where
  "fresh_telemetry = \<lparr>query_data = None, isPending = True, isError = False, fetching = True, streamState = Connecting, clock = 0, offline = False\<rparr>"

text \<open>
  C35. What the page shows never goes back: over any events, whatever the order of messages and
  fetches, the time of the reading shown and the time of the last success are at least those before
  and at least those of every valid message, as long as the server answers a fetch with a state no
  older than the one that was shown when the fetch was started, or at the beginning for one under way
  then (\<open>server_honest\<close>). An answer that a message has overtaken need not be newer than the message: it
  is cancelled. So a reading with a date, once
  shown, stays on the page.
\<close>

theorem live_newest:
  assumes "server_honest json dparse s (query_data s) es"
    and "s' = telemetry_run json dparse s es"
  shows "at_least (snap_time dparse (current_snapshot s')) (snap_time dparse (current_snapshot s))
    \<and> at_least (lastSuccessAt dparse s') (lastSuccessAt dparse s)
    \<and> (\<forall>e \<in> set es. \<forall>ev. delivered json dparse e = Some ev \<longrightarrow>
        at_least (snap_time dparse (current_snapshot s')) (snap_time dparse (event_snapshot ev))
        \<and> at_least (lastSuccessAt dparse s') (time_of dparse (lastSuccess (event_state ev))))
    \<and> (snap_time dparse (current_snapshot s) \<noteq> None \<longrightarrow> (\<exists>snap. NowPage s' = ReadingView snap))"
proof -
  have e: "current_snapshot u = Option.bind (query_data u) live_snap"
    "lastSuccessAt dparse u = success_time dparse (query_data u)" for u
    by (simp_all add: current_snapshot_def lastSuccessAt_def success_time_def)
  note times = run_times [OF _ assms(1), folded assms(2), simplified, unfolded no_older_def state_snap_time_def, folded e]
  have "\<exists>snap. NowPage s' = ReadingView snap" if "snap_time dparse (current_snapshot s) \<noteq> None"
  proof -
    have "snap_time dparse (current_snapshot s') \<noteq> None" using times that at_least_Some by (metis option.exhaust)
    then have "current_snapshot s' \<noteq> None" by (cases "current_snapshot s'") simp_all
    then show ?thesis by (auto simp: NowPage_def)
  qed
  with times show ?thesis by blast
qed

text \<open>A fetch is overtaken by a message and then answers with a state without any date: nothing goes back.\<close>

lemma live_newest_witness:
  "at_least (lastSuccessAt sample_dparse (telemetry_run (\<lambda>_. Some sample_state) sample_dparse fresh_telemetry
      [StreamOpened, Message (js ''state'') (js ''x''), FetchDone (state_of_value JNull), Tick 5])) (Some 1000)"
proof -
  let ?es = "[StreamOpened, Message (js ''state'') (js ''x''), FetchDone (state_of_value JNull), Tick 5]"
  have state: "isState sample_dparse sample_state"
    by code_simp
  then have d: "delivered (\<lambda>_. Some sample_state) sample_dparse (Message (js ''state'') (js ''x''))
      = Some (StateEvent (state_of_value sample_state))"
    by (simp add: delivered_def parseLiveEvent_def)
  have "time_of sample_dparse (lastSuccess (state_of_value sample_state)) = Some 1000"
    by code_simp
  moreover have "server_honest (\<lambda>_. Some sample_state) sample_dparse fresh_telemetry (query_data fresh_telemetry) ?es"
    using d by (simp add: delivered_def fetched_def apply_event_def)
  note live_newest [OF this refl]
  ultimately show ?thesis using d by (simp del: foldl.simps)
qed

text \<open>
  C36. A silent stream cannot look live: whatever happens without a valid message or a finished
  fetch, once the clock is more than thirty seconds past the last success the page does not say
  that it is connected; and when it had a reading and a stream that had once opened or failed, it says
  that it is offline, reconnecting or out of date.
\<close>

theorem silence_shows:
  assumes "list_all (no_news json dparse) es" "lastSuccessAt dparse s = Some t"
    and "clock (telemetry_run json dparse s es) > t + 30000"
  shows "connectionState dparse (telemetry_run json dparse s es) \<noteq> Connected
    \<and> (current_snapshot s \<noteq> None \<and> \<not> isPending s \<and> streamState s \<noteq> Connecting \<longrightarrow>
        connectionState dparse (telemetry_run json dparse s es) \<in> {Offline, Reconnecting, Stale})"
proof -
  have "lastSuccessAt dparse (telemetry_run json dparse s es) = Some t"
    using assms(2) by (simp add: lastSuccessAt_def silent_run [OF assms(1)])
  then have "isOld dparse (telemetry_run json dparse s es)" using assms(3) by (simp add: isOld_def)
  then show ?thesis using run_started [of s json dparse es]
    by (auto simp: connectionState_def current_snapshot_def silent_run [OF assms(1)])
qed

lemma silence_shows_witness:
  "let s = fresh_telemetry\<lparr>query_data := Some (state_of_value sample_state), isPending := False, streamState := StreamConnected\<rparr> in
   connectionState sample_dparse (telemetry_run (\<lambda>_. None) sample_dparse s [StreamOpened, Tick 40000]) \<in> {Offline, Reconnecting, Stale}"
proof -
  let ?s = "fresh_telemetry\<lparr>query_data := Some (state_of_value sample_state), isPending := False, streamState := StreamConnected\<rparr>"
  have last: "lastSuccessAt sample_dparse ?s = Some 1000"
    by code_simp
  have "list_all (no_news (\<lambda>_. None) sample_dparse) [StreamOpened, Tick 40000]"
    by (simp add: no_news_def delivered_def)
  note silence_shows [OF this last]
  moreover have "current_snapshot ?s \<noteq> None \<and> \<not> isPending ?s \<and> streamState ?s \<noteq> Connecting" by code_simp
  ultimately show ?thesis unfolding Let_def by (simp del: foldl.simps) simp
qed

end
