(* ===== verification/Display.thy ===== *)
theory Display
  imports Panels HistoryView Live
begin

text \<open>
  What the cards and charts print: the texts of \<open>SummaryCards.tsx\<close>, the tooltip, ticks and gaps of
  \<open>ProductionChart.tsx\<close>, the rows of \<open>AccessibleHistoryTable.tsx\<close>, and of the live page
  \<open>HeroPower.tsx\<close>, \<open>PVFlow.tsx\<close>, \<open>MetricStrip.tsx\<close> and \<open>WeatherContext.tsx\<close>.

  The main lemma, \<open>tooltip_reading\<close>: the tooltip on a point shows its own power and time.

  Parameters: the number formats of \<open>Intl\<close> (\<open>live_formats\<close>, and \<open>digits n\<close> with \<open>n\<close> fraction digits)
  and \<open>show_time\<close>, its date format.
\<close>

section \<open>The summary\<close>

definition history_energy :: "(jsnum \<Rightarrow> jsstring) \<Rightarrow> jsnum \<Rightarrow> jsstring" where
  "history_energy two wh = (if jle (Fin 1000) wh then two (jdiv wh (Fin 1000)) @ js '' kWh'' else two wh @ js '' Wh'')"

definition history_power :: "(jsnum \<Rightarrow> jsstring) \<Rightarrow> jsnum \<Rightarrow> jsstring" where
  "history_power two w = (if jle (Fin 1000) w then two (jdiv w (Fin 1000)) @ js '' kW'' else two w @ js '' W'')"

definition coverage_text :: "(jsnum \<Rightarrow> jsstring) \<Rightarrow> jsnum option \<Rightarrow> jsstring" where
  "coverage_text one c = (case c of None \<Rightarrow> js ''Indispon'' @ [0xED] @ js ''vel'' | Some x \<Rightarrow> one x @ js ''%'')"

text \<open>The comparison line: \<open>None\<close> when there is nothing to compare with.\<close>

definition comparison_copy :: "(jsnum \<Rightarrow> jsstring) \<Rightarrow> history_summary \<Rightarrow> history_summary option \<Rightarrow> jsstring option \<times> bool" where
  "comparison_copy two cur prev =
     (map_option (\<lambda>c. (if jle (Fin 0) c then js ''+'' else []) @ two c @ js ''%'') (comparison cur prev), coverageDiffers cur prev)"

text \<open>Hours and minutes, rounded to whole minutes.\<close>

definition formatDuration :: "jsnum \<Rightarrow> jsstring" where
  "formatDuration minutes = (let rounded = jround minutes; hours = jfloor (jdiv rounded (Fin 60)); rest = jrem rounded (Fin 60) in
     if jeq hours (Fin 0) then num_text rest @ js '' min''
     else if jeq rest (Fin 0) then num_text hours @ js '' h''
     else num_text hours @ js '' h '' @ num_text rest @ js '' min'')"

section \<open>The chart\<close>

text \<open>An entry of the tooltip's payload: the series, its row and its value on that row.\<close>

record tooltip_entry =
  dataKey :: "series option"
  entry_row :: "chart_row option"
  entry_value :: "jsnum option"

datatype tooltip = NoTooltip | GapTooltip | ReadingTooltip jsstring jsstring

definition ChartTooltip :: "(jsnum \<Rightarrow> jsstring) \<Rightarrow> (jsstring \<Rightarrow> jsstring) \<Rightarrow> bool \<Rightarrow> tooltip_entry list \<Rightarrow> tooltip" where
  "ChartTooltip two show_time active payload =
     (let row = (case payload of [] \<Rightarrow> None | e # _ \<Rightarrow> entry_row e) in
      if active \<and> (case row of None \<Rightarrow> False | Some r \<Rightarrow> row_gap r) then GapTooltip
      else (case find (\<lambda>e. entry_value e \<noteq> None) payload of None \<Rightarrow> NoTooltip
        | Some e \<Rightarrow> (case (active, dataKey e, entry_row e) of
            (True, Some k, Some r) \<Rightarrow> (case map_of (cells r) k of None \<Rightarrow> NoTooltip
              | Some (_, stamp) \<Rightarrow> ReadingTooltip (history_power two (or_else (entry_value e) (Fin 0))) (show_time stamp))
          | _ \<Rightarrow> NoTooltip)))"

text \<open>What the chart library hands over: one entry for each line, all with the row under the pointer.\<close>

definition payload_of :: "series list \<Rightarrow> chart_row \<Rightarrow> tooltip_entry list" where
  "payload_of ks r = map (\<lambda>k. \<lparr>dataKey = Some k, entry_row = Some r, entry_value = map_option fst (map_of (cells r) k)\<rparr>) ks"

definition chart_lines :: "history_view \<Rightarrow> history_view option \<Rightarrow> series list" where
  "chart_lines cur prev = map CurrentSeries [0..<length (segments cur)]
     @ (case prev of None \<Rightarrow> [] | Some v \<Rightarrow> map PreviousSeries [0..<length (segments v)])"

definition tick_label :: "(jsnum \<Rightarrow> jsstring) \<Rightarrow> jsnum \<Rightarrow> jsstring" where
  "tick_label one value = (if jle (Fin 1000) value then one (jdiv value (Fin 1000)) @ js ''k'' else num_text value)"

definition solarman_note :: "history_view \<Rightarrow> bool" where
  "solarman_note v = list_ex (\<lambda>p. case sampleIntervalMinutes p of None \<Rightarrow> False | Some n \<Rightarrow> jeq n (Fin 5)) (chartPoints v)"

text \<open>A dot marks a segment of one point only; the others are lines.\<close>

definition has_dot :: "minute_point list \<Rightarrow> bool" where
  "has_dot segment \<longleftrightarrow> length segment = 1"

text \<open>For each gap its key and label, and whether its tooltip is open; \<open>None\<close> without gaps.\<close>

definition GapList :: "(jsstring \<Rightarrow> jsstring) \<Rightarrow> (jsstring \<times> jsstring) list \<Rightarrow> jsstring option
    \<Rightarrow> (jsstring \<times> jsstring \<times> bool) list option" where
  "GapList show_time gs open_gap = (if gs = [] then None
     else Some (map (\<lambda>(a, b). let key = a @ 45 # b in
       (key, js ''Sem dados entre '' @ show_time a @ js '' e '' @ show_time b, open_gap = Some key)) gs))"

text \<open>The rows of the table, which are only there while it is open.\<close>

definition AccessibleHistoryTable :: "(jsnum \<Rightarrow> jsstring) \<Rightarrow> (jsstring \<Rightarrow> jsstring) \<Rightarrow> bool \<Rightarrow> history_point list
    \<Rightarrow> (jsstring \<times> jsstring) list option" where
  "AccessibleHistoryTable two show_time is_open points = (if \<not> is_open then None
     else Some (map (\<lambda>p. (show_time (point_at p), history_power two (powerW (toChartPoint p)))) points))"

text \<open>The tooltip on a row with the reading of the first line that has one there.\<close>

lemma find_payload:
  assumes "k \<in> set ks" "map_of (cells r) k \<noteq> None"
  shows "\<exists>j p. j \<in> set ks \<and> map_of (cells r) j = Some p
    \<and> find (\<lambda>e. entry_value e \<noteq> None) (payload_of ks r)
      = Some \<lparr>dataKey = Some j, entry_row = Some r, entry_value = Some (fst p)\<rparr>"
  using assms(1) by (induction ks) (use assms(2) in \<open>auto simp: payload_of_def\<close>)

lemma tooltip_reading:
  assumes "k \<in> set ks" "map_of (cells r) k \<noteq> None" "\<not> row_gap r"
  shows "\<exists>j power stamp. j \<in> set ks \<and> map_of (cells r) j = Some (power, stamp)
    \<and> ChartTooltip two show_time True (payload_of ks r) = ReadingTooltip (history_power two power) (show_time stamp)"
proof -
  obtain j p where j: "j \<in> set ks" "map_of (cells r) j = Some p"
    "find (\<lambda>e. entry_value e \<noteq> None) (payload_of ks r)
      = Some \<lparr>dataKey = Some j, entry_row = Some r, entry_value = Some (fst p)\<rparr>"
    using find_payload [OF assms(1,2)] by blast
  have "(case payload_of ks r of [] \<Rightarrow> None | e # _ \<Rightarrow> entry_row e) = Some r"
    using assms(1) by (cases ks) (simp_all add: payload_of_def)
  then have "ChartTooltip two show_time True (payload_of ks r) = ReadingTooltip (history_power two (fst p)) (show_time (snd p))"
    using j(2,3) assms(3) by (simp add: ChartTooltip_def Let_def split: prod.splits)
  with j(1,2) show ?thesis by (cases p) auto
qed

lemma tooltip_gap: "ks \<noteq> [] \<Longrightarrow> row_gap r \<Longrightarrow> ChartTooltip two show_time True (payload_of ks r) = GapTooltip"
  by (cases ks) (simp_all add: ChartTooltip_def payload_of_def)

section \<open>The live cards\<close>

definition statusLabel :: "jsstring \<Rightarrow> jsstring" where
  "statusLabel st = or_else (map_of
     [(js ''checking'', js ''Verificando inversor''), (js ''fault'', js ''Falha no inversor''),
      (js ''normal'', js ''Opera'' @ [0xE7, 0xE3] @ js ''o normal''), (js ''standby'', js ''Inversor em espera'')] st)
     (js ''Estado do inversor dispon'' @ [0xED] @ js ''vel'')"

definition hero_time :: "(jsstring \<Rightarrow> jsstring) \<Rightarrow> jsstring option \<Rightarrow> jsstring" where
  "hero_time show_time updatedAt = (case updatedAt of
       Some t \<Rightarrow> if t \<noteq> [] then js ''Atualizado '' @ [0xE0] @ js ''s '' @ show_time t
         else js ''Hor'' @ [0xE1] @ js ''rio da leitura indispon'' @ [0xED] @ js ''vel''
     | None \<Rightarrow> js ''Hor'' @ [0xE1] @ js ''rio da leitura indispon'' @ [0xED] @ js ''vel'')"

text \<open>\<open>s.replace(p, r)\<close>: the first occurrence.\<close>

fun replace_first :: "jsstring \<Rightarrow> jsstring \<Rightarrow> jsstring \<Rightarrow> jsstring" where
  "replace_first p r [] = (if p = [] then r else [])"
| "replace_first p r (c # s) = (if starts_with p (c # s) then r @ drop (length p) (c # s) else c # replace_first p r s)"

text \<open>The readings of one input of the inverter.\<close>

record channel =
  ch_active :: bool
  currentA :: jsnum
  channelPowerW :: jsnum
  voltageV :: jsnum

record flow =
  flow_channels :: "(jsstring \<times> jsstring) list"
  inverter_label :: jsstring
  grid_voltage :: jsstring
  unused_note :: bool
  installed_note :: "jsstring option"

definition PVFlow :: "live_formats \<Rightarrow> (nat \<Rightarrow> jsnum \<Rightarrow> jsstring) \<Rightarrow> channel \<Rightarrow> channel \<Rightarrow> jsstring \<Rightarrow> jsnum
    \<Rightarrow> settings option \<Rightarrow> flow" where
  "PVFlow F digits pv1 pv2 st gridV conf =
     \<lparr>flow_channels = (js ''PV1'', formatPower F (channelPowerW pv1))
        # (if ch_active pv2 then [(js ''PV2'', formatPower F (channelPowerW pv2))] else []),
      inverter_label = (if st = js ''normal'' then js ''Convertendo'' else js ''Verificar estado''),
      grid_voltage = digits 1 gridV @ js '' V'',
      unused_note = (\<not> ch_active pv2),
      installed_note = map_option (\<lambda>c. num_text (s_panelCount c) @ [32, 0xD7, 32] @ num_text (s_panelWattage c) @ js '' W ''
        @ [0xB7, 32] @ replace_first (js ''kW'') (js ''kWp'') (formatPower F (jmul (s_panelCount c) (s_panelWattage c)))
        @ js '' instalados'') conf\<rparr>"

definition MetricStrip :: "(nat \<Rightarrow> jsnum \<Rightarrow> jsstring) \<Rightarrow> channel \<Rightarrow> jsnum \<Rightarrow> jsnum \<Rightarrow> (jsstring \<times> jsstring) list" where
  "MetricStrip digits pv1 gridV gridHz =
     [(js ''Tens'' @ [0xE3] @ js ''o PV1'', digits 1 (voltageV pv1) @ js '' V''),
      (js ''Corrente PV1'', digits 2 (currentA pv1) @ js '' A''),
      (js ''Tens'' @ [0xE3] @ js ''o da rede'', digits 1 gridV @ js '' V''),
      (js ''Frequ'' @ [0xEA] @ js ''ncia'', digits 2 gridHz @ js '' Hz'')]"

section \<open>The weather\<close>

text \<open>\<open>data?.weather ?? 'unavailable'\<close>, and the date the age is counted from.\<close>

definition weather_status :: "component_health option \<Rightarrow> jsstring" where
  "weather_status h = (case h of None \<Rightarrow> js ''unavailable'' | Some c \<Rightarrow> weather c)"

definition weather_updatedAt :: "component_health option \<Rightarrow> jsstring option" where
  "weather_updatedAt h = (case h of None \<Rightarrow> None
     | Some c \<Rightarrow> if weather c = js ''available''
         then (case weatherUpdatedAt c of Some t \<Rightarrow> Some t | None \<Rightarrow> weatherFetchedAt c)
         else weatherFetchedAt c)"

definition weather_title :: "(nat \<Rightarrow> jsnum \<Rightarrow> jsstring) \<Rightarrow> component_health option \<Rightarrow> jsstring" where
  "weather_title digits h = (case Option.bind h temperatureC of
       Some t \<Rightarrow> if weather_status h = js ''available'' then digits 1 t @ [32, 0xB0] @ js ''C''
         else if weather_status h = js ''stale'' then js ''Dados meteorol'' @ [0xF3] @ js ''gicos desatualizados''
         else js ''Previs'' @ [0xE3] @ js ''o indispon'' @ [0xED] @ js ''vel''
     | None \<Rightarrow> if weather_status h = js ''stale'' then js ''Dados meteorol'' @ [0xF3] @ js ''gicos desatualizados''
         else js ''Previs'' @ [0xE3] @ js ''o indispon'' @ [0xED] @ js ''vel'')"

definition reading_or_dash :: "(jsnum \<Rightarrow> jsstring) \<Rightarrow> jsstring \<Rightarrow> jsstring \<Rightarrow> jsnum option \<Rightarrow> jsstring" where
  "reading_or_dash show unit missing v = (case v of None \<Rightarrow> missing | Some x \<Rightarrow> show x @ unit)"

text \<open>Rain, wind, clouds and radiation, which are only shown while the weather is available.\<close>

definition weather_readings :: "(nat \<Rightarrow> jsnum \<Rightarrow> jsstring) \<Rightarrow> component_health option \<Rightarrow> jsstring list option" where
  "weather_readings digits h = (if weather_status h \<noteq> js ''available'' then None
     else Some [reading_or_dash (digits 1) (js '' mm'') [0x2014] (Option.bind h precipitationMM),
       reading_or_dash (digits 1) (js '' km/h'') [0x2014] (Option.bind h windSpeedKMH),
       reading_or_dash (\<lambda>x. num_text (jround x)) (js ''%'') [0x2014] (Option.bind h cloudCoverPct),
       reading_or_dash (\<lambda>x. num_text (jround x)) (js '' W/m'' @ [0xB2]) (js ''Sem leitura'') (Option.bind h irradianceWM2)])"

text \<open>The comparison with the potential, when there is one.\<close>

definition solar_comparison :: "(nat \<Rightarrow> jsnum \<Rightarrow> jsstring) \<Rightarrow> jsnum option \<Rightarrow> jsnum option \<Rightarrow> (jsstring \<times> jsstring) option" where
  "solar_comparison digits potential share = (case (potential, share) of
       (Some p, Some s) \<Rightarrow> Some (digits 2 (jdiv p (Fin 1000)) @ js '' kW'',
         num_text (jround (jmul s (Fin 100))) @ js ''% do potencial'')
     | _ \<Rightarrow> None)"

text \<open>Nothing of the weather is shown as current unless the server says that it is.\<close>

lemma weather_only_when_available:
  "weather_readings digits h \<noteq> None \<Longrightarrow> \<exists>c. h = Some c \<and> weather c = js ''available''"
  by (auto simp: weather_readings_def weather_status_def js_inj split: option.splits if_splits)

end
