(* ===== verification/HistoryMarkup.thy ===== *)
theory HistoryMarkup
  imports HistoryPage Display Markup
begin

text \<open>
  The history page as markup, \<open>web/src/features/history\<close>: \<open>HistoryPage.tsx\<close> with \<open>PeriodPicker.tsx\<close>,
  \<open>SummaryCards.tsx\<close>, the frame and the list of gaps of \<open>ProductionChart.tsx\<close>, and
  \<open>AccessibleHistoryTable.tsx\<close>, over the views and texts of \<open>HistoryPage\<close>, \<open>HistoryView\<close> and \<open>Display\<close>.

  What the theory shows: no two gaps of a view have the same key (\<open>gap_keys_distinct\<close>), so that one gap
  at most is explained at a time, and the page is well formed and shows the period, the coverage, the
  gaps and the readings as they are (\<open>history_page_shows\<close>). The drawing inside the chart's frame is
  that of a library.

  Parameters: the formats of \<open>Intl\<close> in the zone (\<open>history_formats\<close>), \<open>dparse\<close> (\<open>Date.parse\<close>) and \<open>off\<close>,
  the zone, as in \<open>HistoryRange\<close>.
\<close>

section \<open>The parts\<close>

record history_formats =
  two :: "jsnum \<Rightarrow> jsstring"
  one :: "jsnum \<Rightarrow> jsstring"
  title_day :: "int \<Rightarrow> jsstring"
  gap_clock :: "jsstring \<Rightarrow> jsstring"
  table_clock :: "jsstring \<Rightarrow> jsstring"

text \<open>The gap that is explained, and whether the table is open.\<close>

record history_ui =
  activeGap :: "jsstring option"
  table_open :: bool

datatype history_event = PickPeriod period | RefetchZone | RefetchHistory | ShowGap jsstring | HideGap | ToggleTable bool

definition ui_step :: "history_ui \<Rightarrow> history_event \<Rightarrow> history_ui" where
  "ui_step ui e = (case e of ShowGap k \<Rightarrow> ui\<lparr>activeGap := Some k\<rparr> | HideGap \<Rightarrow> ui\<lparr>activeGap := None\<rparr>
     | ToggleTable b \<Rightarrow> ui\<lparr>table_open := b\<rparr> | _ \<Rightarrow> ui)"

definition glyph :: "'e node" where
  "glyph = El Icon [(Hidden, js ''true'')] [] []"

definition PeriodPickerView :: "period \<Rightarrow> history_event node" where
  "PeriodPickerView value = El Fieldset [] [] (El Legend [] [] [Txt (jsx ''Per&iacute;odo do hist&oacute;rico'')]
     # map (\<lambda>(label, p, pressed). El Button [(Pressed, bool_text pressed), (Type, js ''button'')] [(OnClick, \<lambda>_. PickPeriod p)] [Txt label])
         (PeriodPicker value))"

definition summary_pair :: "jsstring \<Rightarrow> jsstring \<Rightarrow> 'e node" where
  "summary_pair t d = El Div [] [] [El Term [] [] [Txt t], El Description [] [] [Txt d]]"

definition SummaryCards :: "history_formats \<Rightarrow> history_summary \<Rightarrow> history_summary option \<Rightarrow> 'e node" where
  "SummaryCards F cur prev = (let (change, differs) = comparison_copy (two F) cur prev in
     El Section [(AriaLabel, jsx ''Resumo do per&iacute;odo'')] []
       [El DescriptionList [] []
          [summary_pair (js ''Energia observada'') (history_energy (two F) (sum_energy cur)),
           summary_pair (js ''Pico observado'') (history_power (two F) (sum_peak cur)),
           summary_pair (js ''Tempo produtivo'') (formatDuration (sum_productive cur)),
           summary_pair (js ''Cobertura'') (coverage_text (one F) (sum_coverage cur))],
        El Paragraph [] [] (Txt (case change of None \<Rightarrow> jsx ''Compara&ccedil;&atilde;o com o per&iacute;odo anterior indispon&iacute;vel.''
            | Some c \<Rightarrow> c @ jsx '' em rela&ccedil;&atilde;o ao per&iacute;odo anterior.'')
          # only_if differs [Txt (jsx '' Os per&iacute;odos t&ecirc;m cobertura diferente; compare com cautela.'')])])"

definition tooltip_id :: "(jsstring \<Rightarrow> int option) \<Rightarrow> jsstring \<times> jsstring \<Rightarrow> jsstring" where
  "tooltip_id dparse g = js ''gap-'' @ num_text (date_num dparse (fst g)) @ 45 # num_text (date_num dparse (snd g))"

definition gap_item :: "(jsstring \<Rightarrow> int option) \<Rightarrow> jsstring \<times> jsstring \<Rightarrow> jsstring \<times> jsstring \<times> bool \<Rightarrow> history_event node" where
  "gap_item dparse g = (\<lambda>(key, label, is_active). El Item [] []
     (El Button (only_if is_active [(DescribedBy, tooltip_id dparse g)] @ [(Type, js ''button'')])
        [(OnBlur, \<lambda>_. HideGap), (OnFocus, \<lambda>_. ShowGap key), (OnMouseEnter, \<lambda>_. ShowGap key), (OnMouseLeave, \<lambda>_. HideGap)]
        [glyph, Txt label]
      # only_if is_active [El Div [(Id, tooltip_id dparse g), (Role, js ''tooltip'')] []
          [El Strong [] [] [Txt (js ''Sem dados neste intervalo'')], El Span [] [] [Txt label]]]))"

definition GapListView :: "history_formats \<Rightarrow> (jsstring \<Rightarrow> int option) \<Rightarrow> (jsstring \<times> jsstring) list \<Rightarrow> jsstring option
    \<Rightarrow> history_event node list" where
  "GapListView F dparse gs active = (case GapList (gap_clock F) gs active of None \<Rightarrow> []
     | Some rows \<Rightarrow> [El UnorderedList [] [] (map (\<lambda>(g, row). gap_item dparse g row) (zip gs rows))])"

definition ProductionChart :: "history_formats \<Rightarrow> (jsstring \<Rightarrow> int option) \<Rightarrow> history_view \<Rightarrow> jsstring option \<Rightarrow> history_event node" where
  "ProductionChart F dparse v active = El Section [(AriaLabel, jsx ''Curva de produ&ccedil;&atilde;o'')] []
     ([El Div [(Hidden, js ''true'')] [] [],
       El Div [] [] [El Span [] [] [Txt (jsx ''Per&iacute;odo atual'')], El Span [] [] [Txt (jsx ''Per&iacute;odo anterior'')]]]
      @ only_if (solarman_note v) [El Paragraph [] []
          [Txt (jsx ''Hist&oacute;rico Solarman: amostras a cada 5 min. Linhas seguem esta cad&ecirc;ncia; tracejado indica lacuna maior.'')]]
      @ GapListView F dparse (gaps v) active)"

definition HistoryTable :: "history_formats \<Rightarrow> bool \<Rightarrow> history_point list \<Rightarrow> history_event node" where
  "HistoryTable F is_open points = El Details [] [(OnToggle, \<lambda>v. ToggleTable (v = js ''true''))]
     (El Summary [] [] [Txt (js ''Ver dados precisos'')]
      # (case AccessibleHistoryTable (two F) (table_clock F) is_open points of None \<Rightarrow> []
         | Some rows \<Rightarrow> [El Div [] [] [El Table [(AriaLabel, jsx ''Leituras do per&iacute;odo atual'')] []
             [El TableHead [] [] [El Row [] [] [El HeadCell [(Scope, js ''col'')] [] [Txt (js ''Data e hora'')],
                El HeadCell [(Scope, js ''col'')] [] [Txt (jsx ''Pot&ecirc;ncia observada'')]]],
              El TableBody [] [] (map (\<lambda>(t, w). El Row [] [] [El Cell [] [] [Txt t], El Cell [] [] [Txt w]]) rows)]]]))"

section \<open>The page\<close>

definition history_state :: "jsstring \<Rightarrow> jsstring \<Rightarrow> jsstring \<Rightarrow> history_event node \<Rightarrow> history_event node" where
  "history_state label title why last_part = El Section [] []
     [El Paragraph [] [] [Txt label], El Heading [] [] [Txt title], El Paragraph [] [] [Txt why], last_part]"

definition retry_button :: "history_event \<Rightarrow> jsstring \<Rightarrow> history_event node" where
  "retry_button e label = El Button [(Type, js ''button'')] [(OnClick, \<lambda>_. e)] [glyph, Txt label]"

text \<open>An unreadable range takes the page down: its title or its link throws.\<close>

definition readings_page :: "history_formats \<Rightarrow> (jsstring \<Rightarrow> int option) \<Rightarrow> history_ui \<Rightarrow> history_range \<Rightarrow> history_view \<Rightarrow> history_view option
    \<Rightarrow> history_point list \<Rightarrow> history_event node option" where
  "readings_page F dparse ui r v prev points = (case (rangeTitle dparse (title_day F) r, exportPath r) of
       (Some title, Some href) \<Rightarrow> Some (El Article [] []
         ([El Header [] [] [El Div [] [] [El Paragraph [] [] [Txt (jsx ''Arquivo de produ&ccedil;&atilde;o'')], El Heading [] [] [Txt (jsx ''Hist&oacute;rico solar'')],
               El Paragraph [] [] [Txt title]],
             El Link [(Download, []), (Href, href)] [] [glyph, Txt (js ''Baixar CSV'')]],
           PeriodPickerView (range_period r), SummaryCards F (summary v) (map_option summary prev)]
          @ (case coverage_warning v of None \<Rightarrow> []
             | Some c \<Rightarrow> [El Paragraph [(Role, js ''status'')] [] [Txt (js ''Cobertura de '' @ formatCoverage (one F) c
                 @ jsx '', abaixo de 95%. Totais e compara&ccedil;&atilde;o podem estar incompletos.'')]])
          @ [ProductionChart F dparse v (activeGap ui), HistoryTable F (table_open ui) points]))
     | _ \<Rightarrow> None)"

definition HistoryContentView :: "history_formats \<Rightarrow> (jsstring \<Rightarrow> int option) \<Rightarrow> (int \<Rightarrow> int) \<Rightarrow> history_ui \<Rightarrow> history_range
    \<Rightarrow> history_point list result \<Rightarrow> history_point list result \<Rightarrow> history_event node option" where
  "HistoryContentView F dparse off ui r now before = (case (HistoryContent dparse off r now before,
       view_of dparse off r False now, view_of dparse off r True before, now) of
       (Some HistoryPending, _) \<Rightarrow> Some (El Section [(Busy, js ''true''), (AriaLabel, jsx ''Carregando hist&oacute;rico'')] []
         [El Paragraph [] [] [Txt (jsx ''Organizando as leituras do per&iacute;odo&hellip;'')], El Div [] [] []])
     | (Some HistoryFailed, _) \<Rightarrow> Some (history_state (jsx ''Hist&oacute;rico indispon&iacute;vel'') (jsx ''N&atilde;o foi poss&iacute;vel carregar o hist&oacute;rico.'')
         (jsx ''O Helio n&atilde;o recebeu as leituras deste per&iacute;odo. Verifique a conex&atilde;o e tente novamente.'') (retry_button RefetchHistory (js ''Tentar novamente'')))
     | (Some NoReadings, _) \<Rightarrow> Some (history_state (jsx ''Per&iacute;odo sem observa&ccedil;&otilde;es'') (jsx ''Ainda n&atilde;o h&aacute; leituras neste per&iacute;odo.'')
         (jsx ''A aus&ecirc;ncia de amostras n&atilde;o representa gera&ccedil;&atilde;o zero. Escolha outro per&iacute;odo ou aguarde novas coletas.'') (PeriodPickerView (range_period r)))
     | (Some (Readings _), Some (Some v), Some prev, Loaded points) \<Rightarrow> readings_page F dparse ui r v prev points
     | _ \<Rightarrow> None)"

definition HistoryPageView :: "history_formats \<Rightarrow> (jsstring \<Rightarrow> int option) \<Rightarrow> (int \<Rightarrow> int) \<Rightarrow> history_ui \<Rightarrow> jsstring option \<Rightarrow> jsstring result
    \<Rightarrow> history_range \<Rightarrow> history_point list result \<Rightarrow> history_point list result \<Rightarrow> history_event node option" where
  "HistoryPageView F dparse off ui override settings r now before = (case HistoryPage override settings of
       Inl ZoneFailed \<Rightarrow> Some (history_state (jsx ''Configura&ccedil;&atilde;o indispon&iacute;vel'') (jsx ''N&atilde;o foi poss&iacute;vel carregar o fuso hor&aacute;rio.'')
         (jsx ''O hist&oacute;rico precisa do fuso configurado para respeitar dias e meses locais.'') (retry_button RefetchZone (jsx ''Tentar carregar configura&ccedil;&otilde;es'')))
     | Inl _ \<Rightarrow> Some (El Section [(Busy, js ''true'')] [] [Txt (jsx ''Preparando o calend&aacute;rio local&hellip;'')])
     | Inr zone \<Rightarrow> HistoryContentView F dparse off ui r now before)"

section \<open>The keys of the gaps\<close>

text \<open>The instant a point is sorted by.\<close>

definition instant :: "(jsstring \<Rightarrow> int option) \<Rightarrow> jsstring \<Rightarrow> int" where
  "instant dparse s = or_else (dparse s) 0"

lemma gap_later:
  assumes "adaptive_gap dparse res p q" "instant dparse (mp_at p) \<le> instant dparse (mp_at q)"
  shows "instant dparse (mp_at p) < instant dparse (mp_at q)"
proof -
  have none: "\<not> jlt d (jsub x NaN)" "\<not> jlt d (jsub NaN x)" for d x by (cases x; cases d; simp add: jsub_def jlt_def)+
  have zero: "\<not> jlt d (jsub x x)" if "d \<noteq> NInf" "jle (Fin 0) d" for d x
    using that by (cases x; cases d) (auto simp: jsub_def jlt_def fl_def)
  have limit: "RESOLUTION_GAP_MS res \<noteq> NInf" "jle (Fin 0) (RESOLUTION_GAP_MS res)" by (cases res; simp)+
  have "\<not> adaptive_gap dparse res p q" if same: "instant dparse (mp_at p) = instant dparse (mp_at q)"
  proof (cases "dparse (mp_at p) = None \<or> dparse (mp_at q) = None")
    case True
    then show ?thesis by (auto simp: adaptive_gap_def elapsed_def date_num_def none)
  next
    case False
    with same have "date_num dparse (mp_at q) = date_num dparse (mp_at p)" by (auto simp: instant_def date_num_def)
    then show ?thesis using zero limit by (simp add: adaptive_gap_def elapsed_def)
  qed
  with assms show ?thesis by force
qed

lemma gap_starts: "g \<in> set (segment_gaps segs) \<Longrightarrow> \<exists>x \<in> set segs. fst g = mp_at (last x)"
  by (induction segs rule: segment_gaps.induct) auto

lemma gaps_increase:
  assumes "runs (adaptive_gap dparse res) segs" "sorted (map (instant dparse \<circ> mp_at) (concat segs))"
  shows "sorted_wrt (<) (map (instant dparse \<circ> fst) (segment_gaps segs))"
  using assms
proof (induction segs rule: segment_gaps.induct)
  case (1 s t rest)
  let ?k = "instant dparse \<circ> mp_at"
  have full: "s \<noteq> []" "t \<noteq> []" "\<forall>x \<in> set rest. x \<noteq> []" using "1.prems"(1) by (auto simp: runs_def list_all_iff)
  have "map ?k (concat (s # t # rest)) = map ?k s @ map ?k (concat (t # rest))" by simp
  with "1.prems"(2) have parts: "sorted (map ?k s @ map ?k (concat (t # rest)))" by (simp only:)
  then have inner: "sorted (map ?k (concat (t # rest)))" by (rule sorted_append [THEN iffD1, THEN conjunct2, THEN conjunct1])
  have order: "\<And>x y. x \<in> set s \<Longrightarrow> y \<in> set (concat (t # rest)) \<Longrightarrow> ?k x \<le> ?k y"
    using parts [unfolded sorted_append, THEN conjunct2, THEN conjunct2] by (simp only: set_map) blast
  have "?k (last s) < ?k (hd t)"
    using "1.prems"(1) order [of "last s" "hd t"] full by (auto simp: runs_def intro: gap_later)
  moreover have "?k (hd t) \<le> ?k (last x)" if "x \<in> set (t # rest)" for x
  proof -
    have "concat (t # rest) = hd t # (tl t @ concat rest)" using full(2) by simp
    moreover have "last x \<in> set (concat (t # rest))" using that full by force
    ultimately show ?thesis using inner by (auto simp del: concat.simps)
  qed
  ultimately have later: "?k (last s) < ?k (last x)" if "x \<in> set (t # rest)" for x
    using that by (meson order_less_le_trans)
  have above: "?k (last s) < instant dparse (fst g)" if g: "g \<in> set (segment_gaps (t # rest))" for g
  proof -
    obtain x where "x \<in> set (t # rest)" "fst g = mp_at (last x)" using gap_starts [OF g] by blast
    with later [of x] show ?thesis by simp
  qed
  have "runs (adaptive_gap dparse res) (t # rest)" using "1.prems"(1) by (simp add: runs_def)
  from "1.IH" [OF this inner] above show ?case by simp
qed simp_all

lemma key_start: "a @ c # b = a' @ c # b' \<Longrightarrow> count_list a c = count_list a' c \<Longrightarrow> a = a'"
proof (induction a arbitrary: a')
  case Nil
  then show ?case by (cases a') auto
next
  case (Cons x a)
  then show ?case by (cases a') (auto split: if_splits)
qed

definition dates_ok :: "(jsstring \<Rightarrow> int option) \<Rightarrow> nat \<Rightarrow> history_point list \<Rightarrow> bool" where
  "dates_ok dparse n points \<longleftrightarrow> list_all (\<lambda>p. dparse (point_at p) \<noteq> None \<and> count_list (point_at p) 45 = n) points"

lemma gap_keys_distinct:
  assumes "buildHistoryView dparse off points res window = Some v" "dates_ok dparse n points"
  shows "distinct (map (\<lambda>(a, b). a @ 45 # b) (gaps v))"
proof -
  define cps where "cps = map toChartPoint (order_points dparse points)"
  have gaps: "gaps v = segment_gaps (toAdaptiveChartSegments dparse cps res)"
    using assms(1) by (auto simp: buildHistoryView_def cps_def Let_def)
  have stamp: "mp_at (toChartPoint p) = point_at p" for p by (cases p) simp_all
  have "sorted (map (instant dparse \<circ> mp_at) cps)"
    by (simp add: cps_def order_points_def instant_def comp_def stamp)
  then have "sorted_wrt (<) (map (instant dparse \<circ> fst) (gaps v))"
    unfolding gaps by (intro gaps_increase [where res = res]) (simp_all add: adaptive_runs)
  then have "distinct (map (instant dparse) (map fst (gaps v)))" by (simp add: strict_sorted_iff comp_def)
  then have fsts: "distinct (map fst (gaps v))" unfolding distinct_map [of "instant dparse"] by blast
  have count: "count_list (fst g) 45 = n" if g: "g \<in> set (gaps v)" for g
  proof -
    obtain x where x: "x \<in> set (toAdaptiveChartSegments dparse cps res)" "fst g = mp_at (last x)"
      using gap_starts [OF g [unfolded gaps]] by blast
    have "x \<noteq> []" using x(1) adaptive_runs(1) [of dparse res cps] by (auto simp: runs_def list_all_iff)
    then have "last x \<in> set cps" using x(1) adaptive_runs(2) [of dparse cps res] by (metis UN_I last_in_set set_concat)
    then show ?thesis using assms(2) x(2) by (auto simp: cps_def stamp order_points_def dates_ok_def list_all_iff)
  qed
  have "inj_on (\<lambda>(a, b). a @ 45 # b) (set (gaps v))"
  proof (rule inj_onI, clarify)
    fix a b a' b' assume g: "(a, b) \<in> set (gaps v)" "(a', b') \<in> set (gaps v)" and same: "a @ 45 # b = a' @ 45 # b'"
    have "a = a'" using key_start [OF same] count [OF g(1)] count [OF g(2)] by simp
    with same show "a = a' \<and> b = b'" by simp
  qed
  then show ?thesis using fsts by (auto simp: distinct_map)
qed

section \<open>What is on the page\<close>

definition pressed :: "'e node \<Rightarrow> jsstring list" where
  "pressed = collect (\<lambda>e. if attr_of Pressed e = Some (js ''true'') then [text_content e] else [])"

definition picks :: "'e node \<Rightarrow> (jsstring \<times> 'e) list" where
  "picks = collect (\<lambda>e. case (attr_of Pressed e, hook_of OnClick e) of (Some b, Some h) \<Rightarrow> [(text_content e, h [])] | _ \<Rightarrow> [])"

definition gap_labels :: "'e node \<Rightarrow> jsstring list" where
  "gap_labels = collect (\<lambda>e. if hook_of OnFocus e \<noteq> None then [text_content e] else [])"

fun cells_of :: "'e node \<Rightarrow> jsstring list list" where
  "cells_of (Txt s) = []"
| "cells_of (El t as hs ns) = (if t = Row \<and> list_all (\<lambda>n. tag_of n = Some Cell) ns then [map text_content ns] else [])"

definition table_rows :: "'e node \<Rightarrow> jsstring list list" where
  "table_rows = collect cells_of"

text \<open>The cards: a term and what is said of it.\<close>

fun card_cell :: "'e node \<Rightarrow> jsstring list list" where
  "card_cell (Txt s) = []"
| "card_cell (El t as hs ns) = (if t = Div \<and> map tag_of ns = [Some Term, Some Description] then [map text_content ns] else [])"

definition cards :: "'e node \<Rightarrow> jsstring list list" where
  "cards = collect card_cell"

lemmas queries = pressed_def picks_def with_role_def gap_labels_def table_rows_def cards_def

definition gap_label :: "history_formats \<Rightarrow> jsstring \<times> jsstring \<Rightarrow> jsstring" where
  "gap_label F g = js ''Sem dados entre '' @ gap_clock F (fst g) @ js '' e '' @ gap_clock F (snd g)"

definition gap_key :: "jsstring \<times> jsstring \<Rightarrow> jsstring" where
  "gap_key g = fst g @ 45 # snd g"

text \<open>The list of gaps, one item for each.\<close>

lemma gap_list: "GapListView F dparse gs active = only_if (gs \<noteq> [])
    [El UnorderedList [] [] (map (\<lambda>g. gap_item dparse g (gap_key g, gap_label F g, active = Some (gap_key g))) gs)]"
proof -
  have "map (\<lambda>(g, row). gap_item dparse g row) (zip gs (map f gs)) = map (\<lambda>g. gap_item dparse g (f g)) gs" for f
    by (induction gs) simp_all
  then show ?thesis
    by (cases "gs = []") (simp_all add: GapListView_def GapList_def gap_key_def gap_label_def split_beta Let_def)
qed

lemma glyph_parts [simp]: "ids glyph = []" "references glyph = []" "inputs_named ls inside glyph" "text_content glyph = []"
  "collect f glyph = f (El Icon [(Hidden, js ''true'')] [] [])"
  by (simp_all add: glyph_def listed_simps)

lemma picker_ids [simp]: "ids (PeriodPickerView p) = []" "references (PeriodPickerView p) = []" "inputs_named ls inside (PeriodPickerView p)"
  by (simp_all add: PeriodPickerView_def PeriodPicker_def PERIODS_def listed_simps)

lemma cards_ids [simp]: "ids (SummaryCards F c p) = []" "references (SummaryCards F c p) = []" "inputs_named ls inside (SummaryCards F c p)"
  by (simp_all add: SummaryCards_def summary_pair_def listed_simps only_if_def split_beta)

lemma table_ids [simp]: "ids (HistoryTable F b ps) = []" "references (HistoryTable F b ps) = []" "inputs_named ls inside (HistoryTable F b ps)"
  by (cases b; simp add: HistoryTable_def AccessibleHistoryTable_def listed_simps comp_def list.pred_map split_beta list_all_iff)+

definition explained :: "(jsstring \<times> jsstring) list \<Rightarrow> jsstring option \<Rightarrow> (jsstring \<times> jsstring) list" where
  "explained gs active = filter (\<lambda>g. active = Some (gap_key g)) gs"

text \<open>A number is printed without blanks.\<close>

lemma no_blank: "32 \<notin> set (num_text x)"
proof -
  have digits: "32 \<notin> set (show_nat n)" for n
    using show_nat_digits [of n] by (auto simp: list_all_iff is_digit_def)
  have laid: "32 \<notin> set (lay_out d p)" if "32 \<notin> set d" for d p
    using that digits by (auto simp: lay_out_def Let_def dest: in_set_takeD in_set_dropD)
  have "32 \<notin> set (positive_text q)" for q
    using laid digits by (simp add: positive_text_def split: option.splits)
  then show ?thesis by (cases x) (auto simp: js_def of_char_def)
qed

lemma tooltip_tokens: "tokens (tooltip_id dparse g) = [tooltip_id dparse g]"
  using no_blank by (intro tokens_word) (auto simp: tooltip_id_def js_def of_char_def)

lemma gap_item_ids:
  "ids (gap_item dparse g (k, l, b)) = only_if b [tooltip_id dparse g]"
  "references (gap_item dparse g (k, l, b)) = only_if b [tooltip_id dparse g]"
  "inputs_named ls inside (gap_item dparse g (k, l, b))"
  by (cases b; simp add: gap_item_def listed_simps tooltip_tokens)+

lemma gaps_ids [simp]:
  "concat (map ids (GapListView F dparse gs active)) = map (tooltip_id dparse) (explained gs active)"
  "concat (map references (GapListView F dparse gs active)) = map (tooltip_id dparse) (explained gs active)"
  "list_all (inputs_named ls inside) (GapListView F dparse gs active)"
proof -
  have "concat (map (\<lambda>g. only_if (active = Some (gap_key g)) [tooltip_id dparse g]) gs) = map (tooltip_id dparse) (explained gs active)"
    by (induction gs) (simp_all add: explained_def only_if_def)
  then show "concat (map ids (GapListView F dparse gs active)) = map (tooltip_id dparse) (explained gs active)"
    "concat (map references (GapListView F dparse gs active)) = map (tooltip_id dparse) (explained gs active)"
    by (cases "gs = []"; simp add: gap_list comp_def gap_item_ids listed_simps explained_def)+
  show "list_all (inputs_named ls inside) (GapListView F dparse gs active)"
    by (cases "gs = []") (simp_all add: gap_list list.pred_map list_all_iff gap_item_ids)
qed

lemma one_explained: "distinct (map gap_key gs) \<Longrightarrow> length (explained gs active) \<le> 1"
proof (induction gs)
  case (Cons g gs)
  have "active = Some (gap_key g) \<Longrightarrow> explained gs active = []" using Cons.prems by (auto simp: explained_def filter_empty_conv)
  with Cons show ?case by (auto simp: explained_def)
qed (simp add: explained_def)

lemma gaps_collect:
  "(\<And>ns. f (El UnorderedList [] [] ns) = []) \<Longrightarrow> concat (map (collect f) (GapListView F dparse gs active))
     = concat (map (\<lambda>g. collect f (gap_item dparse g (gap_key g, gap_label F g, active = Some (gap_key g)))) gs)"
  by (cases "gs = []") (simp_all add: gap_list comp_def)

lemma picker_queries [simp]: "pressed (PeriodPickerView p) = [period_label p]"
  "picks (PeriodPickerView p) = map (\<lambda>q. (period_label q, PickPeriod q)) PERIODS"
  "with_role k (PeriodPickerView p) = []" "gap_labels (PeriodPickerView p) = []" "table_rows (PeriodPickerView p) = []"
  "cards (PeriodPickerView p) = []"
  by (cases p; simp add: queries PeriodPickerView_def PeriodPicker_def PERIODS_def bool_text_def js_inj)+

lemma cards_queries [simp]: "pressed (SummaryCards F c p) = []" "picks (SummaryCards F c p) = []" "with_role k (SummaryCards F c p) = []"
  "gap_labels (SummaryCards F c p) = []" "table_rows (SummaryCards F c p) = []"
  "cards (SummaryCards F c p) = [[js ''Energia observada'', history_energy (two F) (sum_energy c)],
     [js ''Pico observado'', history_power (two F) (sum_peak c)], [js ''Tempo produtivo'', formatDuration (sum_productive c)],
     [js ''Cobertura'', coverage_text (one F) (sum_coverage c)]]"
  by (simp_all add: queries SummaryCards_def summary_pair_def only_if_def split_beta)

lemma table_queries [simp]: "pressed (HistoryTable F b ps) = []" "picks (HistoryTable F b ps) = []" "with_role k (HistoryTable F b ps) = []"
  "gap_labels (HistoryTable F b ps) = []" "cards (HistoryTable F b ps) = []"
  "table_rows (HistoryTable F b ps) = (if b then map (\<lambda>p. [table_clock F (point_at p), history_power (two F) (powerW (toChartPoint p))]) ps else [])"
proof -
  show "pressed (HistoryTable F b ps) = []" "picks (HistoryTable F b ps) = []" "with_role k (HistoryTable F b ps) = []"
    "gap_labels (HistoryTable F b ps) = []" "cards (HistoryTable F b ps) = []"
    by (cases b; simp add: queries HistoryTable_def AccessibleHistoryTable_def comp_def)+
  have "concat (map (\<lambda>p. [g p]) ps) = map g ps" for g :: "history_point \<Rightarrow> jsstring list" by (induction ps) simp_all
  then show "table_rows (HistoryTable F b ps) = (if b then map (\<lambda>p. [table_clock F (point_at p), history_power (two F) (powerW (toChartPoint p))]) ps else [])"
    by (cases b) (simp_all add: queries HistoryTable_def AccessibleHistoryTable_def comp_def)
qed

lemma chart_queries [simp]: "pressed (ProductionChart F dparse v active) = []" "picks (ProductionChart F dparse v active) = []"
  "with_role ''status'' (ProductionChart F dparse v active) = []"
  "with_role ''tooltip'' (ProductionChart F dparse v active) =
     map (\<lambda>g. js ''Sem dados neste intervalo'' @ gap_label F g) (explained (gaps v) active)"
  "gap_labels (ProductionChart F dparse v active) = map (gap_label F) (gaps v)"
  "table_rows (ProductionChart F dparse v active) = []" "cards (ProductionChart F dparse v active) = []"
proof -
  show "pressed (ProductionChart F dparse v active) = []" "picks (ProductionChart F dparse v active) = []"
    "with_role ''status'' (ProductionChart F dparse v active) = []" "table_rows (ProductionChart F dparse v active) = []"
    "cards (ProductionChart F dparse v active) = []"
    by (simp_all add: queries ProductionChart_def gaps_collect gap_item_def only_if_def js_inj)
  have "concat (map (\<lambda>g. only_if (active = Some (gap_key g)) [h g]) gs) = map h (explained gs active)" for h :: "jsstring \<times> jsstring \<Rightarrow> jsstring" and gs
    by (induction gs) (simp_all add: explained_def only_if_def)
  moreover have "collect (\<lambda>e. if attr_of Role e = Some (js ''tooltip'') then [text_content e] else []) (gap_item dparse g (k, l, b))
      = only_if b [js ''Sem dados neste intervalo'' @ l]" for g k l b
    by (cases b) (simp_all add: gap_item_def)
  ultimately show "with_role ''tooltip'' (ProductionChart F dparse v active) =
     map (\<lambda>g. js ''Sem dados neste intervalo'' @ gap_label F g) (explained (gaps v) active)"
    by (simp add: queries ProductionChart_def gaps_collect only_if_def)
  have "gap_labels (gap_item dparse g (k, l, b)) = [l]" for g k l b
    by (cases b) (simp_all add: queries gap_item_def)
  moreover have "concat (map (\<lambda>g. [h g]) gs) = map h gs" for h :: "jsstring \<times> jsstring \<Rightarrow> jsstring" and gs by (induction gs) simp_all
  ultimately show "gap_labels (ProductionChart F dparse v active) = map (gap_label F) (gaps v)"
    by (simp add: gap_labels_def ProductionChart_def gaps_collect only_if_def)
qed

section \<open>The page shows what the server gave\<close>

lemma queries_element:
  "pressed (El t as hs ns) = (if map_of as Pressed = Some (js ''true'') then [concat (map text_content ns)] else []) @ concat (map pressed ns)"
  "picks (El t as hs ns) = (case (map_of as Pressed, map_of hs OnClick) of (Some b, Some h) \<Rightarrow> [(concat (map text_content ns), h [])] | _ \<Rightarrow> [])
     @ concat (map picks ns)"
  "with_role k (El t as hs ns) = (if map_of as Role = Some (js k) then [concat (map text_content ns)] else []) @ concat (map (with_role k) ns)"
  "gap_labels (El t as hs ns) = (if map_of hs OnFocus \<noteq> None then [concat (map text_content ns)] else []) @ concat (map gap_labels ns)"
  "table_rows (El t as hs ns) = cells_of (El t as hs ns) @ concat (map table_rows ns)"
  "cards (El t as hs ns) = card_cell (El t as hs ns) @ concat (map cards ns)" "cards (Txt s) = []"
  "pressed (Txt s) = []" "picks (Txt s) = []" "with_role k (Txt s) = []" "gap_labels (Txt s) = []" "table_rows (Txt s) = []"
  by (simp_all add: queries split: option.splits)

lemma glyph_queries: "pressed glyph = []" "picks glyph = []" "with_role k glyph = []" "gap_labels glyph = []" "table_rows glyph = []"
  "cards glyph = []"
  by (simp_all add: queries)

lemma readings_shown:
  assumes "readings_page F dparse ui r v prev points = Some page" "distinct (map gap_key (gaps v))"
  shows "page_ok page" "pressed page = [period_label (range_period r)]"
    "picks page = map (\<lambda>q. (period_label q, PickPeriod q)) PERIODS"
    "with_role ''status'' page = (case coverage_warning v of None \<Rightarrow> []
       | Some c \<Rightarrow> [js ''Cobertura de '' @ formatCoverage (one F) c @ jsx '', abaixo de 95%. Totais e compara&ccedil;&atilde;o podem estar incompletos.''])"
    "gap_labels page = map (gap_label F) (gaps v)"
    "with_role ''tooltip'' page = map (\<lambda>g. js ''Sem dados neste intervalo'' @ gap_label F g) (explained (gaps v) (activeGap ui))"
    "table_rows page = (if table_open ui
       then map (\<lambda>p. [table_clock F (point_at p), history_power (two F) (powerW (toChartPoint p))]) points else [])"
    "cards page = [[js ''Energia observada'', history_energy (two F) (sum_energy (summary v))],
       [js ''Pico observado'', history_power (two F) (sum_peak (summary v))],
       [js ''Tempo produtivo'', formatDuration (sum_productive (summary v))],
       [js ''Cobertura'', coverage_text (one F) (sum_coverage (summary v))]]"
proof -
  obtain title href where page: "rangeTitle dparse (title_day F) r = Some title" "exportPath r = Some href"
    using assms(1) by (auto simp: readings_page_def split: option.splits)
  note shape = assms(1) [unfolded readings_page_def page, simplified, symmetric]
  have "distinct (map (tooltip_id dparse) (explained (gaps v) (activeGap ui)))"
    using one_explained [OF assms(2), of "activeGap ui"] by (cases "explained (gaps v) (activeGap ui)") auto
  then show "page_ok page"
    by (cases "coverage_warning v") (simp_all add: shape page_ok_def listed_simps ProductionChart_def only_if_def)
  show "pressed page = [period_label (range_period r)]" "picks page = map (\<lambda>q. (period_label q, PickPeriod q)) PERIODS"
    "with_role ''status'' page = (case coverage_warning v of None \<Rightarrow> []
       | Some c \<Rightarrow> [js ''Cobertura de '' @ formatCoverage (one F) c @ jsx '', abaixo de 95%. Totais e compara&ccedil;&atilde;o podem estar incompletos.''])"
    "gap_labels page = map (gap_label F) (gaps v)"
    "with_role ''tooltip'' page = map (\<lambda>g. js ''Sem dados neste intervalo'' @ gap_label F g) (explained (gaps v) (activeGap ui))"
    "table_rows page = (if table_open ui
       then map (\<lambda>p. [table_clock F (point_at p), history_power (two F) (powerW (toChartPoint p))]) points else [])"
    "cards page = [[js ''Energia observada'', history_energy (two F) (sum_energy (summary v))],
       [js ''Pico observado'', history_power (two F) (sum_peak (summary v))],
       [js ''Tempo produtivo'', formatDuration (sum_productive (summary v))],
       [js ''Cobertura'', coverage_text (one F) (sum_coverage (summary v))]]"
    by (cases "coverage_warning v"; simp add: shape queries_element glyph_queries js_inj PERIODS_def)+
qed

text \<open>
  C32. The history page shows what the server gave: for readings whose dates can be read and are
  written in one format (\<open>dates_ok\<close>) it is well formed; its buttons offer every period and the one that
  is shown is pressed; and when there are readings, its cards give the energy, the peak, the
  productive time and the coverage of the view, it warns of the coverage exactly when it is known and
  below 95%, names every gap of the view in order and explains the one that is pointed at and no
  other, and its table has, while it is open, a row with the time and the power of every reading, in
  the order of the server.
\<close>

theorem history_page_shows:
  assumes "dates_ok dparse n points"
    and "HistoryContentView F dparse off ui r (Loaded points) before = Some page"
  shows "page_ok page \<and> (case HistoryContent dparse off r (Loaded points) before of
      Some (Readings w) \<Rightarrow> (\<exists>v. view_of dparse off r False (Loaded points) = Some (Some v)
        \<and> picks page = map (\<lambda>q. (period_label q, PickPeriod q)) PERIODS \<and> pressed page = [period_label (range_period r)]
        \<and> with_role ''status'' page = (case sum_coverage (summary v) of None \<Rightarrow> [] | Some c \<Rightarrow> if jlt c (Fin 95)
            then [js ''Cobertura de '' @ formatCoverage (one F) c @ jsx '', abaixo de 95%. Totais e compara&ccedil;&atilde;o podem estar incompletos.''] else [])
        \<and> cards page = [[js ''Energia observada'', history_energy (two F) (sum_energy (summary v))],
            [js ''Pico observado'', history_power (two F) (sum_peak (summary v))],
            [js ''Tempo produtivo'', formatDuration (sum_productive (summary v))],
            [js ''Cobertura'', coverage_text (one F) (sum_coverage (summary v))]]
        \<and> gap_labels page = map (gap_label F) (gaps v)
        \<and> length (with_role ''tooltip'' page) \<le> 1
        \<and> with_role ''tooltip'' page = map (\<lambda>g. js ''Sem dados neste intervalo'' @ gap_label F g) (explained (gaps v) (activeGap ui))
        \<and> table_rows page = (if table_open ui
            then map (\<lambda>p. [table_clock F (point_at p), history_power (two F) (powerW (toChartPoint p))]) points else []))
    | Some NoReadings \<Rightarrow> picks page = map (\<lambda>q. (period_label q, PickPeriod q)) PERIODS \<and> pressed page = [period_label (range_period r)]
    | _ \<Rightarrow> picks page = [])"
proof -
  obtain kind where kind: "HistoryContent dparse off r (Loaded points) before = Some kind"
    using assms(2) by (auto simp: HistoryContentView_def split: option.splits)
  show ?thesis
  proof (cases kind)
    case (Readings w)
    obtain v prev where v: "view_of dparse off r False (Loaded points) = Some (Some v)" "view_of dparse off r True before = Some prev"
      "readings_page F dparse ui r v prev points = Some page"
      using assms(2) kind Readings by (auto simp: HistoryContentView_def split: option.splits)
    then obtain window where build: "buildHistoryView dparse off points (range_resolution r) window = Some v" by (auto simp: view_of_def)
    have "gap_key = (\<lambda>(a, b). a @ 45 # b)" by (auto simp: gap_key_def)
    with gap_keys_distinct [OF build assms(1)] have keys: "distinct (map gap_key (gaps v))" by simp
    have "coverage_warning v = (case sum_coverage (summary v) of None \<Rightarrow> None | Some c \<Rightarrow> if jlt c (Fin 95) then Some c else None)"
      using build by (auto simp: coverage_warning_def buildHistoryView_def Let_def split: option.splits)
    with readings_shown [OF v(3) keys] one_explained [OF keys, of "activeGap ui"] v(1) kind Readings show ?thesis
      by (auto split: option.splits)
  qed (use assms(2) kind in \<open>auto simp: HistoryContentView_def history_state_def retry_button_def page_ok_def listed_simps queries_element glyph_queries\<close>)
qed

section \<open>A day with one gap\<close>

definition sample_formats :: history_formats where
  "sample_formats = \<lparr>two = num_text, one = num_text, title_day = iso_string, gap_clock = id, table_clock = id\<rparr>"

definition sample_points :: "history_point list" where
  "sample_points = [Minute (sample_minute 0 500), Minute (sample_minute 3600000 250)]"

definition sample_range :: history_range where
  "sample_range = \<lparr>range_from = iso_string 0, range_period = DayPeriod, previousFrom = iso_string (- 86400000),
     previousTo = iso_string 0, range_resolution = Minutely, range_to = iso_string 86400000\<rparr>"

lemma sample_gap: "adaptive_gap iso_parse Minutely (sample_minute 0 500) (sample_minute 3600000 250)"
proof -
  have "jsub (Fin (of_int 3600000)) (Fin (of_int 0)) = Fin (of_int (3600000 - 0))" by (rule jsub_int) (simp_all add: exact_int_def)
  then show ?thesis by (simp add: adaptive_gap_def elapsed_def date_num_def sample_minute_def sample_iso num_small cloudSequence_def jlt_def)
qed

lemma sample_readings:
  "\<exists>v. view_of iso_parse sao_paulo sample_range False (Loaded sample_points) = Some (Some v)
    \<and> gaps v = [(iso_string 0, iso_string 3600000)] \<and> chartPoints v \<noteq> [] \<and> coverage_warning v = None"
proof -
  have "order_points iso_parse sample_points = sample_points"
    by (simp add: order_points_def sample_points_def sample_minute_def sample_iso)
  then show ?thesis using sample_gap
    by (simp add: view_of_def buildHistoryView_def sample_range_def sample_points_def toAdaptiveChartSegments_def push_last_def
      coverage_warning_def summarizeMinute_def split_beta) (simp add: sample_minute_def)
qed

lemma history_page_shows_witness:
  "\<exists>page. HistoryContentView sample_formats iso_parse sao_paulo \<lparr>activeGap = None, table_open = True\<rparr> sample_range
      (Loaded sample_points) (Loaded []) = Some page \<and> page_ok page \<and> length (gap_labels page) = 1 \<and> length (table_rows page) = 2"
proof -
  obtain v where v: "view_of iso_parse sao_paulo sample_range False (Loaded sample_points) = Some (Some v)"
    "gaps v = [(iso_string 0, iso_string 3600000)]" "chartPoints v \<noteq> []" "coverage_warning v = None" using sample_readings by blast
  obtain u where u: "view_of iso_parse sao_paulo sample_range True (Loaded []) = Some (Some u)"
    by (simp add: view_of_def buildHistoryView_def order_points_def Let_def)
  have kind: "HistoryContent iso_parse sao_paulo sample_range (Loaded sample_points) (Loaded []) = Some (Readings None)"
    by (simp add: HistoryContent_def v u)
  have fields: "range_from sample_range = iso_string 0" "range_to sample_range = iso_string 86400000" by (simp_all add: sample_range_def)
  have dates: "dates_ok iso_parse 2 sample_points" by code_simp
  have "encode_uri (iso_string 0) \<noteq> None" "encode_uri (iso_string 86400000) \<noteq> None" by code_simp+
  then obtain page where page: "HistoryContentView sample_formats iso_parse sao_paulo \<lparr>activeGap = None, table_open = True\<rparr> sample_range
      (Loaded sample_points) (Loaded []) = Some page"
    by (auto simp: HistoryContentView_def kind v u readings_page_def rangeTitle_def exportPath_def fields sample_iso)
  have "length sample_points = 2" by (simp add: sample_points_def)
  with history_page_shows [OF dates page] show ?thesis by (auto simp: page kind v)
qed

end
