(* ===== verification/Insights.thy ===== *)
theory Insights
  imports HistoryRange ApiClient
begin

text \<open>
  The insights page, \<open>web/src/features/insights\<close>: the day it asks for (\<open>previousLocalDay\<close>), what it
  shows for each state of its queries, and what the card, the trends and the alerts conclude.

  The main lemma, \<open>previousLocalDay_date\<close>, gives the day as a date of the proleptic calendar.

  Parameters: \<open>off\<close>, the zone, as in \<open>HistoryRange\<close>; \<open>show\<close>, the number format of \<open>Intl\<close>.
\<close>

section \<open>The day of the analysis\<close>

text \<open>\<open>Date.parse\<close> of a date and time without milliseconds.\<close>

definition iso_parse_seconds :: "jsstring \<Rightarrow> int option" where
  "iso_parse_seconds s = (if length s = 20 \<and> drop 19 s = js ''Z'' then iso_parse (take 19 s @ js ''.000Z'') else None)"

text \<open>The date part of \<open>toISOString\<close>.\<close>

definition iso_date :: "int \<Rightarrow> jsstring" where
  "iso_date t = take 10 (iso_string t)"

text \<open>\<open>setUTCDate(getUTCDate() - 1)\<close>.\<close>

definition day_before :: "int \<Rightarrow> int" where
  "day_before t = (let p = parts_of t in make_day (year p) (month p - 1) (day p - 1) * day_ms + t mod day_ms)"

text \<open>
  The parts of the formatter are the year as it is and the month and day with two digits; \<open>None\<close>
  when the text is no date, where \<open>toISOString\<close> throws.
\<close>

definition previousLocalDay :: "(int \<Rightarrow> int) \<Rightarrow> int \<Rightarrow> jsstring option" where
  "previousLocalDay off now = (let p = calendarParts off now in
     map_option (\<lambda>noon. iso_date (day_before noon))
       (iso_parse_seconds (show_nat (nat (year p)) @ js ''-'' @ padded 2 (month p) @ js ''-'' @ padded 2 (day p) @ js ''T12:00:00Z'')))"

section \<open>The card\<close>

datatype trend_direction = TrendUp | TrendDown | TrendStable | TrendInsufficient

record evidence =
  ev_code :: jsstring
  ev_label :: jsstring
  ev_unit :: jsstring
  ev_value :: jsnum

record trend =
  coveragePct :: jsnum
  current_value :: jsnum
  deltaPct :: jsnum
  direction :: trend_direction
  previous_value :: jsnum
  windowDays :: jsnum

record insights =
  actualWh :: jsnum
  confidence :: jsstring
  expectedWh :: jsnum
  evidences :: "evidence list"
  minimumDays :: jsnum
  qualifyingDays :: jsnum
  qualifying :: bool
  ratio :: jsnum
  analysis_day :: jsstring
  peak_trend :: trend
  minutes_trend :: trend
  value_label :: jsstring
  value_currency :: jsstring
  value_minor :: jsnum

datatype conclusion = NotEnoughTelemetry | NotEnoughHistory | BelowReference | WithinRange

definition insufficient :: "insights \<Rightarrow> bool" where
  "insufficient i \<longleftrightarrow> jlt (qualifyingDays i) (minimumDays i)"

definition conclusion_of :: "insights \<Rightarrow> conclusion" where
  "conclusion_of i = (if \<not> qualifying i then NotEnoughTelemetry
     else if insufficient i then NotEnoughHistory
     else if jlt (ratio i) (fl (65 / 100)) then BelowReference else WithinRange)"

definition health_label :: "insights \<Rightarrow> jsstring" where
  "health_label i = (if \<not> qualifying i then js ''Dia n'' @ [0xE3] @ js ''o qualific'' @ [0xE1] @ js ''vel''
     else if insufficient i then js ''Aprendendo a refer'' @ [0xEA] @ js ''ncia''
     else js ''An'' @ [0xE1] @ js ''lise di'' @ [0xE1] @ js ''ria'')"

definition confidenceLabel :: "(jsstring \<times> jsstring) list" where
  "confidenceLabel = [(js ''low'', js ''Confian'' @ [0xE7] @ js ''a baixa''),
     (js ''medium'', js ''Confian'' @ [0xE7] @ js ''a m'' @ [0xE9] @ js ''dia''),
     (js ''high'', js ''Confian'' @ [0xE7] @ js ''a alta'')]"

text \<open>The table of units, and the unit itself when its entry is missing or empty.\<close>

definition unit_labels :: "(jsstring \<times> jsstring) list" where
  "unit_labels = [(js ''days'', js ''dias''), (js ''percent'', js ''%''), (js ''hours'', js ''horas''), (js ''ratio'', [])]"

definition formatEvidence :: "(jsnum \<Rightarrow> jsstring) \<Rightarrow> jsnum \<Rightarrow> jsstring \<Rightarrow> jsstring" where
  "formatEvidence show value unit = show value @ (let label = or_else (map_of unit_labels unit) [] in
     if label \<noteq> [] then 32 # label else if unit \<noteq> [] then 32 # unit else [])"

section \<open>Trends and alerts\<close>

definition direction_label :: "trend_direction \<Rightarrow> jsstring" where
  "direction_label d = (case d of TrendUp \<Rightarrow> js ''acima'' | TrendDown \<Rightarrow> js ''abaixo''
     | _ \<Rightarrow> js ''est'' @ [0xE1] @ js ''vel'')"

text \<open>The line in bold, \<open>None\<close> when the data are insufficient.\<close>

definition Trend :: "(jsnum \<Rightarrow> jsstring) \<Rightarrow> trend \<Rightarrow> jsstring option" where
  "Trend show t = (if direction t = TrendInsufficient then None
     else Some (show (jabs (deltaPct t)) @ js ''% '' @ direction_label (direction t)))"

record alert =
  kind :: jsstring
  openedAt :: jsstring
  resolvedAt :: "jsstring option"
  severity :: jsstring
  alert_evidence :: "evidence list"
  alert_title :: jsstring
  alert_summary :: jsstring

text \<open>For each alert its key, the badge, the date it shows and its evidence; \<open>None\<close> for an empty list.\<close>

definition AlertList :: "(jsnum \<Rightarrow> jsstring) \<Rightarrow> bool \<Rightarrow> alert list
    \<Rightarrow> (jsstring \<times> jsstring \<times> jsstring \<times> jsstring list) list option" where
  "AlertList show is_open alerts = (if alerts = [] then None
     else Some (map (\<lambda>a. (kind a @ 45 # openedAt a, if is_open then js ''Ativo'' else js ''Resolvido'',
         or_else (resolvedAt a) (openedAt a),
         map (\<lambda>e. ev_label e @ js '': '' @ show (ev_value e) @ 32 # ev_unit e) (alert_evidence a))) alerts))"

section \<open>The page\<close>

text \<open>
  A query of React Query: the last data, which a failed refetch leaves in place, and the error of
  the last fetch. A query that is not enabled stays without either.
\<close>

record 'a query =
  q_data :: "'a option"
  q_error :: "failure option"

definition is_pending :: "'a query \<Rightarrow> bool" where
  "is_pending q \<longleftrightarrow> q_data q = None \<and> q_error q = None"

definition is_error :: "'a query \<Rightarrow> bool" where
  "is_error q \<longleftrightarrow> q_error q \<noteq> None"

datatype insights_view = LoadingSettings | SettingsFailed | LoadingInsights | NoAnalysisYet | AnalysisUnavailable
  | Analysis insights "alert list" "alert list"

definition not_found :: "failure option \<Rightarrow> bool" where
  "not_found e = (case e of
       Some (ApiFailure a) \<Rightarrow> e_status a = 404 \<and> e_code a = JStr (js ''insights_not_found'')
     | _ \<Rightarrow> False)"

text \<open>The day of the query: the empty string, which disables it, until the settings are there.\<close>

definition insights_day :: "(int \<Rightarrow> int) \<Rightarrow> int \<Rightarrow> jsstring query \<Rightarrow> jsstring option" where
  "insights_day off now settings = (case q_data settings of
       Some zone \<Rightarrow> if zone \<noteq> [] then previousLocalDay off now else Some []
     | None \<Rightarrow> Some [])"

definition insights_enabled :: "jsstring \<Rightarrow> bool" where
  "insights_enabled d \<longleftrightarrow> 0 < length d"

definition InsightsPage ::
  "jsstring query \<Rightarrow> insights query \<Rightarrow> alert list query \<Rightarrow> alert list query \<Rightarrow> insights_view" where
  "InsightsPage settings insight active resolved =
     (if is_pending settings then LoadingSettings
      else if is_error settings then SettingsFailed
      else if is_pending insight \<or> is_pending active \<or> is_pending resolved then LoadingInsights
      else if not_found (q_error insight) then NoAnalysisYet
      else (case (q_data insight, q_data active, q_data resolved) of
          (Some i, Some a, Some r) \<Rightarrow> Analysis i a r
        | _ \<Rightarrow> AnalysisUnavailable))"

section \<open>The day is the day before\<close>

lemma padded_4: "1000 \<le> y \<Longrightarrow> y \<le> 9999 \<Longrightarrow> padded 4 y = show_nat (nat y)"
proof -
  assume y: "1000 \<le> y" "y \<le> 9999"
  have "length (show_nat (nat y)) = 4" using y by (intro length_show_nat_eq) auto
  then show ?thesis by (simp add: padded_def pad_start_def)
qed

text \<open>Noon of a day.\<close>

definition noon :: "int \<Rightarrow> int" where
  "noon d = d * day_ms + 43200000"

lemma noon_day [simp]: "day_of (noon d) = d"
  by (simp add: noon_def day_of_def)

lemma noon_clock: "noon d mod day_ms = 43200000" "noon d mod 1000 = 0"
proof -
  show "noon d mod day_ms = 43200000" by (simp add: noon_def)
  have "noon d = (d * 86400 + 43200) * 1000" by (simp add: noon_def)
  then show "noon d mod 1000 = 0" by (simp only: mod_mult_self2_is_0)
qed

lemma noon_parts:
  "year (parts_of (noon d)) = year (parts_of (d * day_ms))" "month (parts_of (noon d)) = month (parts_of (d * day_ms))"
  "day (parts_of (noon d)) = day (parts_of (d * day_ms))"
  "hour (parts_of (noon d)) = 12" "minute (parts_of (noon d)) = 0" "second (parts_of (noon d)) = 0"
  by (simp_all add: parts_of_def Let_def noon_clock)

lemma date_of_day:
  assumes "day_of s = day_of t" "iso_range s"
  shows "iso_date s = iso_date t"
proof -
  define p q where "p = parts_of s" and "q = parts_of t"
  have same: "year p = year q" "month p = month q" "day p = day q"
    using assms(1) by (simp_all add: p_def q_def parts_of_def Let_def)
  have t: "iso_range t" using assms(2) same(1) by (simp add: iso_range_def p_def q_def)
  have v: "valid_parts q" by (simp add: q_def valid_parts_of)
  have "day q \<le> 31" using v days_in_month_31 [of "month q - 1" "year q"] by (simp add: valid_parts_def)
  with v t have len: "length (padded 4 (year q)) = 4" "length (padded 2 (month q)) = 2" "length (padded 2 (day q)) = 2"
    by (simp_all add: valid_parts_def iso_range_def q_def length_padded)
  have yr: "iso_year (year q) = padded 4 (year q)" using t by (simp add: iso_range_def q_def iso_year_def)
  have "iso_date u = padded 4 (year q) @ js ''-'' @ padded 2 (month q) @ js ''-'' @ padded 2 (day q)"
    if "year (parts_of u) = year q" "month (parts_of u) = month q" "day (parts_of u) = day q" for u
    using len by (simp add: iso_date_def iso_string_def Let_def that yr del: year_parts_of)
  from this [of s] this [of t] same show ?thesis by (simp add: p_def q_def)
qed

lemma clock_texts: "padded 2 12 = js ''12''" "padded 2 0 = js ''00''" "padded 3 0 = js ''000''"
  by code_simp+

lemma parse_noon:
  assumes "1000 \<le> year_from_day d" "year_from_day d \<le> 9999"
  defines "p \<equiv> parts_of (d * day_ms)"
  shows "iso_parse_seconds (show_nat (nat (year p)) @ js ''-'' @ padded 2 (month p) @ js ''-'' @ padded 2 (day p) @ js ''T12:00:00Z'')
    = Some (noon d)"
proof -
  define head where "head = padded 4 (year p) @ js ''-'' @ padded 2 (month p) @ js ''-'' @ padded 2 (day p) @ js ''T12:00:00''"
  have y: "year p = year_from_day d" by (simp add: p_def)
  have range: "iso_range (noon d)" using assms(1,2) by (simp add: iso_range_def noon_parts)
  have written: "iso_string (noon d) = head @ js ''.000Z''"
    using assms(1,2) y
    by (simp add: iso_string_def Let_def noon_parts noon_clock clock_texts iso_year_def head_def p_def) (simp add: js_def)
  have len: "length head = 19" using iso_string_layout(1) [OF range] written by simp
  have "show_nat (nat (year p)) @ js ''-'' @ padded 2 (month p) @ js ''-'' @ padded 2 (day p) @ js ''T12:00:00Z'' = head @ js ''Z''"
    using padded_4 [of "year p"] assms(1,2) y by (simp add: head_def) (simp add: js_def)
  then show ?thesis using len iso_parse_string [OF range] written by (simp add: iso_parse_seconds_def)
qed

lemma day_before_noon: "day_before (noon d) = noon (d - 1)"
  using make_day_of_parts [of d "- 1"] by (simp add: day_before_def Let_def noon_parts noon_clock) (simp add: noon_def)

lemma previousLocalDay_date:
  assumes "plain_year off now"
  shows "previousLocalDay off now = Some (iso_date ((local_day off now - 1) * day_ms))"
proof -
  define d where "d = local_day off now"
  have y: "1000 \<le> year_from_day d" "year_from_day d \<le> 9999" using assms by (simp_all add: d_def plain_year_def)
  have parts: "year (calendarParts off now) = year (parts_of (d * day_ms))"
    "month (calendarParts off now) = month (parts_of (d * day_ms))"
    "day (calendarParts off now) = day (parts_of (d * day_ms))"
    by (simp_all add: calendarParts_def d_def local_day_def parts_of_def Let_def)
  have "previousLocalDay off now = Some (iso_date (noon (d - 1)))"
    using parse_noon [OF y] by (simp add: previousLocalDay_def Let_def parts day_before_noon)
  moreover have "iso_range (noon (d - 1))"
    using y year_from_day_near [of d "d - 1"] year_from_day_mono [of "d - 1" d] by (simp add: iso_range_def noon_parts)
  then have "iso_date (noon (d - 1)) = iso_date ((d - 1) * day_ms)" by (rule date_of_day [rotated]) (simp only: noon_day day_of_midnight)
  ultimately show ?thesis by (simp add: d_def)
qed

context time_zone
begin

text \<open>The history page's previous day starts at the first instant of that date.\<close>

lemma previous_day_start:
  assumes "plain_year off now" "clear_day off (local_day off now - 1)"
  shows "\<exists>a. previousFrom (getPeriodRange DayPeriod now off) = iso_string a
    \<and> (\<forall>t. a \<le> t \<longleftrightarrow> local_day off now - 1 \<le> local_day off t)"
proof -
  define d where "d = local_day off now"
  have y: "1000 \<le> year_from_day d" using assms(1) by (simp add: d_def plain_year_def)
  then have "modern ((d - 1) * day_ms)" using year_from_day_near [of d "d - 1"] by (intro modern_midnight) simp
  then have "fit_day off (d - 1)" using assms(2) unfolding fit_day_def d_def by blast
  note midnight_day [OF this]
  moreover have "previousFrom (getPeriodRange DayPeriod now off) = iso_string (midnight (d - 1))"
    using getPeriodRange_days [of DayPeriod now] y by (simp add: d_def first_day_def)
  ultimately show ?thesis unfolding d_def local_day_def by blast
qed

end

text \<open>
  C40. The insights page asks for the day before: the text it sends is the calendar date of the local
  day before today, and the history page's previous day begins at the first instant of that date, so
  the two pages speak of the same day, on days when the clocks change too; unless the change skips or
  repeats the midnight of that date in a way the history page does not follow (\<open>clear_day\<close>).
\<close>

theorem insights_previous_day:
  assumes "time_zone off" "plain_year off now"
  shows "previousLocalDay off now = Some (iso_date ((local_day off now - 1) * day_ms))
    \<and> (clear_day off (local_day off now - 1) \<longrightarrow> (\<exists>a. previousFrom (getPeriodRange DayPeriod now off) = iso_string a
         \<and> (\<forall>t. a \<le> t \<longleftrightarrow> local_day off now - 1 \<le> local_day off t)))"
  using previousLocalDay_date [OF assms(2)] time_zone.previous_day_start [OF assms] by blast

text \<open>The morning after the clocks of New York went forward, 11 March 2024 at 0:30 local time.\<close>

lemma insights_previous_day_witness:
  "previousLocalDay new_york 1710131400000 = Some (js ''2024-03-10'')
    \<and> (\<exists>a. previousFrom (getPeriodRange DayPeriod 1710131400000 new_york) = iso_string a \<and> (\<forall>t. a \<le> t \<longleftrightarrow> 19792 \<le> local_day new_york t))"
proof -
  have y: "plain_year new_york 1710131400000" by code_simp
  have "iso_date ((local_day new_york 1710131400000 - 1) * day_ms) = js ''2024-03-10''"
    "local_day new_york 1710131400000 - 1 = 19792" by code_simp+
  with insights_previous_day [OF new_york.time_zone_axioms y] new_york_clear show ?thesis by simp
qed

end
