(* ===== verification/InsightsView.thy ===== *)
theory InsightsView
  imports Insights Markup
begin

text \<open>
  The insights page as markup, \<open>web/src/features/insights\<close>: \<open>InsightsPage.tsx\<close> with its trends,
  \<open>InsightCard.tsx\<close> and \<open>AlertList.tsx\<close>, over the states of the queries (\<open>Insights\<close>).

  What the theory shows (\<open>insights_page_shows\<close>): the page is well formed in every state; it speaks of a
  production below the reference only for a day that qualifies, with enough history and a ratio below
  the limit; the alerts it lists are those it was given, each once and with the badge of its list; and the
  note on the model is there exactly while its button refers to it.

  Parameters: the formats of \<open>Intl\<close> (\<open>insight_formats\<close>): a number with at most so many fraction digits,
  an amount of a currency, the date of a day, and an instant as a date of a zone.
\<close>

section \<open>The card\<close>

record insight_formats =
  at_most :: "nat \<Rightarrow> jsnum \<Rightarrow> jsstring"
  money :: "jsstring \<Rightarrow> jsnum \<Rightarrow> jsstring"
  long_date :: "jsstring \<Rightarrow> jsstring"
  medium_date :: "jsstring \<Rightarrow> jsstring \<Rightarrow> jsstring"

datatype insights_event = RefetchSettings | RefetchInsight | RefetchAll | ShowModelNote | HideModelNote

definition mark :: "'e node" where
  "mark = El Icon [(Hidden, js ''true'')] [] []"

fun conclusion_text :: "conclusion \<Rightarrow> jsstring" where
  "conclusion_text NotEnoughTelemetry = js ''Telemetria insuficiente para comparar''"
| "conclusion_text NotEnoughHistory = jsx ''Hist&oacute;rico ainda insuficiente''"
| "conclusion_text BelowReference = jsx ''Produ&ccedil;&atilde;o abaixo da refer&ecirc;ncia aprendida''"
| "conclusion_text WithinRange = jsx ''Produ&ccedil;&atilde;o dentro da faixa observada''"

definition kilowatt_hours :: "insight_formats \<Rightarrow> jsnum \<Rightarrow> jsstring" where
  "kilowatt_hours F wh = at_most F 2 (jdiv wh (Fin 1000)) @ js '' kWh''"

definition model_note :: "bool \<Rightarrow> insights_event node list" where
  "model_note note = only_if note [El Paragraph [(Id, js ''insight-model-note''), (Role, js ''tooltip'')] []
     [Txt (jsx ''Refer&ecirc;ncia combina hist&oacute;rico do sistema e radia&ccedil;&atilde;o modelada. N&atilde;o substitui medi&ccedil;&atilde;o no painel nem confirma falha isolada.'')]]"

definition note_button :: "bool \<Rightarrow> insights_event node" where
  "note_button note = El Button (only_if note [(DescribedBy, js ''insight-model-note'')]
       @ [(AriaLabel, jsx ''Como a refer&ecirc;ncia estimada usa radia&ccedil;&atilde;o solar''), (Type, js ''button'')])
     [(OnBlur, \<lambda>_. HideModelNote), (OnFocus, \<lambda>_. ShowModelNote), (OnMouseEnter, \<lambda>_. ShowModelNote), (OnMouseLeave, \<lambda>_. HideModelNote)]
     [mark]"

definition evidence_part :: "insight_formats \<Rightarrow> evidence list \<Rightarrow> 'e node" where
  "evidence_part F es = El Div [] [] [El Heading [] [] [Txt (jsx ''Evid&ecirc;ncias da an&aacute;lise'')],
     if es \<noteq> [] then El UnorderedList [] [] (map (\<lambda>e. El Item [] []
         [El Span [] [] [Txt (ev_label e)], El Strong [] [] [Txt (formatEvidence (at_most F 2) (ev_value e) (ev_unit e))]]) es)
     else El Paragraph [] [] [Txt (jsx ''Nenhuma evid&ecirc;ncia adicional foi registrada para este dia.'')]]"

definition InsightCard :: "insight_formats \<Rightarrow> bool \<Rightarrow> insights \<Rightarrow> insights_event node" where
  "InsightCard F note i = El Section [(LabelledBy, js ''insight-conclusion'')] []
     ([El Div [] [] [mark, El Span [] [] [Txt (health_label i)]],
       El Heading [(Id, js ''insight-conclusion'')] [] [Txt (conclusion_text (conclusion_of i))],
       El Span [(ClassName, js ''confidence-pill is-'' @ confidence i)] [] [Txt (or_else (map_of confidenceLabel (confidence i)) [])]]
      @ only_if (\<not> qualifying i) [El Paragraph [] []
          [Txt (jsx ''Este dia n&atilde;o reuniu dados qualific&aacute;veis para uma conclus&atilde;o. A confian&ccedil;a e as evid&ecirc;ncias abaixo explicam a limita&ccedil;&atilde;o da telemetria.'')]]
      @ [El DescriptionList [] []
           [El Div [] [] [El Term [] [] [Txt (js ''Energia medida'')], El Description [] [] [Txt (kilowatt_hours F (actualWh i))]],
            El Div [] [] ([El Term [] [] [Txt (jsx ''Refer&ecirc;ncia estimada ''), note_button note],
              El Description [] [] [Txt (kilowatt_hours F (expectedWh i))]] @ model_note note)],
         evidence_part F (evidences i),
         El Paragraph [] [] [mark, Txt (num_text (qualifyingDays i) @ js '' de '' @ num_text (minimumDays i)
           @ jsx '' dias qualific&aacute;veis na janela m&iacute;nima.'')]])"

section \<open>Trends and alerts\<close>

definition TrendView :: "insight_formats \<Rightarrow> jsstring \<Rightarrow> trend \<Rightarrow> jsstring \<Rightarrow> 'e node" where
  "TrendView F label t unit = El Section [] [] (El Heading [] [] [Txt label] # (case Trend (at_most F 1) t of
       None \<Rightarrow> [El Paragraph [] [] [Txt (jsx ''Dados insuficientes &middot; '' @ num_text (windowDays t) @ jsx '' dias &middot; ''
         @ at_most F 1 (coveragePct t) @ js ''% de cobertura.'')]]
     | Some line \<Rightarrow> [El Strong [] [] [Txt line],
         El Paragraph [] [] [Txt (js ''Atual: '' @ at_most F 1 (current_value t) @ 32 # unit @ jsx '' &middot; anterior: ''
           @ at_most F 1 (previous_value t) @ 32 # unit @ jsx '' &middot; '' @ at_most F 1 (coveragePct t) @ js ''% de cobertura.'')]]))"

definition alert_list_id :: "bool \<Rightarrow> jsstring" where
  "alert_list_id is_open = (if is_open then js ''alerts-open'' else js ''alerts-resolved'')"

definition alert_item :: "insight_formats \<Rightarrow> jsstring \<Rightarrow> alert \<Rightarrow> jsstring \<times> jsstring \<times> jsstring \<times> jsstring list \<Rightarrow> 'e node" where
  "alert_item F zone a = (\<lambda>(key, badge, stamp, lines). El Item [] []
     ([El Div [] [] [El Span [(ClassName, js ''alert-state is-'' @ severity a)] [] [Txt badge],
          El Time [(DateTime, stamp)] [] [Txt (medium_date F zone stamp)]],
        El Heading [] [] [Txt (alert_title a)], El Paragraph [] [] [Txt (alert_summary a)]]
      @ only_if (lines \<noteq> []) [El UnorderedList [] [] (map (\<lambda>l. El Item [] [] [Txt l]) lines)]))"

definition AlertListView :: "insight_formats \<Rightarrow> jsstring \<Rightarrow> bool \<Rightarrow> alert list \<Rightarrow> 'e node" where
  "AlertListView F zone is_open alerts = El Section [(LabelledBy, alert_list_id is_open)] []
     [El Div [] [] [mark, El Div [] []
        [El Paragraph [] [] [Txt (if is_open then js ''Acompanhamento'' else jsx ''Recupera&ccedil;&atilde;o'')],
         El Heading [(Id, alert_list_id is_open)] [] [Txt (if is_open then js ''Alertas ativos'' else jsx ''Recupera&ccedil;&otilde;es recentes'')]]],
      case AlertList (at_most F 2) is_open alerts of
        None \<Rightarrow> El Paragraph [] [] [Txt (if is_open then js ''Nenhum alerta ativo agora.'' else jsx ''Nenhuma recupera&ccedil;&atilde;o recente registrada.'')]
      | Some rows \<Rightarrow> El OrderedList [] [] (map (\<lambda>(a, row). alert_item F zone a row) (zip alerts rows))]"

section \<open>The page\<close>

definition insights_state :: "jsstring \<Rightarrow> jsstring \<Rightarrow> insights_event \<Rightarrow> jsstring \<Rightarrow> insights_event node" where
  "insights_state title why again label = El Section [] []
     [El Heading [] [] [Txt title], El Paragraph [] [] [Txt why], El Button [(Type, js ''button'')] [(OnClick, \<lambda>_. again)] [Txt label]]"

definition insights_busy :: "jsstring \<Rightarrow> insights_event node" where
  "insights_busy why = El Section [(Busy, js ''true'')] [] [El Paragraph [] [] [Txt why]]"

definition Analysis_page :: "insight_formats \<Rightarrow> bool \<Rightarrow> jsstring \<Rightarrow> insights \<Rightarrow> alert list \<Rightarrow> alert list \<Rightarrow> insights_event node" where
  "Analysis_page F note zone i active resolved = El Article [] []
     [El Header [] [] [El Paragraph [] [] [Txt (jsx ''Leitura explic&aacute;vel'')], El Heading [] [] [Txt (js ''O que os seus dados mostram.'')],
        El Paragraph [] [] [Txt (jsx ''An&aacute;lise de '' @ long_date F (analysis_day i) @ js ''.'')]],
      InsightCard F note i,
      El Section [(LabelledBy, js ''trends-title'')] []
        [El Div [] [] [El Paragraph [] [] [Txt (jsx ''Compara&ccedil;&atilde;o recente'')],
           El Heading [(Id, js ''trends-title'')] [] [Txt (jsx ''Tend&ecirc;ncias com contexto.'')]],
         El Div [] [] [TrendView F (jsx ''Pot&ecirc;ncia de pico'') (peak_trend i) (js ''W''),
           TrendView F (js ''Minutos produtivos'') (minutes_trend i) (js ''min'')]],
      El Section [(AriaLabel, js ''Valor estimado'')] []
        [El Span [] [] [Txt (value_label i)], El Strong [] [] [Txt (money F (value_currency i) (jdiv (value_minor i) (Fin 100)))],
         El Paragraph [] [] [Txt (js ''Estimativa baseada somente na energia gerada medida e na tarifa configurada.'')]],
      El Div [] [] [AlertListView F zone True active, AlertListView F zone False resolved]]"

definition InsightsView :: "insight_formats \<Rightarrow> bool \<Rightarrow> jsstring query \<Rightarrow> insights query \<Rightarrow> alert list query \<Rightarrow> alert list query
    \<Rightarrow> insights_event node" where
  "InsightsView F note settings insight active resolved = (case InsightsPage settings insight active resolved of
       LoadingSettings \<Rightarrow> insights_busy (jsx ''Carregando as configura&ccedil;&otilde;es da an&aacute;lise&hellip;'')
     | SettingsFailed \<Rightarrow> insights_state (jsx ''N&atilde;o foi poss&iacute;vel carregar as configura&ccedil;&otilde;es.'')
         (jsx ''O Helio precisa do fuso hor&aacute;rio e da tarifa configurada para preparar esta leitura.'') RefetchSettings (js ''Tentar novamente'')
     | LoadingInsights \<Rightarrow> insights_busy (jsx ''Organizando evid&ecirc;ncias da gera&ccedil;&atilde;o&hellip;'')
     | NoAnalysisYet \<Rightarrow> insights_state (jsx ''Ainda n&atilde;o h&aacute; an&aacute;lise para este dia.'')
         (jsx ''O Helio est&aacute; reunindo hist&oacute;rico di&aacute;rio suficiente para formar uma refer&ecirc;ncia honesta.'') RefetchInsight (js ''Verificar novamente'')
     | AnalysisUnavailable \<Rightarrow> insights_state (jsx ''A an&aacute;lise n&atilde;o est&aacute; dispon&iacute;vel.'')
         (jsx ''A gera&ccedil;&atilde;o ao vivo e o hist&oacute;rico continuam dispon&iacute;veis enquanto o Helio tenta novamente.'') RefetchAll (js ''Tentar novamente'')
     | Analysis i a r \<Rightarrow> Analysis_page F note (or_else (q_data settings) []) i a r)"

text \<open>The note, and what a button asks the queries to fetch again.\<close>

fun model_note_step :: "bool \<Rightarrow> insights_event \<Rightarrow> bool" where
  "model_note_step n ShowModelNote = True"
| "model_note_step n HideModelNote = False"
| "model_note_step n _ = n"

section \<open>The page refers to what it has\<close>

lemma mark_ids [simp]: "ids mark = []" "references mark = []" "inputs_named ls inside mark" "labels_for mark = []"
  by (simp_all add: mark_def listed_simps)

lemma evidence_ids [simp]: "ids (evidence_part F es) = []" "references (evidence_part F es) = []" "inputs_named ls inside (evidence_part F es)"
  by (simp_all add: evidence_part_def listed_simps list.pred_map comp_def list_all_iff)

lemma card_ids [simp]:
  "ids (InsightCard F note i) = js ''insight-conclusion'' # only_if note [js ''insight-model-note'']"
  "references (InsightCard F note i) = js ''insight-conclusion'' # only_if note [js ''insight-model-note'']"
  "inputs_named ls inside (InsightCard F note i)"
  by (simp_all add: InsightCard_def note_button_def model_note_def listed_simps js_tokens only_if_def)

lemma trend_ids [simp]: "ids (TrendView F l t u) = []" "references (TrendView F l t u) = []" "inputs_named ls inside (TrendView F l t u)"
  by (cases "Trend (at_most F 1) t"; simp add: TrendView_def listed_simps)+

lemma item_ids [simp]: "ids (alert_item F zone a row) = []" "references (alert_item F zone a row) = []"
  "inputs_named ls inside (alert_item F zone a row)"
  by (cases row; simp add: alert_item_def listed_simps only_if_def list.pred_map comp_def list_all_iff)+

lemma items_ids [simp]: "concat (map (ids \<circ> (\<lambda>(a, row). alert_item F zone a row)) xs) = []"
  "concat (map (references \<circ> (\<lambda>(a, row). alert_item F zone a row)) xs) = []"
  "list_all (inputs_named ls inside \<circ> (\<lambda>(a, row). alert_item F zone a row)) xs"
  by (induction xs) (simp_all add: split_beta)

lemma list_ids [simp]: "ids (AlertListView F zone b as) = [alert_list_id b]" "references (AlertListView F zone b as) = [alert_list_id b]"
  "inputs_named ls inside (AlertListView F zone b as)"
  by (cases "AlertList (at_most F 2) b as"; cases b;
      simp add: AlertListView_def alert_list_id_def listed_simps js_tokens list.pred_map)+

lemma insights_page_ok: "page_ok (InsightsView F note settings insight active resolved)"
  by (cases "InsightsPage settings insight active resolved"; cases "note")
    (auto simp: InsightsView_def Analysis_page_def insights_busy_def insights_state_def page_ok_def listed_simps js_tokens
      alert_list_id_def js_inj)

section \<open>What the page shows\<close>

text \<open>The badges of the alerts and the dates of the page, in the order of the document.\<close>

fun badges :: "'e node \<Rightarrow> jsstring list" where
  "badges (Txt s) = []"
| "badges (El t as hs ns) = (if starts_with (js ''alert-state '') (or_else (map_of as ClassName) []) then [concat (map text_content ns)] else [])
     @ concat (map badges ns)"

fun dates :: "'e node \<Rightarrow> jsstring list" where
  "dates (Txt s) = []"
| "dates (El t as hs ns) = (case map_of as DateTime of None \<Rightarrow> [] | Some d \<Rightarrow> [d]) @ concat (map dates ns)"

lemma starts_alert: "\<not> starts_with (js ''alert-state '') []" "\<not> starts_with (js ''alert-state '') (js ''confidence-pill is-'' @ s)"
  "starts_with (js ''alert-state '') (js ''alert-state is-'' @ s)"
  by (simp_all add: starts_with_def js_def of_char_def)

lemma parts_alerts [simp]: "badges mark = []" "dates mark = []" "badges (TrendView F l t u) = []" "dates (TrendView F l t u) = []"
  "badges (evidence_part F es) = []" "dates (evidence_part F es) = []" "badges (InsightCard F note i) = []" "dates (InsightCard F note i) = []"
proof -
  show mark: "badges mark = []" "dates mark = []" by (simp_all add: mark_def starts_alert)
  show "badges (TrendView F l t u) = []" "dates (TrendView F l t u) = []"
    by (cases "Trend (at_most F 1) t"; simp add: TrendView_def starts_alert)+
  have ev: "badges (evidence_part F es) = []" "dates (evidence_part F es) = []" for es :: "evidence list"
    by (simp_all add: evidence_part_def starts_alert comp_def)
  show "badges (evidence_part F es) = []" "dates (evidence_part F es) = []" by (rule ev)+
  show "badges (InsightCard F note i) = []" "dates (InsightCard F note i) = []"
    by (simp_all add: InsightCard_def note_button_def model_note_def starts_alert only_if_def mark ev)
qed

lemma item_alerts [simp]: "badges (alert_item F zone a (k, badge, stamp, lines)) = [badge]"
  "dates (alert_item F zone a (k, badge, stamp, lines)) = [stamp]"
  by (simp_all add: alert_item_def starts_alert only_if_def comp_def)

lemma list_alerts [simp]:
  "badges (AlertListView F zone b as) = map (\<lambda>_. if b then js ''Ativo'' else js ''Resolvido'') as"
  "dates (AlertListView F zone b as) = map (\<lambda>a. or_else (resolvedAt a) (openedAt a)) as"
proof -
  have items: "concat (map (f \<circ> (\<lambda>(a, row). alert_item F zone a row)) (zip as (map g as))) = map h as"
    if "\<And>a. f (alert_item F zone a (g a)) = [h a]" for f g and h :: "alert \<Rightarrow> jsstring"
    by (induction as) (simp_all add: that)
  show "badges (AlertListView F zone b as) = map (\<lambda>_. if b then js ''Ativo'' else js ''Resolvido'') as"
    by (cases "as = []") (simp_all add: AlertListView_def AlertList_def starts_alert
      items [of badges _ "\<lambda>_. if b then js ''Ativo'' else js ''Resolvido''"])
  show "dates (AlertListView F zone b as) = map (\<lambda>a. or_else (resolvedAt a) (openedAt a)) as"
    by (cases "as = []") (simp_all add: AlertListView_def AlertList_def starts_alert
      items [of dates _ "\<lambda>a. or_else (resolvedAt a) (openedAt a)"])
qed

lemma below_text: "conclusion_text c = jsx ''Produ&ccedil;&atilde;o abaixo da refer&ecirc;ncia aprendida'' \<longleftrightarrow> c = BelowReference"
proof -
  have "conclusion_text NotEnoughTelemetry \<noteq> conclusion_text BelowReference" "conclusion_text NotEnoughHistory \<noteq> conclusion_text BelowReference"
    "conclusion_text WithinRange \<noteq> conclusion_text BelowReference" by code_simp+
  then show ?thesis by (cases c) simp_all
qed

lemma below_iff: "conclusion_of i = BelowReference \<longleftrightarrow>
    qualifying i \<and> \<not> jlt (qualifyingDays i) (minimumDays i) \<and> jlt (ratio i) (fl (65 / 100))"
  by (simp add: conclusion_of_def insufficient_def)

text \<open>
  C33. The insights page shows what the server found and blames no one without grounds: in every state
  of its queries it is well formed; it has a conclusion and alerts exactly in the analysis, where it
  speaks of a production below the reference exactly for a day that qualifies, with enough days of
  history and a ratio below 0.65; it lists the active alerts and then the resolved ones, each once, with
  the badge of its list and the date of its end if it has one; and the note on the model is on the page
  exactly while it is open.
\<close>

theorem insights_page_shows:
  "let page = InsightsView F note settings insight active resolved; heading = get_by_id (js ''insight-conclusion'') page in
    page_ok page
    \<and> (case InsightsPage settings insight active resolved of
        Analysis i a r \<Rightarrow>
          (map_option text_content heading = Some (jsx ''Produ&ccedil;&atilde;o abaixo da refer&ecirc;ncia aprendida''))
            = (qualifying i \<and> \<not> jlt (qualifyingDays i) (minimumDays i) \<and> jlt (ratio i) (fl (65 / 100)))
          \<and> badges page = replicate (length a) (js ''Ativo'') @ replicate (length r) (js ''Resolvido'')
          \<and> dates page = map (\<lambda>x. or_else (resolvedAt x) (openedAt x)) (a @ r)
          \<and> (get_by_id (js ''insight-model-note'') page \<noteq> None) = note
      | _ \<Rightarrow> heading = None \<and> badges page = [] \<and> dates page = [])"
proof -
  let ?page = "InsightsView F note settings insight active resolved"
  have ok: "page_ok ?page" by (rule insights_page_ok)
  then have once: "distinct (ids ?page)" by (simp add: page_ok_def)
  show ?thesis
  proof (cases "InsightsPage settings insight active resolved")
    case (Analysis i a r)
    have "\<exists>e \<in> set (elements ?page). attr_of Id e = Some (js ''insight-conclusion'') \<and> text_content e = conclusion_text (conclusion_of i)"
      by (simp add: InsightsView_def Analysis Analysis_page_def InsightCard_def bex_elements del: elements.simps)
    then have heading: "map_option text_content (get_by_id (js ''insight-conclusion'') ?page) = Some (conclusion_text (conclusion_of i))"
      using get_by_id_found [OF once] by force
    have "(js ''insight-model-note'' \<in> set (ids ?page)) = note"
      by (simp add: InsightsView_def Analysis Analysis_page_def only_if_def alert_list_id_def js_inj)
    then have shown: "(get_by_id (js ''insight-model-note'') ?page \<noteq> None) = note"
      by (simp add: id_present del: not_None_eq)
    have "badges ?page = replicate (length a) (js ''Ativo'') @ replicate (length r) (js ''Resolvido'')"
      "dates ?page = map (\<lambda>x. or_else (resolvedAt x) (openedAt x)) (a @ r)"
      by (simp_all add: InsightsView_def Analysis Analysis_page_def starts_alert map_replicate_const)
    moreover have "(map_option text_content (get_by_id (js ''insight-conclusion'') ?page) = Some (jsx ''Produ&ccedil;&atilde;o abaixo da refer&ecirc;ncia aprendida''))
        = (qualifying i \<and> \<not> jlt (qualifyingDays i) (minimumDays i) \<and> jlt (ratio i) (fl (65 / 100)))"
      by (simp only: heading option.inject below_text below_iff)
    ultimately show ?thesis using ok shown Analysis by (simp only: Let_def insights_view.case simp_thms)
  qed (use ok in \<open>simp_all add: Let_def InsightsView_def insights_busy_def insights_state_def starts_alert id_absent\<close>)
qed

end
