(* ===== verification/FormsCorrect.thy ===== *)
theory FormsCorrect
  imports Forms
begin

text \<open>
  The properties of the forms: a payload is built exactly from values that pass the four steps and
  is within the bounds of the server, the settings page accepts the same values as the wizard, and
  settings shown in the form and read back are the same settings.
\<close>

section \<open>Values that pass the checks\<close>

definition number_within :: "rat \<Rightarrow> jsnum \<Rightarrow> bool" where
  "number_within b x \<longleftrightarrow> (\<exists>q. x = Fin q \<and> \<bar>q\<bar> \<le> b)"

text \<open>
  The bounds and shapes of the server's settings that the forms check themselves
  (\<open>ValidateSettings\<close> of \<open>src/internal/config/config.go\<close>). The server also wants a private address of the
  logger, the time zone in its own table and the inputs of the inverter among 1 and 2, without
  duplicates: the forms leave the first to the server, have the browser check the second, and offer
  two switches for the third.
\<close>

definition settings_ok :: "settings \<Rightarrow> bool" where
  "settings_ok st \<longleftrightarrow> validIPv4 (s_loggerHost st) \<and> validLoggerSerial (s_loggerSerial st)
     \<and> nat_within 1 65535 (s_loggerPort st) \<and> nat_within 1 247 (s_modbusSlave st)
     \<and> (\<exists>c w. s_panelCount st = Fin (of_nat c) \<and> s_panelWattage st = Fin (of_nat w) \<and> 1 \<le> c \<and> 1 \<le> w \<and> c * w \<le> 12000)
     \<and> s_activeMPPT st \<noteq> [] \<and> number_within 90 (s_latitude st) \<and> number_within 180 (s_longitude st)
     \<and> s_currency st \<in> set HELIO_ISO_4217 \<and> nat_within 0 1000000000 (s_tariffMinorPerKWh st)
     \<and> nat_within 30 3650 (s_retentionDays st)"

lemma validIPv4_trim: "validIPv4 s \<Longrightarrow> trim s = s"
proof (rule trim_no_space)
  assume v: "validIPv4 s"
  have "set s \<subseteq> insert 46 (\<Union> (set ` set (split_on 46 s)))"
  proof
    fix c assume "c \<in> set s"
    then have "c \<in> set (join [46] (split_on 46 s))" by (simp only: join_split_on)
    moreover have "set (join sep ps) \<subseteq> set sep \<union> \<Union> (set ` set ps)" for sep ps
      by (induction sep ps rule: join.induct) auto
    ultimately show "c \<in> insert 46 (\<Union> (set ` set (split_on 46 s)))" by fastforce
  qed
  moreover have "is_digit c" if "p \<in> set (split_on 46 s)" "c \<in> set p" for p c
    using v that by (auto simp: validIPv4_def Let_def list_all_iff ip_part_def all_digits_def)
  ultimately show "\<forall>c \<in> set s. \<not> is_space c"
    by (fastforce simp: is_space_def dest: digit_not_space)
qed

lemma power_product:
  assumes "\<not> power_above count watts" "integer count = Some (Fin (of_nat c))" "integer watts = Some (Fin (of_nat w))"
    "1 \<le> c" "1 \<le> w"
  shows "c * w \<le> 12000"
proof (rule ccontr)
  assume "\<not> c * w \<le> 12000"
  then have "rat_of_int 12001 \<le> of_nat (c * w)" using of_nat_le_iff [of 12001 "c * w", where 'a = rat] by simp
  then have "jle (fl (of_int 12001)) (fl (of_nat (c * w)))" by (rule fl_mono)
  moreover have "fl (of_int 12001) = Fin (of_int 12001)" by (rule fl_int) simp
  ultimately have "jle (Fin 12001) (jmul (Fin (of_nat c)) (Fin (of_nat w)))" by simp
  then have "jlt (Fin 12000) (jmul (Fin (of_nat c)) (Fin (of_nat w)))"
    by (cases "jmul (Fin (of_nat c)) (Fin (of_nat w))") auto
  with assms show False by (simp add: power_above_def)
qed

lemma steps_pass:
  assumes "\<forall>step < 4. validateStep env step v = []"
  shows "trim (username v) \<noteq> [] \<and> 12 \<le> length (code_points (password v)) \<and> utf8_bytes (password v) \<le> 128
      \<and> password v = confirmPassword v"
    and "validIPv4 (loggerHost v) \<and> validLoggerSerial (loggerSerial v)
      \<and> \<not> integer_outside 1 65535 (loggerPort v) \<and> \<not> integer_outside 1 247 (modbusSlave v)"
    and "\<not> integer_below 1 (panelCount v) \<and> \<not> integer_below 1 (panelWattage v)
      \<and> \<not> power_above (panelCount v) (panelWattage v) \<and> activeMPPT v \<noteq> []"
    and "\<not> decimal_outside 90 (latitude v) \<and> \<not> decimal_outside 180 (longitude v) \<and> validTimezone env (timezone v)
      \<and> validCurrency env (currency v) \<and> tariffMinor (tariff v) \<noteq> None \<and> \<not> integer_outside 30 3650 (retentionDays v)"
proof -
  have pass: "validateStep env 0 v = []" "validateStep env 1 v = []" "validateStep env 2 v = []" "validateStep env 3 v = []"
    using assms by simp_all
  show "trim (username v) \<noteq> [] \<and> 12 \<le> length (code_points (password v)) \<and> utf8_bytes (password v) \<le> 128
      \<and> password v = confirmPassword v"
    using pass(1) by (auto simp: validateStep_def gather_Nil)
  show "validIPv4 (loggerHost v) \<and> validLoggerSerial (loggerSerial v)
      \<and> \<not> integer_outside 1 65535 (loggerPort v) \<and> \<not> integer_outside 1 247 (modbusSlave v)"
    using pass(2) by (simp add: validateStep_def gather_Nil)
  show "\<not> integer_below 1 (panelCount v) \<and> \<not> integer_below 1 (panelWattage v)
      \<and> \<not> power_above (panelCount v) (panelWattage v) \<and> activeMPPT v \<noteq> []"
    using pass(3) by (simp add: validateStep_def gather_Nil)
  show "\<not> decimal_outside 90 (latitude v) \<and> \<not> decimal_outside 180 (longitude v) \<and> validTimezone env (timezone v)
      \<and> validCurrency env (currency v) \<and> tariffMinor (tariff v) \<noteq> None \<and> \<not> integer_outside 30 3650 (retentionDays v)"
    using pass(4) by (simp add: validateStep_def gather_Nil)
qed

lemma sort_text_Nil [simp]: "sort_text xs = [] \<longleftrightarrow> xs = []"
  by (metis length_0_conv length_sort sort_text_def)

definition account_ok :: "bootstrap_payload \<Rightarrow> bool" where
  "account_ok p \<longleftrightarrow> p_username p \<noteq> [] \<and> 12 \<le> length (code_points (p_password p)) \<and> utf8_bytes (p_password p) \<le> 128"

lemma payload_built:
  assumes "\<forall>step < 4. validateStep env step v = []"
  shows "\<exists>p. toBootstrapPayload env v = Inr p \<and> settings_ok (p_settings p) \<and> account_ok p
    \<and> p_username p = trim (username v) \<and> p_password p = confirmPassword v"
proof -
  note ok = steps_pass [OF assms]
  obtain port where port: "integer (loggerPort v) = Some port" "nat_within 1 65535 port"
    using not_outside [of 1 65535 "loggerPort v"] ok(2) by auto
  obtain slave where slave: "integer (modbusSlave v) = Some slave" "nat_within 1 247 slave"
    using not_outside [of 1 247 "modbusSlave v"] ok(2) by auto
  obtain days where days: "integer (retentionDays v) = Some days" "nat_within 30 3650 days"
    using not_outside [of 30 3650 "retentionDays v"] ok(4) by auto
  obtain c where c: "integer (panelCount v) = Some (Fin (of_nat c))" "1 \<le> c"
    using not_below [of 1 "panelCount v"] ok(3) by auto
  obtain w where w: "integer (panelWattage v) = Some (Fin (of_nat w))" "1 \<le> w"
    using not_below [of 1 "panelWattage v"] ok(3) by auto
  have cw: "c * w \<le> 12000" using power_product [OF _ c(1) w(1) c(2) w(2)] ok(3) by blast
  obtain lat where lat: "decimal (latitude v) = Some (Fin lat)" "\<bar>lat\<bar> \<le> 90"
    using not_decimal_outside [of 90 "latitude v"] ok(4) by auto
  obtain long where long: "decimal (longitude v) = Some (Fin long)" "\<bar>long\<bar> \<le> 180"
    using not_decimal_outside [of 180 "longitude v"] ok(4) by auto
  obtain minor where minor: "tariffMinor (tariff v) = Some minor" using ok(4) by auto
  have host: "trim (loggerHost v) = loggerHost v" using ok(2) by (simp add: validIPv4_trim)
  let ?st = "\<lparr>s_activeMPPT = sort_text (activeMPPT v), s_currency = upper env (trim (currency v)), s_latitude = Fin lat,
      s_loggerHost = loggerHost v, s_loggerPort = port, s_loggerSerial = loggerSerial v, s_longitude = Fin long,
      s_modbusSlave = slave, s_panelCount = Fin (of_nat c), s_panelWattage = Fin (of_nat w), s_retentionDays = days,
      s_tariffMinorPerKWh = minor, s_timezone = trim (timezone v)\<rparr>"
  have built: "toBootstrapPayload env v = Inr \<lparr>p_username = trim (username v), p_password = password v, p_settings = ?st\<rparr>"
    by (simp add: toBootstrapPayload_def requiredInteger_def requiredDecimal_def requiredTariffMinor_def
        lat long port slave c w days minor host)
  have "settings_ok ?st"
    using ok port(2) slave(2) days(2) c(2) w(2) cw lat(2) long(2) tariffMinor_Some [OF minor]
    by (simp add: settings_ok_def number_within_def validCurrency_def Let_def)
  moreover have "trim (username v) \<noteq> []" "password v = confirmPassword v"
    "12 \<le> length (code_points (confirmPassword v))" "utf8_bytes (confirmPassword v) \<le> 128"
    using ok(1) by auto
  ultimately show ?thesis by (simp add: built account_ok_def)
qed

lemma payload_parts: "toBootstrapPayload env v = Inr p \<Longrightarrow>
    s_activeMPPT (p_settings p) = sort_text (activeMPPT v) \<and> s_timezone (p_settings p) = trim (timezone v)"
  by (auto simp: toBootstrapPayload_def bind_result_def split: sum.splits)

lemma sort_text_set [simp]: "set (sort_text xs) = set xs" "distinct (sort_text xs) = distinct xs"
  by (simp_all add: sort_text_def)

text \<open>
  C39. The wizard's request: when the four steps report no error, building the payload never throws,
  and the payload carries the trimmed user name, the confirmed password of at least twelve
  characters and at most 128 bytes, settings within the bounds the form checks (\<open>settings_ok\<close>: not all
  the server's rules), the time zone the browser knows, without blanks around it, and exactly the chosen
  inputs of the inverter, twice only if chosen twice.
\<close>

theorem toBootstrapPayload_ok:
  assumes "\<forall>step < 4. validateStep env step v = []"
  shows "\<exists>p. toBootstrapPayload env v = Inr p \<and> settings_ok (p_settings p) \<and> p_username p \<noteq> []
    \<and> p_username p = trim (username v) \<and> p_password p = confirmPassword v
    \<and> 12 \<le> length (code_points (p_password p)) \<and> utf8_bytes (p_password p) \<le> 128
    \<and> s_timezone (p_settings p) = trim (timezone v) \<and> validTimezone env (timezone v)
    \<and> set (s_activeMPPT (p_settings p)) = set (activeMPPT v) \<and> distinct (s_activeMPPT (p_settings p)) = distinct (activeMPPT v)"
  using payload_built [OF assms] payload_parts steps_pass(4) [OF assms] by (fastforce simp: account_ok_def)

definition sample_env :: locale_env where
  "sample_env = \<lparr>zone_ok = (\<lambda>z. z = js ''America/Sao_Paulo''), upper = id, lower = id\<rparr>"

definition sample_form :: onboarding_values where
  "sample_form = (initialOnboardingValues (js ''America/Sao_Paulo''))\<lparr>latitude := js ''-23,0'', longitude := js ''-46'',
     loggerHost := js ''192.168.0.7'', loggerSerial := js ''4711'', username := js ''ana'',
     password := js ''correct horse'', confirmPassword := js ''correct horse''\<rparr>"

text \<open>Reading literal fields: the texts are evaluated, the rounding is a lemma.\<close>

lemma integer_lit: "all_digits s \<Longrightarrow> digits_val s = n \<Longrightarrow> n \<le> 9007199254740991 \<Longrightarrow> integer s = Some (Fin (of_nat n))"
  by (simp add: integer_Some)

lemma decimal_lit:
  assumes "replace_comma (trim s) = t" "decimal_shape t" "decimal_value t = of_int n" "\<bar>n\<bar> \<le> 9007199254740992"
  shows "decimal s = Some (Fin (of_int n))"
  using assms(1-3) fl_int [OF assms(4)] by (simp add: decimal_def number_of_decimal_def)

lemma sample_fields:
  "integer (js ''8899'') = Some (Fin 8899)" "integer (js ''1'') = Some (Fin 1)" "integer (js ''7'') = Some (Fin 7)"
  "integer (js ''610'') = Some (Fin 610)" "integer (js ''730'') = Some (Fin 730)"
proof -
  have "all_digits (js ''8899'')" "digits_val (js ''8899'') = 8899" by code_simp+
  then show "integer (js ''8899'') = Some (Fin 8899)" using integer_lit [of "js ''8899''" 8899] by simp
  have "all_digits (js ''1'')" "digits_val (js ''1'') = 1" by code_simp+
  then show "integer (js ''1'') = Some (Fin 1)" using integer_lit [of "js ''1''" 1] by simp
  have "all_digits (js ''7'')" "digits_val (js ''7'') = 7" by code_simp+
  then show "integer (js ''7'') = Some (Fin 7)" using integer_lit [of "js ''7''" 7] by simp
  have "all_digits (js ''610'')" "digits_val (js ''610'') = 610" by code_simp+
  then show "integer (js ''610'') = Some (Fin 610)" using integer_lit [of "js ''610''" 610] by simp
  have "all_digits (js ''730'')" "digits_val (js ''730'') = 730" by code_simp+
  then show "integer (js ''730'') = Some (Fin 730)" using integer_lit [of "js ''730''" 730] by simp
qed

lemma sample_decimals:
  "decimal (js ''-23,0'') = Some (Fin (of_int (-23)))" "decimal (js ''-46'') = Some (Fin (of_int (-46)))"
proof -
  have "replace_comma (trim (js ''-23,0'')) = js ''-23.0''" "decimal_shape (js ''-23.0'')" "decimal_value (js ''-23.0'') = of_int (-23)"
    by code_simp+
  then show "decimal (js ''-23,0'') = Some (Fin (of_int (-23)))" by (rule decimal_lit) simp
  have "replace_comma (trim (js ''-46'')) = js ''-46''" "decimal_shape (js ''-46'')" "decimal_value (js ''-46'') = of_int (-46)"
    by code_simp+
  then show "decimal (js ''-46'') = Some (Fin (of_int (-46)))" by (rule decimal_lit) simp
qed

lemma sample_tariff: "tariffMinor (js ''0,95'') = Some (Fin 95)"
proof -
  have "tariff_match (js ''0,95'') = Some (js ''0'', js ''95'')" by code_simp
  moreover have "digits_val (js ''0'') * 100 + digits_val (pad_end 2 48 (js ''95'')) = 95" by code_simp
  ultimately show ?thesis using fl_nat [of 95] by (simp add: tariffMinor_def)
qed

lemma sample_texts:
  "trim (js ''ana'') \<noteq> []" "length (code_points (js ''correct horse'')) = 13" "utf8_bytes (js ''correct horse'') = 13"
  "validIPv4 (js ''192.168.0.7'')" "all_digits (js ''4711'')" "digits_val (js ''4711'') = 4711" "js ''America/Sao_Paulo'' \<noteq> js ''Local''"
  "trim (js ''BRL'') = js ''BRL''"
  by code_simp+

lemma sample_valid: "\<forall>step < 4. validateStep sample_env step sample_form = []"
proof (intro allI impI)
  fix step :: nat
  assume "step < 4"
  note form = validateStep_def gather_Nil sample_form_def initialOnboardingValues_def
  have three: "three_upper (js ''BRL'')" using currencies_upper currency_BRL by (simp add: list_all_iff)
  show "validateStep sample_env step sample_form = []"
  proof -
    consider "step = 0" | "step = 1" | "step = 2" | "step = 3" using \<open>step < 4\<close> by linarith
    then show ?thesis
    proof cases
      case 1
      then show ?thesis by (simp add: form sample_texts)
    next
      case 2
      then show ?thesis by (simp add: form sample_texts validLoggerSerial_def integer_outside_def sample_fields)
    next
      case 3
      then show ?thesis using fl_int [of 4270] by (simp add: form integer_below_def power_above_def sample_fields)
    next
      case 4
      then show ?thesis
        by (simp add: form decimal_outside_def integer_outside_def sample_fields sample_decimals sample_tariff
            validTimezone_def validCurrency_def sample_env_def sample_texts currency_BRL three)
    qed
  qed
qed

lemma toBootstrapPayload_ok_witness:
  "\<exists>p. toBootstrapPayload sample_env sample_form = Inr p \<and> settings_ok (p_settings p)"
  using toBootstrapPayload_ok [OF sample_valid] by blast

section \<open>The two validators agree\<close>

lemma gather_field: "f \<in> fst ` set (gather cs) \<longleftrightarrow> list_ex (\<lambda>(c, g, m). c \<and> f = g) cs"
  unfolding gather_keys by (fastforce simp: list_ex_iff)

lemma power_above_eq: "settings_power_above count watts = power_above count watts"
proof (cases "integer count"; cases "integer watts")
  fix c w
  assume i: "integer count = Some c" "integer watts = Some w"
  then obtain m n where "c = Fin (of_nat m)" "w = Fin (of_nat n)" by (auto simp: integer_Some)
  then show ?thesis by (simp add: settings_power_above_def power_above_def i)
qed (simp_all add: settings_power_above_def power_above_def)

lemma validCurrency_eq: "validCurrency env s \<longleftrightarrow> upper env (trim s) \<in> set HELIO_ISO_4217"
  using currencies_upper by (auto simp: validCurrency_def Let_def list_all_iff)

text \<open>
  C37. The settings page and the wizard are one validator but for blanks around the tariff: for the
  same texts, with the tariff trimmed for the wizard as the settings page trims it itself, the settings
  page marks exactly the fields that the second, third and fourth step of the wizard mark. (The wizard
  refuses a tariff with blanks around it, which the settings page accepts.)
\<close>

theorem validateSettings_steps:
  "fst ` set (validateSettings env (settings_values.truncate v))
   = fst ` set (validateStep env 1 v) \<union> fst ` set (validateStep env 2 v)
     \<union> fst ` set (validateStep env 3 (v\<lparr>tariff := trim (tariff v)\<rparr>))"
proof (rule set_eqI)
  fix f
  show "f \<in> fst ` set (validateSettings env (settings_values.truncate v)) \<longleftrightarrow>
    f \<in> fst ` set (validateStep env 1 v) \<union> fst ` set (validateStep env 2 v)
     \<union> fst ` set (validateStep env 3 (v\<lparr>tariff := trim (tariff v)\<rparr>))"
    unfolding Un_iff validateSettings_def validateStep_def gather_field
    by (cases f)
      (simp_all add: settings_values.defs power_above_eq validCurrency_eq validLoggerSerial_def settings_tariffMinor_eq)
qed

section \<open>The settings form\<close>

lemma fl_rat_dyadic:
  assumes "0 < n" "n \<le> 2 ^ 52"
  shows "fl_rat (of_int n / 2 ^ 7) = of_int n / 2 ^ 7"
proof -
  let ?x = "rat_of_int n / 2 ^ 7"
  define e where "e = ulp_exp ?x"
  have x: "0 < ?x" using assms(1) by simp
  have "rat_of_int n \<le> of_int (2 ^ 52)" using assms(2) by (simp only: of_int_le_iff)
  then have "?x \<le> 2 powi 45" by simp
  moreover have "(2::rat) powi 45 < 2 powi 46" by simp
  ultimately have "(2::rat) powi ilog2 ?x < 2 powi 46" using ilog2_bounds(1) [OF x] by linarith
  then have "ilog2 ?x < 46" by (rule two_powi_less_cancel)
  then have "e \<le> -7" by (simp add: e_def ulp_exp_def)
  then obtain k where k: "-7 = e + int k" using zle_iff_zadd [of e "-7"] by auto
  have "?x = of_int n * 2 powi (-7)" using powi_neg [of "-7" "of_int n" 2] by simp
  moreover have "(2::rat) powi (-7) = 2 ^ k * 2 powi e" unfolding k by (simp add: two_powi_add)
  ultimately have eq: "?x = of_int (n * 2 ^ k) * 2 powi e" by (simp only: of_int_mult of_int_power of_int_numeral mult.assoc)
  have "(2::rat) powi e \<noteq> 0" by simp
  then have "?x / 2 powi e = of_int (n * 2 ^ k)" by (subst eq) (rule nonzero_mult_div_cancel_right)
  then have "fl_pos ?x = of_int (n * 2 ^ k) * 2 powi e"
    unfolding fl_pos_def e_def [symmetric] by (simp only: round_half_even_int)
  also have "\<dots> = ?x" by (rule eq [symmetric])
  finally show ?thesis using x by (simp add: fl_rat_def)
qed

lemma floor_hundredth:
  assumes "t \<le> 1000000000"
  shows "jfloor (jdiv (Fin (of_nat t)) (Fin 100)) = Fin (of_nat (t div 100))"
proof -
  define a where "a = int (t div 100)"
  have t: "of_nat t = rat_of_int a * 100 + of_nat (t mod 100)"
    using div_mult_mod_eq [of t 100] by (metis a_def of_int_of_nat_eq of_nat_add of_nat_mult of_nat_numeral)
  have "t mod 100 \<le> 99" by (simp add: less_Suc_eq_le [symmetric])
  then have "rat_of_nat (t mod 100) \<le> of_nat 99" by (simp only: of_nat_le_iff)
  then have r: "rat_of_nat (t mod 100) \<le> 99" by simp
  have a: "0 \<le> a" "a \<le> 10000000" using assms by (simp_all add: a_def)
  have lo: "rat_of_int a \<le> of_nat t / 100" using t by simp
  have hi: "of_nat t / 100 \<le> rat_of_int (128 * a + 127) / 2 ^ 7" using t r by simp
  have "fl_rat (of_int a) = of_int a" using a by (intro fl_rat_int) simp
  then have 1: "rat_of_int a \<le> fl_rat (of_nat t / 100)" using fl_rat_mono [OF lo] by simp
  have "fl_rat (of_int (128 * a + 127) / 2 ^ 7) = of_int (128 * a + 127) / 2 ^ 7" using a by (intro fl_rat_dyadic) simp_all
  then have 2: "fl_rat (of_nat t / 100) \<le> rat_of_int (128 * a + 127) / 2 ^ 7" using fl_rat_mono [OF hi] by simp
  have "rat_of_int (128 * a + 127) / 2 ^ 7 < of_int a + 1" by simp
  with 1 2 have f: "\<lfloor>fl_rat (of_nat t / 100)\<rfloor> = a" by (intro floor_unique) simp_all
  have "rat_of_int a \<le> 10000000" using a(2) of_int_le_iff [of a 10000000, where 'a = rat] by simp
  then have "fl_rat (of_nat t / 100) < 10000001"
    using 2 \<open>rat_of_int (128 * a + 127) / 2 ^ 7 < of_int a + 1\<close> by linarith
  moreover have "(10000001::rat) < 2 ^ 1024" by simp
  ultimately have "fl_rat (of_nat t / 100) < 2 ^ 1024" by (rule less_trans)
  moreover have "- (2 ^ 1024) < fl_rat (of_nat t / 100)"
  proof (rule less_le_trans)
    show "- (2 ^ 1024) < (0::rat)" by simp
    show "0 \<le> fl_rat (of_nat t / 100)" by (rule fl_rat_nonneg) simp
  qed
  ultimately have "fl (of_nat t / 100) = Fin (fl_rat (of_nat t / 100))" by (simp add: fl_def Let_def)
  then show ?thesis by (simp add: f) (simp add: a_def)
qed

lemma replace_comma_free: "44 \<notin> set s \<Longrightarrow> replace_comma s = s"
  by (induction s) auto

lemma decimal_num_text:
  assumes "fl_rat q = q" "readable_size q"
  shows "decimal (num_text (Fin q)) = Some (Fin q)"
proof -
  let ?s = "num_text (Fin q)"
  have s: "decimal_shape ?s" "number_of_decimal ?s = Fin q" and c: "set ?s \<subseteq> {c. is_digit c} \<union> {45, 46}"
    using decimal_text_number [OF assms] by blast+
  have "\<forall>c \<in> set ?s. \<not> is_space c" using c digit_not_space by (fastforce simp: is_space_def)
  then have t: "trim ?s = ?s" by (rule trim_no_space)
  have "44 \<notin> set ?s"
  proof
    assume "44 \<in> set ?s"
    with c have "is_digit 44" by auto
    then show False by (simp add: is_digit_def)
  qed
  then show ?thesis
    unfolding decimal_def t by (simp add: replace_comma_free s del: num_text.simps)
qed

lemma whole_comma:
  assumes "list_all is_digit d"
  shows "whole_digits (d @ 44 # f) = d" "after_whole (d @ 44 # f) = 44 # f"
  using assms by (simp_all add: whole_digits_def after_whole_def list_all_iff takeWhile_append2 dropWhile_append2 is_digit_def)

lemma jrem_hundred: "jrem (Fin (of_nat t)) (Fin 100) = Fin (of_nat (t mod 100))"
proof -
  have "\<lfloor>rat_of_nat t / of_nat 100\<rfloor> = int (t div 100)" by (rule floor_divide_of_nat_eq)
  then have f: "\<lfloor>rat_of_nat t / 100\<rfloor> = int (t div 100)" by simp
  have "rat_of_nat t = of_nat (100 * (t div 100) + t mod 100)" by simp
  also have "\<dots> = 100 * of_nat (t div 100) + of_nat (t mod 100)" by (simp only: of_nat_add of_nat_mult of_nat_numeral)
  finally have "rat_of_nat t - 100 * of_nat (t div 100) = of_nat (t mod 100)" by simp
  then show ?thesis by (simp add: f)
qed

lemma tariff_text:
  assumes "t \<le> 1000000000" and s: "s = show_nat (t div 100) @ [44] @ pad_start 2 48 (show_nat (t mod 100))"
  shows "settings_tariffMinor s = Some (Fin (of_nat t))"
proof -
  let ?f = "pad_start 2 48 (show_nat (t mod 100))"
  have f: "list_all is_digit ?f" by (rule pad_start_digits) (rule show_nat_digits)
  have "length (show_nat (t mod 100)) \<le> 2" by (intro length_show_nat) simp_all
  then have len: "length ?f = 2" by simp
  have "set s \<subseteq> {c. is_digit c} \<union> {44}" using show_nat_digits f by (auto simp: s list_all_iff)
  then have "\<forall>c \<in> set s. \<not> is_space c" using digit_not_space by (fastforce simp: is_space_def)
  then have trim: "trim s = s" by (rule trim_no_space)
  have "tariff_match s = Some (show_nat (t div 100), ?f)"
    unfolding s tariff_match_def Let_def using f len by (simp add: whole_comma show_nat_digits)
  moreover have "pad_end 2 48 ?f = ?f" using len by (simp add: pad_end_def)
  moreover have "t div 100 * 100 + t mod 100 = t" by simp
  moreover have "fl (of_nat t) = Fin (of_nat t)" using assms(1) by (intro fl_nat) simp
  ultimately show ?thesis using assms(1) by (simp add: settings_tariffMinor_def trim del: of_nat_add of_nat_mult)
qed

text \<open>Settings the form can show: what the server stores, with coordinates printed without exponent.\<close>

definition coordinate :: "jsnum \<Rightarrow> bool" where
  "coordinate x \<longleftrightarrow> (\<exists>q. x = Fin q \<and> fl_rat q = q \<and> readable_size q)"

definition showable :: "locale_env \<Rightarrow> settings \<Rightarrow> bool" where
  "showable env st \<longleftrightarrow> settings_ok st \<and> coordinate (s_latitude st) \<and> coordinate (s_longitude st)
     \<and> validTimezone env (s_timezone st) \<and> trim (s_timezone st) = s_timezone st
     \<and> upper env (s_currency st) = s_currency st \<and> sort_text (s_activeMPPT st) = s_activeMPPT st"

lemma coordinate_read: "coordinate x \<Longrightarrow> decimal (num_text x) = Some x"
  by (auto simp: coordinate_def decimal_num_text simp del: num_text.simps)

lemma nat_within_read: "nat_within lo hi x \<Longrightarrow> hi < 10 ^ 14 \<Longrightarrow> integer (num_text x) = Some x"
  by (auto simp: nat_within_def num_text_nat integer_show simp del: num_text.simps)

lemma nat_within_inside: "nat_within lo hi x \<Longrightarrow> hi < 10 ^ 14 \<Longrightarrow> \<not> integer_outside (int lo) (int hi) (num_text x)"
  using nat_within_read [of lo hi x] by (auto simp: integer_outside_def nat_within_def simp del: num_text.simps)

lemma number_within_inside:
  assumes "coordinate x" "number_within (of_int b) x"
  shows "\<not> decimal_outside b (num_text x)"
  using coordinate_read [OF assms(1)] assms(2)
  by (auto simp: decimal_outside_def number_within_def abs_le_iff simp del: num_text.simps)

lemma currency_trim:
  assumes "s \<in> set HELIO_ISO_4217"
  shows "trim s = s"
proof (rule trim_no_space)
  have "three_upper s" using currencies_upper assms by (simp add: list_all_iff)
  then show "\<forall>c \<in> set s. \<not> is_space c"
    by (auto simp: three_upper_def list_all_iff is_upper_def is_space_def word_le_nat_alt)
qed

lemma power_shown:
  assumes "1 \<le> c" "1 \<le> w" "c * w \<le> 12000"
  shows "integer (num_text (Fin (of_nat c))) = Some (Fin (of_nat c))" "integer (num_text (Fin (of_nat w))) = Some (Fin (of_nat w))"
    "\<not> settings_power_above (num_text (Fin (of_nat c))) (num_text (Fin (of_nat w)))"
proof -
  have "c \<le> c * w" "w \<le> c * w" using assms(1,2) by simp_all
  then have small: "c \<le> 12000" "w \<le> 12000" using assms(3) by (blast intro: order.trans)+
  show i: "integer (num_text (Fin (of_nat c))) = Some (Fin (of_nat c))" "integer (num_text (Fin (of_nat w))) = Some (Fin (of_nat w))"
    using small by (simp_all add: num_text_nat integer_show del: num_text.simps)
  have product: "fl (of_nat c * of_nat w) = Fin (of_nat (c * w))" using assms(3) fl_nat [of "c * w"] by simp
  have "rat_of_nat (c * w) \<le> of_nat 12000" using assms(3) by (simp only: of_nat_le_iff)
  then have "\<not> jlt (Fin 12000) (jmul (Fin (of_nat c)) (Fin (of_nat w)))" using product by simp
  then show "\<not> settings_power_above (num_text (Fin (of_nat c))) (num_text (Fin (of_nat w)))"
    by (simp add: settings_power_above_def i del: num_text.simps jmul.simps)
qed

lemma settings_fields:
  "activeMPPT (settingsToValues st) = s_activeMPPT st" "currency (settingsToValues st) = s_currency st"
  "latitude (settingsToValues st) = num_text (s_latitude st)" "loggerHost (settingsToValues st) = s_loggerHost st"
  "loggerPort (settingsToValues st) = num_text (s_loggerPort st)" "loggerSerial (settingsToValues st) = s_loggerSerial st"
  "longitude (settingsToValues st) = num_text (s_longitude st)" "modbusSlave (settingsToValues st) = num_text (s_modbusSlave st)"
  "panelCount (settingsToValues st) = num_text (s_panelCount st)" "panelWattage (settingsToValues st) = num_text (s_panelWattage st)"
  "retentionDays (settingsToValues st) = num_text (s_retentionDays st)" "timezone (settingsToValues st) = s_timezone st"
  by (simp_all add: settingsToValues_def Let_def del: num_text.simps)

lemma tariff_shown:
  assumes "nat_within 0 1000000000 (s_tariffMinorPerKWh st)"
  shows "settings_tariffMinor (tariff (settingsToValues st)) = Some (s_tariffMinorPerKWh st)"
proof -
  obtain t where t: "s_tariffMinorPerKWh st = Fin (of_nat t)" "t \<le> 1000000000"
    using assms by (auto simp: nat_within_def)
  have "t div 100 \<le> t" "t mod 100 < 100" by simp_all
  then have "t div 100 < 10 ^ 14" "t mod 100 < 10 ^ 14" using t(2) by simp_all
  then have "tariff (settingsToValues st) = show_nat (t div 100) @ [44] @ pad_start 2 48 (show_nat (t mod 100))"
    unfolding settingsToValues_def Let_def t(1) floor_hundredth [OF t(2)] jrem_hundred by (simp add: num_text_nat del: num_text.simps)
  then show ?thesis unfolding t(1) by (rule tariff_text [OF t(2)])
qed

lemmas form_reads = nat_within_read coordinate_read tariff_shown power_shown
lemmas form_checks = nat_within_inside number_within_inside

lemma settings_shown:
  assumes "showable env st"
  shows "validateSettings env (settingsToValues st) = [] \<and> valuesToSettings env (settingsToValues st) = st
    \<and> \<not> loggerIdentityChanged (settingsToValues st) st"
proof -
  have pos: "coordinate (s_latitude st)" "coordinate (s_longitude st)"
    and words: "validTimezone env (s_timezone st)" "trim (s_timezone st) = s_timezone st" "upper env (s_currency st) = s_currency st"
      "sort_text (s_activeMPPT st) = s_activeMPPT st"
    and ok: "settings_ok st"
    using assms by (auto simp: showable_def)
  from ok have bounds: "validIPv4 (s_loggerHost st)" "validLoggerSerial (s_loggerSerial st)"
      "nat_within 1 65535 (s_loggerPort st)" "nat_within 1 247 (s_modbusSlave st)" "s_activeMPPT st \<noteq> []"
      "number_within 90 (s_latitude st)" "number_within 180 (s_longitude st)" "s_currency st \<in> set HELIO_ISO_4217"
      "nat_within 0 1000000000 (s_tariffMinorPerKWh st)" "nat_within 30 3650 (s_retentionDays st)"
    by (simp_all add: settings_ok_def)
  from ok obtain c w where cw: "s_panelCount st = Fin (of_nat c)" "s_panelWattage st = Fin (of_nat w)" "1 \<le> c" "1 \<le> w" "c * w \<le> 12000"
    by (auto simp: settings_ok_def)
  note reads = form_reads(1) [OF bounds(3)] form_reads(1) [OF bounds(4)] form_reads(1) [OF bounds(10)]
    form_reads(2) [OF pos(1)] form_reads(2) [OF pos(2)] form_reads(3) [OF bounds(9)] form_reads(4,5) [OF cw(3-5)]
  note checks = form_checks(1) [OF bounds(3)] form_checks(1) [OF bounds(4)] form_checks(1) [OF bounds(10)]
    form_checks(2) [OF pos(1), of 90] form_checks(2) [OF pos(2), of 180] power_shown(3) [OF cw(3-5)]
  note same = words currency_trim [OF bounds(8)] validIPv4_trim [OF bounds(1)] settings_fields cw(1,2)
  have "validateSettings env (settingsToValues st) = []"
    unfolding validateSettings_def gather_Nil same
    using checks bounds words cw by (simp add: integer_below_def reads validLoggerSerial_def del: num_text.simps)
  moreover have "valuesToSettings env (settingsToValues st) = st"
    unfolding valuesToSettings_def same by (rule settings.equality) (simp_all add: reads cw(1,2) del: num_text.simps)
  moreover have "\<not> loggerIdentityChanged (settingsToValues st) st"
    using bounds(3,4) unfolding loggerIdentityChanged_def same
    by (auto simp: reads differs_def jeq_def nat_within_def simp del: num_text.simps)
  ultimately show ?thesis by blast
qed

text \<open>
  C9. Opening the settings form and saving it untouched changes nothing: for settings within the bounds
  of the form, whose coordinates are zero or at least \<open>10 ^ -6\<close> in size, whose time zone the browser
  knows and whose currency and inputs are in the form's own notation and order (\<open>showable\<close>), the texts
  that are shown pass the validation, read back as the same settings, and do not count as a change of
  the logger's identity.
\<close>

theorem settings_form_roundtrip:
  assumes "showable env st"
  shows "validateSettings env (settingsToValues st) = [] \<and> valuesToSettings env (settingsToValues st) = st
    \<and> \<not> loggerIdentityChanged (settingsToValues st) st"
  by (rule settings_shown [OF assms])

definition sample_settings :: settings where
  "sample_settings = \<lparr>s_activeMPPT = [Fin 1], s_currency = js ''BRL'', s_latitude = Fin (-23), s_loggerHost = js ''192.168.0.7'',
     s_loggerPort = Fin (of_nat 8899), s_loggerSerial = js ''4711'', s_longitude = Fin (-46), s_modbusSlave = Fin (of_nat 1),
     s_panelCount = Fin (of_nat 7), s_panelWattage = Fin (of_nat 610), s_retentionDays = Fin (of_nat 730),
     s_tariffMinorPerKWh = Fin (of_nat 95), s_timezone = js ''America/Sao_Paulo''\<rparr>"

lemma nat_withinI: "lo \<le> n \<Longrightarrow> n \<le> hi \<Longrightarrow> nat_within lo hi (Fin (of_nat n))"
  by (auto simp: nat_within_def)

lemma coordinate_int: "n \<noteq> 0 \<Longrightarrow> \<bar>n\<bar> \<le> 1000 \<Longrightarrow> coordinate (Fin (of_int n))"
proof -
  assume n: "n \<noteq> 0" "\<bar>n\<bar> \<le> 1000"
  then have "rat_of_int 1 \<le> of_int \<bar>n\<bar>" "rat_of_int \<bar>n\<bar> \<le> of_int 1000" by (simp_all only: of_int_le_iff)
  then have "readable_size (of_int n)" by (simp add: readable_size_def)
  with n fl_rat_int [of n] show ?thesis by (simp add: coordinate_def)
qed

lemma sample_showable: "showable sample_env sample_settings"
proof -
  have "settings_ok sample_settings"
    unfolding settings_ok_def sample_settings_def settings.simps
    by (intro conjI nat_withinI exI [of _ 7] exI [of _ 610])
      (simp_all add: sample_texts validLoggerSerial_def number_within_def currency_BRL)
  moreover have "trim (js ''America/Sao_Paulo'') = js ''America/Sao_Paulo''" by code_simp
  ultimately show ?thesis
    using coordinate_int [of "-23"] coordinate_int [of "-46"]
    by (simp add: showable_def sample_settings_def sample_env_def validTimezone_def sample_texts sort_text_def)
qed

lemma settings_form_roundtrip_witness:
  "valuesToSettings sample_env (settingsToValues sample_settings) = sample_settings"
  using settings_form_roundtrip [OF sample_showable] by blast

end
