(* ===== verification/Wizard.thy ===== *)
theory Wizard
  imports FormsCorrect ApiClient
begin

text \<open>
  The onboarding wizard, \<open>web/src/features/onboarding/OnboardingWizard.tsx\<close>, as a machine: its state is
  what the component and its mutation hold, its events are the user's and the server's.

  \<open>requests\<close> records every payload handed to the mutation. React Query is third-party code: a
  mutation runs one callback when the request ends, and counts as pending until that callback is
  done; the callback for status 409 waits for the status query before it leaves the page. The
  layout effect focuses \<open>focusField\<close> and clears it, so the model keeps the field last focused.
\<close>

record wizard =
  w_step :: nat
  w_values :: onboarding_values
  w_errors :: errors
  w_focus :: "field option"
  revealSerial :: bool
  submissionStarted :: bool
  awaiting :: bool
  closing :: bool
  requests :: "bootstrap_payload list"
  csrf_memory :: "jsstring option"
  finished :: bool
  closed :: bool

datatype wizard_event = Update field jsstring | ToggleMPPT jsnum | Reveal | FormSubmit | Back
  | Created jsstring | Refused failure | StatusChecked

definition stepNames_length :: nat where
  "stepNames_length = 5"

definition stepForField :: "field \<Rightarrow> nat option" where
  "stepForField f = (if f \<in> {Username, Password, ConfirmPassword} then Some 0
     else if f \<in> {LoggerHost, LoggerSerial, LoggerPort, ModbusSlave} then Some 1
     else if f \<in> {PanelCount, PanelWattage, ActiveMPPT} then Some 2
     else if f \<in> {Latitude, Longitude, Timezone, Currency, Tariff, RetentionDays} then Some 3
     else None)"

definition initial_wizard :: "jsstring \<Rightarrow> wizard" where
  "initial_wizard zone = \<lparr>w_step = 0, w_values = initialOnboardingValues zone, w_errors = [], w_focus = None,
     revealSerial = False, submissionStarted = False, awaiting = False, closing = False, requests = [],
     csrf_memory = None, finished = False, closed = False\<rparr>"

definition update :: "field \<Rightarrow> jsstring \<Rightarrow> wizard \<Rightarrow> wizard" where
  "update f s w = w\<lparr>w_values := set_onboarding_field f s (w_values w),
     w_errors := (if map_of (w_errors w) f \<noteq> None then drop_error f (w_errors w) else w_errors w)\<rparr>"

text \<open>\<open>includes\<close>, then \<open>filter\<close> or an element at the end.\<close>

definition toggle_input :: "jsnum \<Rightarrow> jsnum list \<Rightarrow> jsnum list" where
  "toggle_input n xs = (if n \<in> set xs then filter (\<lambda>i. \<not> jeq i n) xs else xs @ [n])"

definition toggleMPPT :: "jsnum \<Rightarrow> wizard \<Rightarrow> wizard" where
  "toggleMPPT n w = w\<lparr>w_values := (w_values w)\<lparr>activeMPPT := toggle_input n (activeMPPT (w_values w))\<rparr>,
     w_errors := drop_error ActiveMPPT (w_errors w)\<rparr>"

definition advance :: "locale_env \<Rightarrow> wizard \<Rightarrow> wizard" where
  "advance env w = (let found = validateStep env (w_step w) (w_values w) in
     case found of
       [] \<Rightarrow> w\<lparr>w_errors := [], w_step := min (w_step w + 1) (stepNames_length - 1)\<rparr>
     | (first, _) # _ \<Rightarrow> w\<lparr>w_errors := found, w_focus := Some first\<rparr>)"

text \<open>The loop over the four steps: the first one with errors.\<close>

fun failing_step :: "locale_env \<Rightarrow> onboarding_values \<Rightarrow> nat list \<Rightarrow> (nat \<times> errors) option" where
  "failing_step env v [] = None"
| "failing_step env v (c # cs) = (case validateStep env c v of [] \<Rightarrow> failing_step env v cs | found \<Rightarrow> Some (c, found))"

text \<open>When the payload throws, nothing after the assignment of \<open>submissionStarted\<close> happens.\<close>

definition submit :: "locale_env \<Rightarrow> wizard \<Rightarrow> wizard" where
  "submit env w = (case failing_step env (w_values w) [0, 1, 2, 3] of
       Some (c, found) \<Rightarrow> w\<lparr>w_errors := found, w_step := c, w_focus := Some (fst (hd found))\<rparr>
     | None \<Rightarrow> let w1 = w\<lparr>w_errors := []\<rparr> in
         if submissionStarted w1 then w1
         else let w2 = w1\<lparr>submissionStarted := True\<rparr> in
           (case toBootstrapPayload env (w_values w) of
              Inl _ \<Rightarrow> w2
            | Inr p \<Rightarrow> w2\<lparr>awaiting := True, requests := requests w2 @ [p]\<rparr>))"

definition form_submit :: "locale_env \<Rightarrow> wizard \<Rightarrow> wizard" where
  "form_submit env w = (if w_step w = stepNames_length - 1 then submit env w else advance env w)"

text \<open>The button is there after the first step and disabled while the mutation is pending.\<close>

definition go_back :: "wizard \<Rightarrow> wizard" where
  "go_back w = (if 0 < w_step w \<and> \<not> (awaiting w \<or> closing w) then w\<lparr>w_errors := [], w_step := w_step w - 1\<rparr> else w)"

definition onSuccess :: "jsstring \<Rightarrow> wizard \<Rightarrow> wizard" where
  "onSuccess token w = w\<lparr>awaiting := False, csrf_memory := Some token, finished := True\<rparr>"

definition code_text :: "jsval \<Rightarrow> jsstring" where
  "code_text v = (case v of JStr s \<Rightarrow> s | _ \<Rightarrow> [])"

definition onError :: "locale_env \<Rightarrow> failure \<Rightarrow> wizard \<Rightarrow> wizard" where
  "onError env error w = (let w1 = w\<lparr>awaiting := False, submissionStarted := False\<rparr> in
     case error of
       TypeFailure \<Rightarrow> w1\<lparr>w_errors := [(General, SetupFailed)]\<rparr>
     | ApiFailure e \<Rightarrow>
         if e_status e = 409 then w1\<lparr>closing := True\<rparr>
         else if e_status e = 422 then
           (let (f, m) = serverFieldError env (e_message e) (code_text (e_code e)); w2 = w1\<lparr>w_errors := [(f, m)]\<rparr> in
            if f = General then w2
            else w2\<lparr>w_step := or_else (stepForField f) (w_step w2), w_focus := Some f\<rparr>)
         else w1\<lparr>w_errors := [(General, SetupFailed)]\<rparr>)"

definition status_checked :: "wizard \<Rightarrow> wizard" where
  "status_checked w = w\<lparr>closing := False, closed := True\<rparr>"

text \<open>A request ends once, so its outcomes only count while one is awaited.\<close>

fun wizard_step :: "locale_env \<Rightarrow> wizard \<Rightarrow> wizard_event \<Rightarrow> wizard" where
  "wizard_step env w (Update f s) = update f s w"
| "wizard_step env w (ToggleMPPT n) = toggleMPPT n w"
| "wizard_step env w Reveal = w\<lparr>revealSerial := \<not> revealSerial w\<rparr>"
| "wizard_step env w FormSubmit = form_submit env w"
| "wizard_step env w Back = go_back w"
| "wizard_step env w (Created token) = (if awaiting w then onSuccess token w else w)"
| "wizard_step env w (Refused error) = (if awaiting w then onError env error w else w)"
| "wizard_step env w StatusChecked = (if closing w then status_checked w else w)"

fun buttonLabel :: "nat \<Rightarrow> jsstring" where
  "buttonLabel n = (if n = 0 then js ''Continuar para o logger''
     else if n = 1 then js ''Continuar para os pain'' @ [0xE9] @ js ''is''
     else if n = 2 then js ''Continuar para local e tarifa''
     else if n = 3 then js ''Revisar configura'' @ [0xE7, 0xE3] @ js ''o''
     else js ''Criar Helio'')"

section \<open>The invariant\<close>

definition wizard_ok :: "wizard \<Rightarrow> bool" where
  "wizard_ok w \<longleftrightarrow> w_step w \<le> 4 \<and> (submissionStarted w \<longleftrightarrow> awaiting w \<or> finished w) \<and> \<not> (awaiting w \<and> finished w)
     \<and> list_all (\<lambda>p. settings_ok (p_settings p) \<and> account_ok p) (requests w)"

lemma failing_step_None: "failing_step env v cs = None \<longleftrightarrow> (\<forall>c \<in> set cs. validateStep env c v = [])"
  by (induction cs) (auto split: list.splits)

lemma failing_step_Some:
  "failing_step env v cs = Some (c, found) \<Longrightarrow> c \<in> set cs \<and> found \<noteq> [] \<and> validateStep env c v = found"
  by (induction cs) (auto split: list.splits)

text \<open>\<open>submit\<close> in its three ways: a step fails, a submission is under way, or a request is sent.\<close>

lemma submit_cases:
  obtains c found where "c \<in> {0, 1, 2, 3}" "found \<noteq> []" "validateStep env c (w_values w) = found"
      "submit env w = w\<lparr>w_errors := found, w_step := c, w_focus := Some (fst (hd found))\<rparr>"
  | "submissionStarted w" "submit env w = w\<lparr>w_errors := []\<rparr>"
  | p where "\<not> submissionStarted w" "\<forall>step < 4. validateStep env step (w_values w) = []"
      "toBootstrapPayload env (w_values w) = Inr p" "settings_ok (p_settings p)" "account_ok p"
      "submit env w = w\<lparr>w_errors := [], submissionStarted := True, awaiting := True, requests := requests w @ [p]\<rparr>"
proof (cases "failing_step env (w_values w) [0, 1, 2, 3]")
  case (Some r)
  obtain c found where r: "r = (c, found)" by force
  have "c \<in> set [0, 1, 2, 3] \<and> found \<noteq> [] \<and> validateStep env c (w_values w) = found"
    using Some r by (intro failing_step_Some) simp
  with that(1) [of c found] Some r show ?thesis by (simp add: submit_def)
next
  case None
  then have "\<forall>c \<in> set [0, 1, 2, 3]. validateStep env c (w_values w) = []" by (simp only: failing_step_None)
  then have four: "\<forall>step < 4. validateStep env step (w_values w) = []"
    by (auto simp: numeral_eq_Suc less_Suc_eq)
  from payload_built [OF four] obtain p where p: "toBootstrapPayload env (w_values w) = Inr p"
    "settings_ok (p_settings p)" "account_ok p" by blast
  show ?thesis
  proof (cases "submissionStarted w")
    case True
    with that(2) None show ?thesis by (simp add: submit_def Let_def)
  next
    case False
    with that(3) [OF False four p] None p(1) show ?thesis by (simp add: submit_def Let_def)
  qed
qed

lemma wizard_ok_submit: "wizard_ok w \<Longrightarrow> wizard_ok (submit env w)"
  by (cases rule: submit_cases [of env w]) (auto simp: wizard_ok_def)

lemma wizard_ok_error: "wizard_ok w \<Longrightarrow> awaiting w \<Longrightarrow> wizard_ok (onError env error w)"
  by (cases error)
    (auto simp: wizard_ok_def onError_def Let_def stepForField_def split: prod.splits option.splits if_splits)

lemma wizard_ok_step: "wizard_ok w \<Longrightarrow> wizard_ok (wizard_step env w e)"
proof (cases e)
  case FormSubmit
  assume w: "wizard_ok w"
  then show ?thesis using wizard_ok_submit [OF w]
    by (auto simp: FormSubmit form_submit_def advance_def Let_def wizard_ok_def stepNames_length_def split: list.splits)
qed (auto simp: wizard_ok_error, auto simp: wizard_ok_def update_def toggleMPPT_def go_back_def onSuccess_def status_checked_def)

lemma wizard_ok_initial: "wizard_ok (initial_wizard zone)"
  by (simp add: wizard_ok_def initial_wizard_def)

interpretation wizard: event_machine "wizard_step env" wizard_ok
  by unfold_locales (rule wizard_ok_step)

section \<open>How many requests\<close>

definition is_refusal :: "wizard_event \<Rightarrow> bool" where
  "is_refusal e = (case e of Refused _ \<Rightarrow> True | _ \<Rightarrow> False)"

text \<open>Requests sent, and the one that may still be sent.\<close>

definition budget :: "wizard \<Rightarrow> nat" where
  "budget w = length (requests w) + (if submissionStarted w then 0 else 1)"

lemma budget_submit: "budget (submit env w) = budget w"
  by (cases rule: submit_cases [of env w]) (simp_all add: budget_def)

lemma budget_step: "budget (wizard_step env w e) \<le> budget w + (if is_refusal e then 1 else 0)"
proof (cases e)
  case FormSubmit
  then show ?thesis by (auto simp: form_submit_def budget_submit) (auto simp: advance_def Let_def budget_def split: list.splits)
next
  case (Refused error)
  then show ?thesis
    by (cases error) (auto simp: budget_def is_refusal_def onError_def Let_def split: prod.splits)
qed (auto simp: budget_def update_def toggleMPPT_def go_back_def onSuccess_def status_checked_def)

lemma budget_run: "budget (foldl (wizard_step env) w es) \<le> budget w + length (filter is_refusal es)"
proof (induction es arbitrary: w)
  case (Cons e es)
  have "budget (foldl (wizard_step env) w (e # es)) \<le> budget (wizard_step env w e) + length (filter is_refusal es)"
    using Cons.IH by simp
  with budget_step [of env w e] show ?case by (cases "is_refusal e"; simp; linarith)
qed simp

section \<open>The property of the wizard\<close>

text \<open>
  C10. Whatever the user types, clicks and submits, and however the server answers: every request the
  wizard sends carries an account and settings within the server's bounds, at most one request is
  open at a time and never one after success, there is at most one request more than refusals, and
  the form is locked only while a request is open or the account exists, so a refusal always leaves
  it ready for another attempt.
\<close>

theorem wizard_safe:
  "let w = foldl (wizard_step env) (initial_wizard zone) es in
     list_all (\<lambda>p. settings_ok (p_settings p) \<and> account_ok p) (requests w)
     \<and> length (requests w) \<le> 1 + length (filter is_refusal es)
     \<and> submissionStarted w = (awaiting w \<or> finished w) \<and> (awaiting w, finished w) \<noteq> (True, True) \<and> w_step w \<le> 4"
proof -
  define w where "w = foldl (wizard_step env) (initial_wizard zone) es"
  have "wizard_ok w" unfolding w_def by (rule wizard.run_inv) (rule wizard_ok_initial)
  moreover have "budget w \<le> 1 + length (filter is_refusal es)"
    unfolding w_def using budget_run [of env "initial_wizard zone" es] by (simp add: budget_def initial_wizard_def)
  then have "length (requests w) \<le> 1 + length (filter is_refusal es)" by (simp add: budget_def)
  ultimately show ?thesis unfolding w_def [symmetric] Let_def by (simp add: wizard_ok_def)
qed

end
