(* ===== verification/SettingsEditor.thy ===== *)
theory SettingsEditor
  imports FormsCorrect Wizard
begin

text \<open>
  The settings page, \<open>web/src/features/settings/SettingsPage.tsx\<close>, as a machine: the component
  \<open>SettingsEditor\<close> with its asynchronous \<open>submit\<close>, the effect that detects changes made elsewhere, and
  the two ways out of a conflict.

  \<open>server\<close> is the prop \<open>initial\<close>, the settings the query cache holds. \<open>phase\<close> is where \<open>submit\<close> is
  waiting: for the confirmation of the password, for the update, or for the refetches; it keeps
  the values and the original that the running call has captured. \<open>calls\<close> records the calls and the
  confirmation that came back, newest first. The effect runs after every event here; React runs it
  when one of its inputs has changed, and it does nothing new when none has.
\<close>

datatype phase = Idle | Confirming settings settings | Updating settings | Refetching

datatype editor_status = NoStatus | Saved | ServerLoaded | EditsKept

datatype call_entry = AskPassword jsstring | PasswordConfirmed | PutSettings settings settings

record editor =
  original :: settings
  e_values :: settings_values
  e_errors :: errors
  currentPassword :: jsstring
  conflict :: "settings option"
  phase :: phase
  e_state :: editor_status
  server :: settings
  e_focus :: "field option"
  calls :: "call_entry list"

datatype editor_event = SetField field jsstring | ToggleInput jsnum | TypePassword jsstring | Save
  | ConfirmReply "failure option" | UpdateReply "failure + settings" | Refetched | ServerChanged settings
  | LoadServer | KeepEdits

definition open_editor :: "settings \<Rightarrow> editor" where
  "open_editor initial = \<lparr>original = initial, e_values = settingsToValues initial, e_errors = [], currentPassword = [],
     conflict = None, phase = Idle, e_state = NoStatus, server = initial, e_focus = None, calls = []\<rparr>"

definition saving :: "editor \<Rightarrow> bool" where
  "saving e \<longleftrightarrow> phase e \<noteq> Idle"

definition dirty :: "editor \<Rightarrow> bool" where
  "dirty e \<longleftrightarrow> \<not> sameSettingsValues (e_values e) (settingsToValues (original e))"

definition changedIdentity :: "editor \<Rightarrow> bool" where
  "changedIdentity e \<longleftrightarrow> loggerIdentityChanged (e_values e) (original e)"

definition conflict_effect :: "editor \<Rightarrow> editor" where
  "conflict_effect e = (if sameSettings (server e) (original e) then e
     else if dirty e \<or> saving e then e\<lparr>conflict := Some (server e)\<rparr>
     else e\<lparr>original := server e, e_values := settingsToValues (server e), conflict := None, e_errors := []\<rparr>)"

definition setField :: "field \<Rightarrow> jsstring \<Rightarrow> editor \<Rightarrow> editor" where
  "setField f s e = e\<lparr>e_values := set_settings_field f s (e_values e),
     e_errors := drop_error General (drop_error f (e_errors e)), e_state := NoStatus\<rparr>"

definition toggleInput :: "jsnum \<Rightarrow> editor \<Rightarrow> editor" where
  "toggleInput n e = (let xs = activeMPPT (e_values e) in
     e\<lparr>e_values := (e_values e)\<lparr>activeMPPT := (if n \<in> set xs then filter (\<lambda>i. \<not> jeq i n) xs else sort_text (xs @ [n]))\<rparr>,
       e_errors := drop_error General (drop_error ActiveMPPT (e_errors e))\<rparr>)"

definition typePassword :: "jsstring \<Rightarrow> editor \<Rightarrow> editor" where
  "typePassword s e = e\<lparr>currentPassword := s, e_errors := drop_error CurrentPassword (e_errors e)\<rparr>"

text \<open>\<open>submit\<close> up to its first \<open>await\<close>.\<close>

definition submit_errors :: "locale_env \<Rightarrow> editor \<Rightarrow> errors" where
  "submit_errors env e = (let found = validateSettings env (e_values e) in
     if changedIdentity e \<and> currentPassword e = [] then put CurrentPassword PasswordMissing found else found)"

definition save_settings :: "locale_env \<Rightarrow> editor \<Rightarrow> editor" where
  "save_settings env e = (if saving e then e
     else case submit_errors env e of
       (first, m) # rest \<Rightarrow> e\<lparr>e_errors := (first, m) # rest, e_focus := Some first\<rparr>
     | [] \<Rightarrow> let payload = valuesToSettings env (e_values e); e1 = e\<lparr>e_state := NoStatus, e_errors := []\<rparr> in
         if changedIdentity e
         then e1\<lparr>phase := Confirming payload (original e), calls := AskPassword (currentPassword e) # calls e1\<rparr>
         else e1\<lparr>phase := Updating payload, calls := PutSettings payload (original e) # calls e1\<rparr>)"

text \<open>The \<open>catch\<close> and the \<open>finally\<close>.\<close>

definition failed :: "locale_env \<Rightarrow> failure \<Rightarrow> editor \<Rightarrow> editor" where
  "failed env error e = (let e1 = e\<lparr>phase := Idle\<rparr> in
     case error of
       TypeFailure \<Rightarrow> e1\<lparr>e_errors := [(General, Unreachable)]\<rparr>
     | ApiFailure x \<Rightarrow>
         if e_status x = 422 then
           (let (f, m) = settingsServerError env (e_message x) (code_text (e_code x)) in e1\<lparr>e_errors := [(f, m)], e_focus := Some f\<rparr>)
         else if e_status x = 409 then e1\<lparr>e_errors := [(General, ChangedElsewhere)]\<rparr>
         else if e_status x = 401 then e1\<lparr>e_errors := [(CurrentPassword, PasswordRefused)]\<rparr>
         else e1\<lparr>e_errors := [(General, SaveFailed)]\<rparr>)"

definition updated :: "settings \<Rightarrow> editor \<Rightarrow> editor" where
  "updated saved e = e\<lparr>server := saved, original := saved, e_values := settingsToValues saved, currentPassword := [],
     conflict := None, e_state := Saved, phase := Refetching\<rparr>"

definition confirm_reply :: "locale_env \<Rightarrow> failure option \<Rightarrow> editor \<Rightarrow> editor" where
  "confirm_reply env r e = (case phase e of
       Confirming payload orig \<Rightarrow> (case r of
           Some error \<Rightarrow> failed env error e
         | None \<Rightarrow> e\<lparr>phase := Updating payload, calls := PutSettings payload orig # PasswordConfirmed # calls e\<rparr>)
     | _ \<Rightarrow> e)"

definition update_reply :: "locale_env \<Rightarrow> failure + settings \<Rightarrow> editor \<Rightarrow> editor" where
  "update_reply env r e = (case phase e of
       Updating payload \<Rightarrow> (case r of Inl error \<Rightarrow> failed env error e | Inr saved \<Rightarrow> updated saved e)
     | _ \<Rightarrow> e)"

text \<open>The two buttons of a conflict, disabled while saving.\<close>

definition loadServer :: "editor \<Rightarrow> editor" where
  "loadServer e = (case conflict e of
       Some c \<Rightarrow> if saving e then e
         else e\<lparr>original := c, e_values := settingsToValues c, currentPassword := [], conflict := None, e_errors := [],
           e_state := ServerLoaded\<rparr>
     | None \<Rightarrow> e)"

definition keepEdits :: "editor \<Rightarrow> editor" where
  "keepEdits e = (case conflict e of
       Some c \<Rightarrow> if saving e then e else e\<lparr>original := c, conflict := None, e_state := EditsKept\<rparr>
     | None \<Rightarrow> e)"

fun editor_act :: "locale_env \<Rightarrow> editor \<Rightarrow> editor_event \<Rightarrow> editor" where
  "editor_act env e (SetField f s) = setField f s e"
| "editor_act env e (ToggleInput n) = toggleInput n e"
| "editor_act env e (TypePassword s) = typePassword s e"
| "editor_act env e Save = save_settings env e"
| "editor_act env e (ConfirmReply r) = confirm_reply env r e"
| "editor_act env e (UpdateReply r) = update_reply env r e"
| "editor_act env e Refetched = (if phase e = Refetching then e\<lparr>phase := Idle\<rparr> else e)"
| "editor_act env e (ServerChanged st) = e\<lparr>server := st\<rparr>"
| "editor_act env e LoadServer = loadServer e"
| "editor_act env e KeepEdits = keepEdits e"

definition editor_step :: "locale_env \<Rightarrow> editor \<Rightarrow> editor_event \<Rightarrow> editor" where
  "editor_step env e ev = conflict_effect (editor_act env e ev)"

section \<open>Settings that pass the page's checks\<close>

text \<open>The identity of the logger, as the server compares it.\<close>

definition identity_differs :: "settings \<Rightarrow> settings \<Rightarrow> bool" where
  "identity_differs a b \<longleftrightarrow> s_loggerHost a \<noteq> s_loggerHost b \<or> s_loggerSerial a \<noteq> s_loggerSerial b
     \<or> \<not> jeq (s_loggerPort a) (s_loggerPort b) \<or> \<not> jeq (s_modbusSlave a) (s_modbusSlave b)"

lemma validated_settings:
  assumes "validateSettings env v = []"
  shows "settings_ok (valuesToSettings env v)"
    and "loggerIdentityChanged v st = identity_differs (valuesToSettings env v) st"
proof -
  have ok: "\<not> integer_below 1 (panelCount v)" "\<not> integer_below 1 (panelWattage v)"
    "\<not> power_above (panelCount v) (panelWattage v)" "activeMPPT v \<noteq> []" "validIPv4 (loggerHost v)"
    "validLoggerSerial (loggerSerial v)" "\<not> integer_outside 1 65535 (loggerPort v)" "\<not> integer_outside 1 247 (modbusSlave v)"
    "\<not> decimal_outside 90 (latitude v)" "\<not> decimal_outside 180 (longitude v)"
    "upper env (trim (currency v)) \<in> set HELIO_ISO_4217" "settings_tariffMinor (tariff v) \<noteq> None"
    "\<not> integer_outside 30 3650 (retentionDays v)"
    using assms by (simp_all add: validateSettings_def gather_Nil power_above_eq validLoggerSerial_def)
  obtain port where port: "integer (loggerPort v) = Some port" "nat_within 1 65535 port"
    using not_outside [of 1 65535 "loggerPort v"] ok(7) by auto
  obtain slave where slave: "integer (modbusSlave v) = Some slave" "nat_within 1 247 slave"
    using not_outside [of 1 247 "modbusSlave v"] ok(8) by auto
  obtain days where days: "integer (retentionDays v) = Some days" "nat_within 30 3650 days"
    using not_outside [of 30 3650 "retentionDays v"] ok(13) by auto
  obtain c where c: "integer (panelCount v) = Some (Fin (of_nat c))" "1 \<le> c"
    using not_below [of 1 "panelCount v"] ok(1) by auto
  obtain w where w: "integer (panelWattage v) = Some (Fin (of_nat w))" "1 \<le> w"
    using not_below [of 1 "panelWattage v"] ok(2) by auto
  have cw: "c * w \<le> 12000" by (rule power_product [OF ok(3) c(1) w(1) c(2) w(2)])
  obtain lat where lat: "decimal (latitude v) = Some (Fin lat)" "\<bar>lat\<bar> \<le> 90"
    using not_decimal_outside [OF ok(9)] by auto
  obtain long where long: "decimal (longitude v) = Some (Fin long)" "\<bar>long\<bar> \<le> 180"
    using not_decimal_outside [OF ok(10)] by auto
  obtain minor where minor: "settings_tariffMinor (tariff v) = Some minor" using ok(12) by auto
  have "nat_within 0 1000000000 minor" using minor tariffMinor_Some by (simp add: settings_tariffMinor_eq)
  then show "settings_ok (valuesToSettings env v)"
    using ok port slave days c w cw lat long minor
    by (simp add: settings_ok_def valuesToSettings_def number_within_def validIPv4_trim)
  show "loggerIdentityChanged v st = identity_differs (valuesToSettings env v) st"
    by (simp add: loggerIdentityChanged_def identity_differs_def valuesToSettings_def differs_def port slave)
qed

section \<open>The invariant\<close>

text \<open>
  Every update in the record holds settings the page has validated, and one that changes the
  logger's identity against the original it started from comes right after a confirmed password.
\<close>

fun guarded :: "call_entry list \<Rightarrow> bool" where
  "guarded [] = True"
| "guarded (PutSettings p orig # cs) = (settings_ok p \<and> guarded cs
     \<and> (identity_differs p orig \<longrightarrow> (\<exists>pw rest. cs = PasswordConfirmed # AskPassword pw # rest \<and> pw \<noteq> [])))"
| "guarded (c # cs) = guarded cs"

definition editor_ok :: "editor \<Rightarrow> bool" where
  "editor_ok e \<longleftrightarrow> guarded (calls e)
     \<and> (\<forall>p orig. phase e = Confirming p orig \<longrightarrow> settings_ok p \<and> (\<exists>pw rest. calls e = AskPassword pw # rest \<and> pw \<noteq> []))"

lemma editor_ok_save:
  assumes "editor_ok e"
  shows "editor_ok (save_settings env e)"
proof (cases "saving e \<or> submit_errors env e \<noteq> []")
  case True
  then show ?thesis using assms by (auto simp: save_settings_def editor_ok_def split: list.splits)
next
  case False
  have put_ne: "put k m es \<noteq> []" for k m and es :: errors by simp
  have valid: "validateSettings env (e_values e) = []" and pw: "changedIdentity e \<longrightarrow> currentPassword e \<noteq> []"
    using False by (auto simp: submit_errors_def Let_def split: if_splits)
  note facts = validated_settings [OF valid]
  show ?thesis
    using assms False pw facts(1) facts(2) [of "original e"]
    by (auto simp: save_settings_def editor_ok_def Let_def changedIdentity_def)
qed

lemma editor_ok_failed: "editor_ok e \<Longrightarrow> editor_ok (failed env error e)"
  by (cases error) (auto simp: editor_ok_def failed_def Let_def split: prod.splits)

lemma editor_ok_confirm: "editor_ok e \<Longrightarrow> editor_ok (confirm_reply env r e)"
  by (cases "phase e"; cases r) (auto simp: confirm_reply_def editor_ok_failed, auto simp: editor_ok_def)

lemma editor_ok_update: "editor_ok e \<Longrightarrow> editor_ok (update_reply env r e)"
  by (cases "phase e"; cases r) (auto simp: update_reply_def editor_ok_failed, auto simp: editor_ok_def updated_def)

lemma editor_ok_effect: "editor_ok (conflict_effect e) = editor_ok e"
  by (simp add: conflict_effect_def editor_ok_def)

lemma editor_ok_act: "editor_ok e \<Longrightarrow> editor_ok (editor_act env e ev)"
proof (cases ev)
  case Save
  then show "editor_ok e \<Longrightarrow> ?thesis" by (simp add: editor_ok_save)
next
  case (ConfirmReply r)
  then show "editor_ok e \<Longrightarrow> ?thesis" by (simp add: editor_ok_confirm)
next
  case (UpdateReply r)
  then show "editor_ok e \<Longrightarrow> ?thesis" by (simp add: editor_ok_update)
qed (auto simp: editor_ok_def setField_def toggleInput_def Let_def typePassword_def loadServer_def keepEdits_def
    split: option.splits)

interpretation editor: event_machine "editor_step env" editor_ok
  by unfold_locales (simp add: editor_step_def editor_ok_effect editor_ok_act)

lemma editor_ok_initial: "editor_ok (open_editor st)"
  by (simp add: editor_ok_def open_editor_def)

lemma guarded_split:
  "guarded (newer @ PutSettings p orig # older) \<Longrightarrow> settings_ok p
    \<and> (identity_differs p orig \<longrightarrow> (\<exists>pw rest. older = PasswordConfirmed # AskPassword pw # rest \<and> pw \<noteq> []))"
proof (induction newer)
  case (Cons c newer)
  then show ?case by (cases c) simp_all
qed simp

section \<open>Edits and conflicts\<close>

text \<open>A change made elsewhere never replaces edits: it waits in \<open>conflict\<close> for a decision.\<close>

lemma edits_survive_server_change:
  assumes "dirty e" "\<not> sameSettings st (original e)"
  shows "e_values (editor_step env e (ServerChanged st)) = e_values e
    \<and> conflict (editor_step env e (ServerChanged st)) = Some st"
  using assms by (simp add: editor_step_def conflict_effect_def dirty_def)

text \<open>An edit made while the update is under way does not survive its success.\<close>

lemma save_discards_edits:
  assumes "phase e = Updating p"
  shows "e_values (editor_act env (editor_act env e (SetField f s)) (UpdateReply (Inr saved))) = settingsToValues saved"
  using assms by (simp add: setField_def update_reply_def updated_def)

section \<open>The property of the editor\<close>

text \<open>
  C8. Whatever happens on the settings page, and in whatever order, every update it sends holds
  settings within the server's bounds, and an update that changes the identity of the logger comes
  directly after the server has confirmed a password that was not empty.
\<close>

theorem editor_guarded:
  assumes "calls (foldl (editor_step env) (open_editor st) es) = newer @ PutSettings p orig # older"
  shows "settings_ok p
    \<and> (identity_differs p orig \<longrightarrow> (\<exists>pw rest. older = PasswordConfirmed # AskPassword pw # rest \<and> pw \<noteq> []))"
proof -
  have "editor_ok (foldl (editor_step env) (open_editor st) es)" by (rule editor.run_inv) (rule editor_ok_initial)
  then have "guarded (newer @ PutSettings p orig # older)" by (simp add: editor_ok_def assms)
  then show ?thesis by (rule guarded_split)
qed

lemma editor_guarded_witness:
  "\<exists>p. calls (foldl (editor_step sample_env) (open_editor sample_settings)
      [SetField LoggerHost (js ''192.168.0.8''), TypePassword (js ''secret''), Save, ConfirmReply None])
    = [PutSettings p sample_settings, PasswordConfirmed, AskPassword (js ''secret'')] \<and> settings_ok p"
proof -
  define v where "v = (settingsToValues sample_settings)\<lparr>loggerHost := js ''192.168.0.8''\<rparr>"
  define p where "p = valuesToSettings sample_env v"
  have ip: "validIPv4 (js ''192.168.0.8'')" by code_simp
  have "validateSettings sample_env (settingsToValues sample_settings) = []"
    using settings_shown [OF sample_showable] by blast
  then have valid: "validateSettings sample_env v = []" using ip by (simp add: validateSettings_def gather_Nil v_def)
  have "loggerHost v \<noteq> s_loggerHost sample_settings" by (simp add: v_def sample_settings_def js_inj)
  then have changed: "loggerIdentityChanged v sample_settings"
    using validIPv4_trim [OF ip] by (simp add: loggerIdentityChanged_def v_def)
  have run: "calls (foldl (editor_step sample_env) (open_editor sample_settings)
      [SetField LoggerHost (js ''192.168.0.8''), TypePassword (js ''secret''), Save, ConfirmReply None])
    = [PutSettings p sample_settings, PasswordConfirmed, AskPassword (js ''secret'')]"
    using valid changed
    by (simp add: editor_step_def conflict_effect_def sameSettings_def sameSettingsValues_def open_editor_def setField_def
        typePassword_def save_settings_def saving_def submit_errors_def Let_def changedIdentity_def confirm_reply_def p_def
        v_def [symmetric])
  have "calls (foldl (editor_step sample_env) (open_editor sample_settings)
      [SetField LoggerHost (js ''192.168.0.8''), TypePassword (js ''secret''), Save, ConfirmReply None])
    = [] @ PutSettings p sample_settings # [PasswordConfirmed, AskPassword (js ''secret'')]"
    unfolding run by simp
  from editor_guarded [OF this] run show ?thesis by blast
qed

end
