(* ===== verification/Theme.thy ===== *)
theory Theme
  imports Prelude
begin

text \<open>
  The theme of the interface: the script that runs before the application
  (\<open>web/public/theme-init.js\<close>), the provider (\<open>web/src/app/theme.tsx\<close>) as a machine, and the menu
  (\<open>web/src/components/layout/ThemeToggle.tsx\<close>).

  Local storage and the media query are the browser's: reading may throw, writing may throw, and
  the preference of the system changes when it wants to.
\<close>

section \<open>Choices\<close>

datatype theme_choice = System | Light | Dark

datatype resolved_theme = LightTheme | DarkTheme

text \<open>What reading the storage gives: it throws, or there is no value, or a string.\<close>

datatype stored = StorageThrows | Missing | Stored jsstring

definition choice_of :: "jsstring \<Rightarrow> theme_choice option" where
  "choice_of s = (if s = js ''light'' then Some Light else if s = js ''dark'' then Some Dark
     else if s = js ''system'' then Some System else None)"

definition choice_text :: "theme_choice \<Rightarrow> jsstring" where
  "choice_text c = (case c of System \<Rightarrow> js ''system'' | Light \<Rightarrow> js ''light'' | Dark \<Rightarrow> js ''dark'')"

definition storedTheme :: "stored \<Rightarrow> theme_choice" where
  "storedTheme st = (case st of StorageThrows \<Rightarrow> System | Missing \<Rightarrow> System
     | Stored s \<Rightarrow> (case choice_of s of None \<Rightarrow> System | Some c \<Rightarrow> c))"

definition systemTheme :: "bool \<Rightarrow> resolved_theme" where
  "systemTheme dark = (if dark then DarkTheme else LightTheme)"

definition resolve :: "bool \<Rightarrow> theme_choice \<Rightarrow> resolved_theme" where
  "resolve dark c = (case c of System \<Rightarrow> systemTheme dark | Light \<Rightarrow> LightTheme | Dark \<Rightarrow> DarkTheme)"

section \<open>The script before the application\<close>

text \<open>\<open>choice\<close> starts as \<open>'system'\<close>; \<open>dark\<close> is \<open>None\<close> when \<open>matchMedia\<close> throws.\<close>

definition theme_init :: "stored \<Rightarrow> bool option \<Rightarrow> jsstring" where
  "theme_init st dark =
     (let choice = (case st of StorageThrows \<Rightarrow> js ''system'' | Missing \<Rightarrow> js ''system''
        | Stored s \<Rightarrow> if s = js ''light'' \<or> s = js ''dark'' \<or> s = js ''system'' then s else js ''system'');
      isDark = (case dark of None \<Rightarrow> False | Some d \<Rightarrow> d) in
      if choice = js ''system'' then (if isDark then js ''dark'' else js ''light'') else choice)"

section \<open>The provider\<close>

text \<open>
  The state of the provider and what it touches: \<open>listening\<close> tells whether a listener of the media
  query is registered, \<open>dataset\<close> is the attribute on the document.
\<close>

record provider =
  theme :: theme_choice
  resolvedTheme :: resolved_theme
  listening :: bool
  prefers_dark :: bool
  storage :: stored
  dataset :: resolved_theme

datatype theme_event =
    SetTheme theme_choice bool
  | PreferenceChanged bool

text \<open>The effect on a change of \<open>theme\<close>, and the layout effect.\<close>

definition theme_effect :: "provider \<Rightarrow> provider" where
  "theme_effect p = (let r = resolve (prefers_dark p) (theme p) in
     p\<lparr>resolvedTheme := r, listening := (theme p = System), dataset := r\<rparr>)"

definition ThemeProvider :: "stored \<Rightarrow> bool \<Rightarrow> provider" where
  "ThemeProvider st dark = (let c = storedTheme st in
     theme_effect \<lparr>theme = c, resolvedTheme = (if c = System then systemTheme dark else resolve dark c), listening = False,
       prefers_dark = dark, storage = st, dataset = (if c = System then systemTheme dark else resolve dark c)\<rparr>)"

text \<open>\<open>setTheme\<close>: the flag tells whether writing to the storage succeeds. React runs the effect when \<open>theme\<close> changes.\<close>

definition setTheme :: "theme_choice \<Rightarrow> bool \<Rightarrow> provider \<Rightarrow> provider" where
  "setTheme c writes p = (let q = (if writes then p\<lparr>storage := Stored (choice_text c)\<rparr> else p) in
     if c = theme q then q else theme_effect (q\<lparr>theme := c\<rparr>))"

fun theme_step :: "provider \<Rightarrow> theme_event \<Rightarrow> provider" where
  "theme_step p (SetTheme c writes) = setTheme c writes p"
| "theme_step p (PreferenceChanged dark) = (let q = p\<lparr>prefers_dark := dark\<rparr> in
     if listening q then (let r = resolve dark (theme q) in q\<lparr>resolvedTheme := r, dataset := r\<rparr>) else q)"

section \<open>The menu\<close>

definition choices :: "theme_choice list" where
  "choices = [System, Light, Dark]"

datatype menu_key = ArrowDown | ArrowUp | Home | End | Escape | OtherKey

text \<open>\<open>focused\<close> is the index of the active element among the options, \<open>-1\<close> when it is none of them.\<close>

record menu =
  open_menu :: bool
  focusIndex :: int
  focused :: int
  trigger_focused :: bool

text \<open>\<open>choices.findIndex((choice) => choice.value === theme)\<close>.\<close>

definition selected_index :: "theme_choice \<Rightarrow> int" where
  "selected_index c = (case c of System \<Rightarrow> 0 | Light \<Rightarrow> 1 | Dark \<Rightarrow> 2)"

definition menu_initial :: "theme_choice \<Rightarrow> menu" where
  "menu_initial c = \<lparr>open_menu = False, focusIndex = selected_index c, focused = -1, trigger_focused = False\<rparr>"

definition open_effect :: "theme_choice \<Rightarrow> menu \<Rightarrow> menu" where
  "open_effect c m = (let selected = selected_index c in
     if open_menu m then m\<lparr>focusIndex := selected, focused := selected, trigger_focused := False\<rparr> else m)"

definition closeAndRestoreFocus :: "menu \<Rightarrow> menu" where
  "closeAndRestoreFocus m = m\<lparr>open_menu := False, focused := -1, trigger_focused := True\<rparr>"

definition toggle_menu :: "theme_choice \<Rightarrow> menu \<Rightarrow> menu" where
  "toggle_menu c m = (if open_menu m then m\<lparr>open_menu := False, focused := -1\<rparr> else open_effect c (m\<lparr>open_menu := True\<rparr>))"

definition choose_theme :: "nat \<Rightarrow> bool \<Rightarrow> provider \<times> menu \<Rightarrow> provider \<times> menu" where
  "choose_theme index writes pm = (setTheme (choices ! index) writes (fst pm), closeAndRestoreFocus (snd pm))"

text \<open>\<open>(current + 1) % 3\<close> and \<open>(current - 1 + 3) % 3\<close>, whose operands are never negative here.\<close>

definition handleMenuKeyDown :: "menu_key \<Rightarrow> menu \<Rightarrow> menu" where
  "handleMenuKeyDown key m = (let move = (\<lambda>n. m\<lparr>focusIndex := n, focused := n\<rparr>) in
     case key of
       ArrowDown \<Rightarrow> move ((focused m + 1) mod 3)
     | ArrowUp \<Rightarrow> move ((focused m - 1 + 3) mod 3)
     | Home \<Rightarrow> move 0
     | End \<Rightarrow> move 2
     | Escape \<Rightarrow> closeAndRestoreFocus m
     | OtherKey \<Rightarrow> m)"

text \<open>The listener of \<open>pointerdown\<close> while the menu is open: outside of it, it closes.\<close>

definition pointer_down :: "bool \<Rightarrow> menu \<Rightarrow> menu" where
  "pointer_down inside m = (if open_menu m \<and> \<not> inside then m\<lparr>open_menu := False, focused := -1\<rparr> else m)"

text \<open>
  The menu with the provider. Keys reach the menu from the option that has the focus; the focus may
  leave an open menu, and comes back to the option with \<open>tabIndex\<close> 0. A change of the theme while the
  menu is open runs its effect again. A press of the mouse on an option is its click here: that it
  focuses the option before, also when the button is let go elsewhere, is the browser's doing and not
  modelled.
\<close>

datatype menu_event = TriggerClick | MenuKey menu_key | OptionClick nat bool | PointerDown bool
  | FocusLeaves | FocusReturns | ThemeEvent theme_event

fun menu_step :: "provider \<times> menu \<Rightarrow> menu_event \<Rightarrow> provider \<times> menu" where
  "menu_step (p, m) TriggerClick = (p, toggle_menu (theme p) m)"
| "menu_step (p, m) (MenuKey k) = (p, if open_menu m \<and> 0 \<le> focused m then handleMenuKeyDown k m else m)"
| "menu_step (p, m) (OptionClick i writes) = (if open_menu m \<and> i < length choices then choose_theme i writes (p, m) else (p, m))"
| "menu_step (p, m) (PointerDown inside) = (p, pointer_down inside m)"
| "menu_step (p, m) FocusLeaves = (p, m\<lparr>focused := -1\<rparr>)"
| "menu_step (p, m) FocusReturns = (p, if open_menu m then m\<lparr>focused := focusIndex m\<rparr> else m)"
| "menu_step (p, m) (ThemeEvent e) = (let q = theme_step p e in
     (q, if theme q \<noteq> theme p then open_effect (theme q) m else m))"

section \<open>Facts\<close>

definition theme_text :: "resolved_theme \<Rightarrow> jsstring" where
  "theme_text r = (case r of LightTheme \<Rightarrow> js ''light'' | DarkTheme \<Rightarrow> js ''dark'')"

lemma theme_effect_simps [simp]:
  "theme (theme_effect p) = theme p" "resolvedTheme (theme_effect p) = resolve (prefers_dark p) (theme p)"
  "listening (theme_effect p) = (theme p = System)" "prefers_dark (theme_effect p) = prefers_dark p"
  "storage (theme_effect p) = storage p" "dataset (theme_effect p) = resolve (prefers_dark p) (theme p)"
  by (simp_all add: theme_effect_def Let_def)

lemma choice_of_text [simp]: "choice_of (choice_text c) = Some c"
  by (cases c) (simp_all add: choice_of_def choice_text_def js_inj)

lemma theme_init_resolve: "theme_init st (Some dark) = theme_text (resolve dark (storedTheme st))"
  by (auto simp: theme_init_def storedTheme_def choice_of_def resolve_def systemTheme_def theme_text_def js_inj
      split: stored.split)

lemma theme_init_throws: "theme_init st None = theme_init st (Some False)"
  by (simp add: theme_init_def)

text \<open>The invariant of the provider: what is on the document is the theme of the choice.\<close>

definition theme_ok :: "provider \<Rightarrow> bool" where
  "theme_ok p \<longleftrightarrow> dataset p = resolve (prefers_dark p) (theme p) \<and> resolvedTheme p = dataset p
     \<and> (listening p \<longleftrightarrow> theme p = System)"

lemma theme_ok_initial: "theme_ok (ThemeProvider st dark)"
  by (simp add: theme_ok_def ThemeProvider_def Let_def)

lemma theme_ok_step: "theme_ok p \<Longrightarrow> theme_ok (theme_step p e)"
  by (cases e) (auto simp: theme_ok_def setTheme_def Let_def resolve_def split: theme_choice.splits)

interpretation theme: event_machine theme_step theme_ok
  by unfold_locales (rule theme_ok_step)

text \<open>The last choice, and what the storage will give a new page.\<close>

fun last_choice :: "theme_choice \<Rightarrow> theme_event list \<Rightarrow> theme_choice" where
  "last_choice c [] = c"
| "last_choice c (SetTheme d writes # es) = last_choice d es"
| "last_choice c (PreferenceChanged dark # es) = last_choice c es"

lemma theme_run: "theme (foldl theme_step p es) = last_choice (theme p) es"
  by (induction "theme p" es arbitrary: p rule: last_choice.induct) (auto simp: setTheme_def Let_def)

definition always_writes :: "theme_event \<Rightarrow> bool" where
  "always_writes e = (case e of SetTheme c writes \<Rightarrow> writes | PreferenceChanged dark \<Rightarrow> True)"

lemma stored_run:
  "list_all always_writes es \<Longrightarrow> storedTheme (storage p) = theme p
    \<Longrightarrow> storedTheme (storage (foldl theme_step p es)) = theme (foldl theme_step p es)"
proof (induction es arbitrary: p)
  case (Cons e es)
  have "storedTheme (storage (theme_step p e)) = theme (theme_step p e)"
    using Cons.prems by (cases e) (auto simp: always_writes_def setTheme_def Let_def storedTheme_def)
  with Cons show ?case by simp
qed simp

text \<open>The invariant of the menu: an option holds the focus, or none, and that option is the one with \<open>tabIndex\<close> 0.\<close>

definition menu_ok :: "menu \<Rightarrow> bool" where
  "menu_ok m \<longleftrightarrow> 0 \<le> focusIndex m \<and> focusIndex m < 3 \<and> (focused m = -1 \<or> open_menu m \<and> focused m = focusIndex m)"

lemma selected_index_bounds [simp]: "0 \<le> selected_index c" "selected_index c < 3"
  by (simp_all add: selected_index_def split: theme_choice.split)

lemma choices_selected [simp]: "choices ! nat (selected_index c) = c"
  by (simp add: choices_def selected_index_def split: theme_choice.split)

lemma choices_index: "i < 3 \<Longrightarrow> selected_index (choices ! i) = int i"
  by (auto simp: choices_def selected_index_def less_Suc_eq numeral_3_eq_3)

lemma menu_ok_initial: "menu_ok (menu_initial c)"
  by (simp add: menu_ok_def menu_initial_def)

lemma menu_ok_open: "menu_ok m \<Longrightarrow> menu_ok (open_effect c m)"
  by (auto simp: menu_ok_def open_effect_def Let_def)

lemma menu_ok_key: "menu_ok m \<Longrightarrow> open_menu m \<Longrightarrow> menu_ok (handleMenuKeyDown k m)"
  by (cases k) (auto simp: handleMenuKeyDown_def menu_ok_def closeAndRestoreFocus_def Let_def)

lemma menu_ok_step: "menu_ok (snd pm) \<Longrightarrow> menu_ok (snd (menu_step pm e))"
proof (induction pm e rule: menu_step.induct)
  case (1 p m)
  then show ?case using menu_ok_open [of "m\<lparr>open_menu := True\<rparr>"] by (auto simp: toggle_menu_def menu_ok_def)
next
  case (2 p m k)
  then show ?case by (simp add: menu_ok_key)
next
  case (7 p m e)
  then show ?case by (simp add: Let_def menu_ok_open)
qed (auto simp: menu_ok_def choose_theme_def closeAndRestoreFocus_def pointer_down_def)

lemma menu_provider_ok: "theme_ok (fst pm) \<Longrightarrow> theme_ok (fst (menu_step pm e))"
  using theme_ok_step [of "fst pm" "SetTheme c w" for c w]
  by (induction pm e rule: menu_step.induct) (simp_all add: choose_theme_def theme_ok_step Let_def)

interpretation menu: event_machine menu_step "\<lambda>pm. theme_ok (fst pm) \<and> menu_ok (snd pm)"
  by unfold_locales (simp add: menu_ok_step menu_provider_ok)

section \<open>The first paint\<close>

text \<open>
  C38. The script that paints before the application agrees with it: on the page itself the provider
  starts with the theme the script has painted, and after any choices and changes of the system's
  preference a reload paints exactly the theme the application was showing, as long as the storage
  accepts the writes.
\<close>

theorem theme_first_paint:
  assumes "list_all always_writes es" and "p = foldl theme_step (ThemeProvider st dark) es"
  shows "theme_init st (Some dark) = theme_text (dataset (ThemeProvider st dark))
    \<and> theme_init (storage p) (Some (prefers_dark p)) = theme_text (dataset p)
    \<and> theme p = last_choice (storedTheme st) es"
proof -
  have start: "storage (ThemeProvider st dark) = st" "theme (ThemeProvider st dark) = storedTheme st"
    "prefers_dark (ThemeProvider st dark) = dark"
    by (simp_all add: ThemeProvider_def Let_def)
  have "theme_ok p" unfolding assms(2) by (rule theme.run_inv) (rule theme_ok_initial)
  moreover have "storedTheme (storage p) = theme p" unfolding assms(2) by (rule stored_run) (simp_all add: assms(1) start)
  moreover have "theme_ok (ThemeProvider st dark)" by (rule theme_ok_initial)
  moreover have "theme p = last_choice (storedTheme st) es" unfolding assms(2) theme_run start ..
  ultimately show ?thesis by (simp add: theme_init_resolve theme_ok_def start)
qed

lemma theme_first_paint_witness:
  "theme_init (storage (foldl theme_step (ThemeProvider Missing False) [PreferenceChanged True, SetTheme Light True, SetTheme System True]))
     (Some True) = js ''dark''"
proof -
  let ?es = "[PreferenceChanged True, SetTheme Light True, SetTheme System True]"
  have ok: "list_all always_writes ?es" by (simp add: always_writes_def)
  define p where "p = foldl theme_step (ThemeProvider Missing False) ?es"
  have "prefers_dark p = True" "dataset p = DarkTheme" unfolding p_def by code_simp+
  with theme_first_paint [OF ok p_def] show ?thesis unfolding p_def [symmetric] by (simp add: theme_text_def)
qed

end
