(* ===== verification/Steps.thy ===== *)
theory Steps
  imports Forms Markup
begin

text \<open>
  The pages of the onboarding wizard, \<open>web/src/features/onboarding/steps.tsx\<close>: the progress line, the
  five steps and the field components, with the texts of the messages (\<open>schema.ts\<close>,
  \<open>settings-model.ts\<close>).

  A step takes what its component takes: the errors, the values and what a change does (\<open>upd\<close>). The
  main lemmas: \<open>step_ok\<close>, every step refers only to elements it has; \<open>step_shows\<close>, a step shows the
  message of each of its fields and ties it to the input; \<open>review_hides\<close>, what the review shows of
  the secrets.

  Parameters: \<open>kwp\<close>, the format of \<open>Intl.NumberFormat\<close> with two decimals; \<open>locale_env\<close> for
  \<open>toUpperCase\<close>.
\<close>

section \<open>Names of the fields and texts of the messages\<close>

primrec field_name :: "field \<Rightarrow> jsstring" where
  "field_name Username = js ''username''"
| "field_name Password = js ''password''"
| "field_name ConfirmPassword = js ''confirmPassword''"
| "field_name LoggerHost = js ''loggerHost''"
| "field_name LoggerSerial = js ''loggerSerial''"
| "field_name LoggerPort = js ''loggerPort''"
| "field_name ModbusSlave = js ''modbusSlave''"
| "field_name PanelCount = js ''panelCount''"
| "field_name PanelWattage = js ''panelWattage''"
| "field_name ActiveMPPT = js ''activeMPPT''"
| "field_name Latitude = js ''latitude''"
| "field_name Longitude = js ''longitude''"
| "field_name Timezone = js ''timezone''"
| "field_name Currency = js ''currency''"
| "field_name Tariff = js ''tariff''"
| "field_name RetentionDays = js ''retentionDays''"
| "field_name CurrentPassword = js ''currentPassword''"
| "field_name General = js ''general''"

definition refused :: jsstring where
  "refused = jsx ''N&atilde;o foi poss&iacute;vel criar o Helio. Revise os dados e tente novamente.''"

primrec server_text :: "field \<Rightarrow> jsstring" where
  "server_text Password = jsx ''A senha precisa ter ao menos 12 caracteres e no m&aacute;ximo 128 bytes.''"
| "server_text LoggerHost = jsx ''O servidor recusou o endere&ccedil;o IPv4 do logger.''"
| "server_text LoggerSerial = jsx ''Informe um n&uacute;mero de s&eacute;rie decimal uint32 v&aacute;lido.''"
| "server_text LoggerPort = jsx ''Informe uma porta entre 1 e 65535.''"
| "server_text ModbusSlave = jsx ''Informe um endere&ccedil;o Modbus entre 1 e 247.''"
| "server_text PanelCount = jsx ''Revise a quantidade e a pot&ecirc;ncia total instalada.''"
| "server_text PanelWattage = jsx ''Revise a pot&ecirc;ncia por painel.''"
| "server_text ActiveMPPT = jsx ''Mantenha ao menos uma entrada PV v&aacute;lida ativa.''"
| "server_text Latitude = jsx ''Informe uma latitude entre -90 e 90.''"
| "server_text Longitude = jsx ''Informe uma longitude entre -180 e 180.''"
| "server_text Timezone = jsx ''O servidor n&atilde;o reconheceu esse fuso IANA.''"
| "server_text Currency = jsx ''O servidor n&atilde;o reconheceu essa moeda ISO 4217.''"
| "server_text Tariff = jsx ''O servidor recusou essa tarifa.''"
| "server_text RetentionDays = jsx ''Escolha uma reten&ccedil;&atilde;o entre 30 e 3650 dias.''"
| "server_text Username = refused"
| "server_text ConfirmPassword = refused"
| "server_text CurrentPassword = refused"
| "server_text General = refused"

primrec message_text :: "message \<Rightarrow> jsstring" where
  "message_text UsernameMissing = jsx ''Informe o usu&aacute;rio administrador.''"
| "message_text PasswordShort = jsx ''Use pelo menos 12 caracteres Unicode.''"
| "message_text PasswordLong = jsx ''Use no m&aacute;ximo 128 bytes.''"
| "message_text PasswordsDiffer = jsx ''As senhas precisam ser iguais.''"
| "message_text HostInvalid = jsx ''Use um endere&ccedil;o IPv4 v&aacute;lido; 192.0.2.1 &eacute; apenas um exemplo de formato.''"
| "message_text SerialInvalid = jsx ''Informe um n&uacute;mero de s&eacute;rie decimal uint32 (at&eacute; 4294967295).''"
| "message_text SerialRefused = jsx ''Informe um n&uacute;mero de s&eacute;rie decimal uint32 v&aacute;lido.''"
| "message_text PortInvalid = jsx ''Informe uma porta inteira entre 1 e 65535.''"
| "message_text SlaveInvalid = jsx ''Informe um endere&ccedil;o Modbus inteiro entre 1 e 247.''"
| "message_text CountInvalid = jsx ''Informe uma quantidade inteira positiva de pain&eacute;is.''"
| "message_text WattageInvalid = jsx ''Informe uma pot&ecirc;ncia inteira positiva por painel.''"
| "message_text PowerTooHigh = jsx ''A pot&ecirc;ncia instalada n&atilde;o pode superar 12 kW.''"
| "message_text NoInput = jsx ''Mantenha ao menos uma entrada PV ativa.''"
| "message_text LatitudeInvalid = jsx ''Informe uma latitude finita entre -90 e 90.''"
| "message_text LongitudeInvalid = jsx ''Informe uma longitude finita entre -180 e 180.''"
| "message_text TimezoneInvalid = jsx ''Use um fuso IANA real, como America/Sao_Paulo.''"
| "message_text CurrencyInvalid = jsx ''Use um c&oacute;digo de moeda ISO 4217, como BRL.''"
| "message_text CurrencyRefused = jsx ''Use uma moeda aceita pelo Helio, como BRL.''"
| "message_text TariffInvalid = jsx ''Use uma tarifa n&atilde;o negativa com no m&aacute;ximo duas casas decimais.''"
| "message_text RetentionInvalid = jsx ''Escolha um n&uacute;mero inteiro entre 30 e 3650 dias.''"
| "message_text (ServerRefused f) = server_text f"
| "message_text SettingsRefused = jsx ''O servidor recusou as configura&ccedil;&otilde;es. Revise os campos e tente novamente.''"
| "message_text PasswordMissing = jsx ''Informe a senha atual para alterar a identidade do logger.''"
| "message_text PasswordRefused = jsx ''A senha atual n&atilde;o foi confirmada. Tente novamente.''"
| "message_text ChangedElsewhere = jsx ''As configura&ccedil;&otilde;es mudaram em outra sess&atilde;o. Recarregue e tente novamente.''"
| "message_text Unreachable = jsx ''N&atilde;o foi poss&iacute;vel alcan&ccedil;ar o Helio. Verifique a conex&atilde;o e tente novamente.''"
| "message_text SaveFailed = jsx ''O Helio n&atilde;o conseguiu salvar as configura&ccedil;&otilde;es. Tente novamente.''"
| "message_text SetupFailed = jsx ''N&atilde;o foi poss&iacute;vel concluir a configura&ccedil;&atilde;o. Os dados foram mantidos; tente novamente.''"

definition error_text :: "errors \<Rightarrow> field \<Rightarrow> jsstring option" where
  "error_text es f = map_option message_text (map_of es f)"

definition hint_id :: "field \<Rightarrow> jsstring" where
  "hint_id f = field_name f @ js ''-hint''"

definition error_id :: "field \<Rightarrow> jsstring" where
  "error_id f = field_name f @ js ''-error''"

section \<open>The field components\<close>

text \<open>\<open>values[field]\<close> of the fields that hold a text.\<close>

primrec settings_text :: "field \<Rightarrow> 'a settings_values_scheme \<Rightarrow> jsstring" where
  "settings_text Currency v = currency v"
| "settings_text Latitude v = latitude v"
| "settings_text LoggerHost v = loggerHost v"
| "settings_text LoggerPort v = loggerPort v"
| "settings_text LoggerSerial v = loggerSerial v"
| "settings_text Longitude v = longitude v"
| "settings_text ModbusSlave v = modbusSlave v"
| "settings_text PanelCount v = panelCount v"
| "settings_text PanelWattage v = panelWattage v"
| "settings_text RetentionDays v = retentionDays v"
| "settings_text Tariff v = tariff v"
| "settings_text Timezone v = timezone v"
| "settings_text Username v = []"
| "settings_text Password v = []"
| "settings_text ConfirmPassword v = []"
| "settings_text ActiveMPPT v = []"
| "settings_text CurrentPassword v = []"
| "settings_text General v = []"

definition onboarding_text :: "field \<Rightarrow> onboarding_values \<Rightarrow> jsstring" where
  "onboarding_text f v = (case f of Username \<Rightarrow> username v | Password \<Rightarrow> password v | ConfirmPassword \<Rightarrow> confirmPassword v
     | _ \<Rightarrow> settings_text f v)"

fun describeInputs :: "jsstring option \<Rightarrow> bool \<Rightarrow> 'e node \<Rightarrow> 'e node" where
  "describeInputs describedBy invalid (Txt s) = Txt s"
| "describeInputs describedBy invalid (El t as hs ns) =
     (if t = Input
      then El t (set_attr Invalid (if invalid then Some (js ''true'') else None) (set_attr DescribedBy describedBy as)) hs ns
      else El t as hs (map (describeInputs describedBy invalid) ns))"

definition described_by :: "field \<Rightarrow> bool \<Rightarrow> bool \<Rightarrow> jsstring option" where
  "described_by f hint err = (let parts = only_if hint [hint_id f] @ only_if err [error_id f] in
     if parts = [] then None else Some (join [32] parts))"

definition error_note :: "errors \<Rightarrow> field \<Rightarrow> 'e node list" where
  "error_note es f = (case error_text es f of None \<Rightarrow> [] | Some m \<Rightarrow> [El Paragraph [(Id, error_id f)] [] [Txt m]])"

definition form_field :: "errors \<Rightarrow> field \<Rightarrow> (attr \<times> jsstring) list" where
  "form_field es f = [(ClassName, js ''form-field'' @ (if error_text es f \<noteq> None then js '' has-error'' else []))]"

definition Field :: "errors \<Rightarrow> field \<Rightarrow> jsstring \<Rightarrow> jsstring option \<Rightarrow> 'e node \<Rightarrow> 'e node" where
  "Field es f label hint child = El Div (form_field es f) []
     ([El Label [(For, field_name f)] [] [Txt label]]
      @ (case hint of None \<Rightarrow> [] | Some h \<Rightarrow> [El Paragraph [(Id, hint_id f)] [] [Txt h]])
      @ [El Div [] [] [describeInputs (described_by f (hint \<noteq> None) (error_text es f \<noteq> None)) (error_text es f \<noteq> None) child]]
      @ error_note es f)"

text \<open>An input that is bound to a field: its identifier and name, its value, what a change does.\<close>

definition bound_input :: "field \<Rightarrow> (attr \<times> jsstring) list \<Rightarrow> jsstring \<Rightarrow> (jsstring \<Rightarrow> 'e) \<Rightarrow> 'e node" where
  "bound_input f extra v change = El Input ([(Id, field_name f), (Name, field_name f), (Value, v)] @ extra) [(OnChange, change)] []"

definition NumberField :: "errors \<Rightarrow> (field \<Rightarrow> jsstring \<Rightarrow> 'e) \<Rightarrow> 'a settings_values_scheme \<Rightarrow> field \<Rightarrow> jsstring
    \<Rightarrow> (attr \<times> jsstring) list \<Rightarrow> 'e node" where
  "NumberField es upd v f label extra =
     Field es f label None (bound_input f (extra @ [(Type, js ''number'')]) (settings_text f v) (upd f))"

definition DecimalField :: "errors \<Rightarrow> (field \<Rightarrow> jsstring \<Rightarrow> 'e) \<Rightarrow> 'a settings_values_scheme \<Rightarrow> field \<Rightarrow> jsstring
    \<Rightarrow> (attr \<times> jsstring) list \<Rightarrow> 'e node" where
  "DecimalField es upd v f label extra =
     Field es f label None (bound_input f (extra @ [(Step, js ''any''), (Type, js ''number'')]) (settings_text f v) (upd f))"

definition icon :: "'e node" where
  "icon = El Icon [(Hidden, js ''true'')] [] []"

definition StepHeading :: "jsstring \<Rightarrow> jsstring \<Rightarrow> jsstring \<Rightarrow> 'e node list \<Rightarrow> 'e node" where
  "StepHeading eyebrow title intro children = El Div [] []
     [El Paragraph [] [] [Txt eyebrow], El Heading [] [] [Txt title], El Paragraph [] [] [Txt intro], El Div [] [] children]"

section \<open>The steps\<close>

definition stepNames :: "jsstring list" where
  "stepNames = [js ''Conta'', js ''Logger'', jsx ''Pain&eacute;is'', js ''Local e tarifa'', jsx ''Revis&atilde;o'']"

definition OnboardingProgress :: "nat \<Rightarrow> 'e node" where
  "OnboardingProgress current = El Nav [(AriaLabel, jsx ''Progresso da configura&ccedil;&atilde;o'')] [] [El OrderedList [] []
     (map (\<lambda>(index, name). El Item (only_if (index = current) [(Current, js ''step'')]
          @ only_if (index < current) [(ClassName, js ''is-complete'')]) []
        [El Span [] [] [Txt (pad_start 2 48 (show_nat (index + 1)))], Txt name])
      (enumerate 0 stepNames))]"

definition AccountStep :: "errors \<Rightarrow> (field \<Rightarrow> jsstring \<Rightarrow> 'e) \<Rightarrow> onboarding_values \<Rightarrow> 'e node" where
  "AccountStep es upd v = StepHeading (js ''Primeiro acesso'') (js ''Crie a conta local'')
     (js ''Esta conta administra o monitor dentro da sua rede.'')
     [Field es Username (jsx ''Usu&aacute;rio administrador'') None (bound_input Username [] (username v) (upd Username)),
      Field es Password (js ''Senha'')
        (Some (jsx ''M&iacute;nimo de 12 caracteres Unicode e m&aacute;ximo de 128 bytes. Guarde-a no seu gerenciador de senhas.''))
        (bound_input Password [(Type, js ''password'')] (password v) (upd Password)),
      Field es ConfirmPassword (js ''Confirmar senha'') None
        (bound_input ConfirmPassword [(Type, js ''password'')] (confirmPassword v) (upd ConfirmPassword)),
      El Paragraph [] [] [icon, Txt (jsx '' Conex&atilde;o local sem HTTPS: n&atilde;o reutilize uma senha importante.'')]]"

definition LoggerStep :: "errors \<Rightarrow> (field \<Rightarrow> jsstring \<Rightarrow> 'e) \<Rightarrow> onboarding_values \<Rightarrow> bool \<Rightarrow> 'e \<Rightarrow> 'e node" where
  "LoggerStep es upd v reveal onReveal = StepHeading (jsx ''Comunica&ccedil;&atilde;o'') (js ''Conecte o logger'')
     (jsx ''Use o IPv4 que o roteador reservou para o inversor. O Helio confirma o alcance depois de salvar.'')
     [Field es LoggerHost (jsx ''Endere&ccedil;o IP do logger'')
        (Some (jsx ''Use o IPv4 privado reservado no roteador. 192.0.2.1 &eacute; apenas um exemplo de formato.''))
        (bound_input LoggerHost [(Placeholder, js ''192.0.2.1'')] (loggerHost v) (upd LoggerHost)),
      Field es LoggerSerial (jsx ''N&uacute;mero de s&eacute;rie do logger'') None
        (El Div [] []
          [bound_input LoggerSerial [(Type, if reveal then js ''text'' else js ''password'')] (loggerSerial v) (upd LoggerSerial),
           El Button [(AriaLabel, if reveal then jsx ''Ocultar n&uacute;mero de s&eacute;rie'' else jsx ''Mostrar n&uacute;mero de s&eacute;rie''),
               (Type, js ''button'')] [(OnClick, \<lambda>_. onReveal)] [icon]]),
      El Div [] []
        [NumberField es upd v LoggerPort (js ''Porta'') [(Min, js ''1''), (Max, js ''65535'')],
         NumberField es upd v ModbusSlave (jsx ''Endere&ccedil;o Modbus'') [(Min, js ''1''), (Max, js ''247'')]]]"

text \<open>The two inputs of the inverter; the group is described by its error.\<close>

definition mppt_input :: "onboarding_values \<Rightarrow> (jsnum \<Rightarrow> 'e) \<Rightarrow> nat \<Rightarrow> 'e node" where
  "mppt_input v toggle n = El Label [] []
     [El Input ([(AriaLabel, js ''Entrada PV'' @ show_nat n @ js '' ativa''), (Id, js ''activeMPPT'' @ show_nat n),
          (Name, js ''activeMPPT''), (Type, js ''checkbox'')] @ only_if (Fin (of_nat n) \<in> set (activeMPPT v)) [(Checked, [])])
        [(OnChange, \<lambda>_. toggle (Fin (of_nat n)))] [],
      El Span [] [] [Txt (js ''PV'' @ show_nat n)]]"

definition PanelsStep :: "(jsnum \<Rightarrow> jsstring) \<Rightarrow> errors \<Rightarrow> (field \<Rightarrow> jsstring \<Rightarrow> 'e) \<Rightarrow> onboarding_values \<Rightarrow> (jsnum \<Rightarrow> 'e) \<Rightarrow> 'e node" where
  "PanelsStep kwp es upd v toggle = StepHeading (js ''Arranjo fotovoltaico'') (jsx ''Descreva os pain&eacute;is'')
     (jsx ''A pot&ecirc;ncia total &eacute; calculada automaticamente e usada para contextualizar a produ&ccedil;&atilde;o.'')
     [El Div [] []
        [NumberField es upd v PanelCount (jsx ''Quantidade de pain&eacute;is'') [(Min, js ''1'')],
         NumberField es upd v PanelWattage (jsx ''Pot&ecirc;ncia por painel (W)'') [(Min, js ''1'')]],
      El Output [(For, js ''panelCount panelWattage'')] []
        [icon, El Span [] [] [Txt (jsx ''Pot&ecirc;ncia instalada'')],
         El Strong [] [] [Txt (kwp (jdiv (installedPower v) (Fin 1000)) @ js '' kWp'')]],
      El Fieldset (only_if (error_text es ActiveMPPT \<noteq> None) [(DescribedBy, error_id ActiveMPPT), (Invalid, js ''true'')]) []
        ([El Legend [] [] [Txt (js ''Entradas fotovoltaicas em uso'')]] @ map (mppt_input v toggle) [1, 2] @ error_note es ActiveMPPT)]"

definition LocationStep :: "locale_env \<Rightarrow> errors \<Rightarrow> (field \<Rightarrow> jsstring \<Rightarrow> 'e) \<Rightarrow> onboarding_values \<Rightarrow> 'e node" where
  "LocationStep env es upd v = StepHeading (js ''Contexto'') (js ''Local e tarifa'')
     (jsx ''O local define o ciclo solar. A tarifa permite estimar somente o valor da energia gerada.'')
     [El Div [] []
        [DecimalField es upd v Latitude (js ''Latitude'') [(Min, js ''-90''), (Max, js ''90'')],
         DecimalField es upd v Longitude (js ''Longitude'') [(Min, js ''-180''), (Max, js ''180'')]],
      Field es Timezone (jsx ''Fuso hor&aacute;rio IANA'') (Some (js ''Exemplo: America/Sao_Paulo''))
        (bound_input Timezone [] (timezone v) (upd Timezone)),
      El Div [] []
        [Field es Currency (js ''Moeda'') None
           (bound_input Currency [(MaxLength, js ''3'')] (currency v) (\<lambda>s. upd Currency (upper env s))),
         DecimalField es upd v Tariff (js ''Tarifa por kWh'') [(Min, js ''0'')]],
      NumberField es upd v RetentionDays (jsx ''Reten&ccedil;&atilde;o do hist&oacute;rico (dias)'') [(Min, js ''30''), (Max, js ''3650'')]]"

definition masked :: "jsstring \<Rightarrow> jsstring" where
  "masked serial = (if 4 < length serial then jsx ''&bull;&bull;&bull;&bull;&bull;&bull;'' @ drop (length serial - 4) serial else jsx ''&bull;&bull;&bull;&bull;&bull;&bull;'')"

definition ReviewLine :: "jsstring \<Rightarrow> jsstring \<Rightarrow> 'e node" where
  "ReviewLine label value = El Div [] [] [El Term [] [] [Txt label], El Description [] [] [Txt value]]"

definition ReviewStep :: "onboarding_values \<Rightarrow> 'e node" where
  "ReviewStep v = StepHeading (jsx ''&Uacute;ltima confer&ecirc;ncia'') (jsx ''Tudo pronto para come&ccedil;ar'')
     (jsx ''A cria&ccedil;&atilde;o da conta e das configura&ccedil;&otilde;es acontece em uma &uacute;nica opera&ccedil;&atilde;o.'')
     [El Section [(AriaLabel, jsx ''Revis&atilde;o da configura&ccedil;&atilde;o'')] [] [El DescriptionList [] []
       [ReviewLine (js ''Conta'') (username v),
        ReviewLine (js ''Senha'') (jsx ''&bull;&bull;&bull;&bull;&bull;&bull;&bull;&bull;&bull;&bull;&bull;&bull;''),
        ReviewLine (js ''Logger'') (loggerHost v @ js '':'' @ loggerPort v @ jsx '' &middot; s&eacute;rie '' @ masked (loggerSerial v)),
        ReviewLine (jsx ''Pain&eacute;is'') (panelCount v @ jsx '' &times; '' @ panelWattage v @ jsx '' W &middot; PV''
          @ join (js '' + PV'') (map num_text (activeMPPT v))),
        ReviewLine (js ''Local'') (latitude v @ js '', '' @ longitude v @ jsx '' &middot; '' @ timezone v),
        ReviewLine (js ''Tarifa'') (currency v @ js '' '' @ tariff v @ jsx ''/kWh &middot; '' @ retentionDays v @ js '' dias'')]]]"

section \<open>Identifiers\<close>

lemma field_name_free: "45 \<notin> set (field_name f) \<and> 32 \<notin> set (field_name f) \<and> field_name f \<noteq> []"
  by (cases f) (simp_all add: js_def)

lemma field_name_eq [simp]: "field_name f = field_name g \<longleftrightarrow> f = g"
  by (cases f; cases g) (simp_all add: js_inj)

lemma hint_end: "last (hint_id f) = 116" and error_end: "last (error_id f) = 114"
  by (simp_all add: hint_id_def error_id_def js_def)

lemma id_free: "32 \<notin> set (hint_id f) \<and> hint_id f \<noteq> []" "32 \<notin> set (error_id f) \<and> error_id f \<noteq> []"
  using field_name_free [of f] by (simp_all add: hint_id_def error_id_def js_def)

lemma id_eq [simp]:
  "hint_id f = hint_id g \<longleftrightarrow> f = g" "error_id f = error_id g \<longleftrightarrow> f = g"
  "hint_id f \<noteq> error_id g" "error_id f \<noteq> hint_id g"
  "field_name f \<noteq> hint_id g" "hint_id f \<noteq> field_name g" "field_name f \<noteq> error_id g" "error_id f \<noteq> field_name g"
proof -
  show "hint_id f = hint_id g \<longleftrightarrow> f = g" "error_id f = error_id g \<longleftrightarrow> f = g" by (simp_all add: hint_id_def error_id_def)
  show "hint_id f \<noteq> error_id g" "error_id f \<noteq> hint_id g" using hint_end [of f] error_end [of g] hint_end [of g] error_end [of f] by auto
  have "45 \<in> set (hint_id h)" "45 \<in> set (error_id h)" for h by (simp_all add: hint_id_def error_id_def js_def)
  then show "field_name f \<noteq> hint_id g" "hint_id f \<noteq> field_name g" "field_name f \<noteq> error_id g" "error_id f \<noteq> field_name g"
    using field_name_free by metis+
qed

text \<open>The identifiers of a field, in their order on the page.\<close>

definition field_ids :: "bool \<Rightarrow> field \<Rightarrow> errors \<Rightarrow> jsstring list" where
  "field_ids hint f es = only_if hint [hint_id f] @ [field_name f] @ only_if (error_text es f \<noteq> None) [error_id f]"

lemma field_ids_own: "i \<in> set (field_ids hint f es) \<Longrightarrow> i = hint_id f \<or> i = field_name f \<or> i = error_id f"
  by (auto simp: field_ids_def only_if_def)

lemma field_ids_distinct [simp]: "distinct (field_ids hint f es)"
  by (simp add: field_ids_def only_if_def)

lemma field_ids_apart: "f \<noteq> g \<Longrightarrow> set (field_ids h f es) \<inter> set (field_ids h' g es) = {}"
  by (auto dest!: field_ids_own)

lemma tokens_ids [simp]:
  "tokens (field_name f) = [field_name f]" "tokens (hint_id f) = [hint_id f]" "tokens (error_id f) = [error_id f]"
  using field_name_free [of f] id_free [of f] by (simp_all add: tokens_word)

lemma described_tokens:
  "(case described_by f hint err of None \<Rightarrow> [] | Some s \<Rightarrow> tokens s) = only_if hint [hint_id f] @ only_if err [error_id f]"
  using id_free [of f] by (simp add: described_by_def Let_def only_if_def tokens_words)

section \<open>A field on the page\<close>

lemma ids_describe [simp]: "ids (describeInputs d b n) = ids n"
proof (induction n)
  case (El t as hs ns)
  then have "concat (map (ids \<circ> describeInputs d b) ns) = concat (map ids ns)" by (metis (mono_tags, lifting) comp_apply map_eq_conv)
  then show ?case by (simp add: set_attr_simps)
qed simp

text \<open>
  A child that holds the input of the field, and nothing else with an identifier or a reference:
  what the source passes to its fields.
\<close>

definition holds_input :: "field \<Rightarrow> jsstring \<Rightarrow> (jsstring \<Rightarrow> 'e) \<Rightarrow> 'e node \<Rightarrow> bool" where
  "holds_input f v change child \<longleftrightarrow> ids child = [field_name f] \<and> labels_for child = []
     \<and> (\<forall>d b. set (references (describeInputs d b child)) \<subseteq> set (case d of None \<Rightarrow> [] | Some s \<Rightarrow> tokens s)
          \<and> labels_for (describeInputs d b child) = []
          \<and> inputs_named [field_name f] False (describeInputs d b child)
          \<and> (\<exists>e \<in> set (elements (describeInputs d b child)). tag_of e = Some Input \<and> attr_of Id e = Some (field_name f)
               \<and> attr_of Value e = Some v \<and> hook_of OnChange e = Some change
               \<and> attr_of DescribedBy e = d \<and> attr_of Invalid e = (if b then Some (js ''true'') else None)))"

lemma holds_bound:
  assumes "map_of extra For = None" "map_of extra LabelledBy = None"
  shows "holds_input f v change (bound_input f extra v change)"
  using assms by (auto simp: holds_input_def bound_input_def listed_simps set_attr_simps map_add_def split: option.splits)

lemma Field_ids: "holds_input f v change child \<Longrightarrow> ids (Field es f label hint child) = field_ids (hint \<noteq> None) f es"
  by (auto simp: Field_def form_field_def holds_input_def error_note_def field_ids_def split: option.splits)

section \<open>Blocks of a page\<close>

text \<open>
  The input of a field is there, with its value and what a change does; the switches of the inverter
  share a name.
\<close>

definition field_on :: "(field \<Rightarrow> jsstring) \<Rightarrow> (field \<Rightarrow> jsstring \<Rightarrow> 'e) \<Rightarrow> field \<Rightarrow> 'e node \<Rightarrow> bool" where
  "field_on val chg f n \<longleftrightarrow> (\<exists>e \<in> set (elements n). tag_of e = Some Input
     \<and> (if f = ActiveMPPT then attr_of Name e = Some (field_name f)
        else attr_of Id e = Some (field_name f) \<and> attr_of Value e = Some (val f) \<and> hook_of OnChange e = Some (chg f)))"

text \<open>
  The element that carries the marks of a field: its input, found by its identifier, or the group of
  switches of the inverter.
\<close>

definition marks_field :: "field \<Rightarrow> 'e node \<Rightarrow> bool" where
  "marks_field f e \<longleftrightarrow> (if f = ActiveMPPT
     then tag_of e = Some Fieldset \<and> (\<exists>i \<in> set (elements e). tag_of i = Some Input \<and> attr_of Type i = Some (js ''checkbox''))
     else tag_of e = Some Input \<and> attr_of Id e = Some (field_name f))"

text \<open>The message is there, and the input of the field says that it is invalid and refers to it.\<close>

definition error_on :: "field \<Rightarrow> jsstring \<Rightarrow> 'e node \<Rightarrow> bool" where
  "error_on f m n \<longleftrightarrow> (\<exists>p \<in> set (elements n). attr_of Id p = Some (error_id f) \<and> text_content p = m)
     \<and> (\<exists>e \<in> set (elements n). marks_field f e \<and> attr_of Invalid e = Some (js ''true'') \<and> error_id f \<in> set (listed DescribedBy e))"

text \<open>A part of a page with the fields \<open>fs\<close> and the identifiers \<open>is\<close>.\<close>

definition block :: "(field \<Rightarrow> jsstring) \<Rightarrow> (field \<Rightarrow> jsstring \<Rightarrow> 'e) \<Rightarrow> errors \<Rightarrow> field list \<Rightarrow> jsstring list \<Rightarrow> 'e node \<Rightarrow> bool" where
  "block val chg es fs is n \<longleftrightarrow> ids n = is \<and> set (references n) \<subseteq> set is \<and> inputs_named (labels_for n) False n
     \<and> (\<forall>f \<in> set fs. field_on val chg f n \<and> (\<forall>m. error_text es f = Some m \<longrightarrow> error_on f m n))"

definition blocks :: "(field \<Rightarrow> jsstring) \<Rightarrow> (field \<Rightarrow> jsstring \<Rightarrow> 'e) \<Rightarrow> errors \<Rightarrow> field list \<Rightarrow> jsstring list \<Rightarrow> 'e node list \<Rightarrow> bool" where
  "blocks val chg es fs is ns \<longleftrightarrow> concat (map ids ns) = is \<and> set (concat (map references ns)) \<subseteq> set is
     \<and> list_all (inputs_named (concat (map labels_for ns)) False) ns
     \<and> (\<forall>f \<in> set fs. list_ex (field_on val chg f) ns \<and> (\<forall>m. error_text es f = Some m \<longrightarrow> list_ex (error_on f m) ns))"

lemma blocks_Nil: "blocks val chg es [] [] []"
  by (simp add: blocks_def)

lemma blocks_Cons:
  assumes "block val chg es fs is n" "blocks val chg es fs' is' ns"
  shows "blocks val chg es (fs @ fs') (is @ is') (n # ns)"
proof -
  have "inputs_named (concat (map labels_for (n # ns))) False n"
    using assms(1) by (auto simp: block_def intro: inputs_named_mono)
  moreover have "list_all (inputs_named (concat (map labels_for (n # ns))) False) ns"
    using assms(2) unfolding blocks_def list_all_iff by (auto elim!: inputs_named_mono)
  ultimately show ?thesis using assms by (auto simp: block_def blocks_def)
qed

lemma blocks_append:
  assumes "blocks val chg es fs is ms" "blocks val chg es fs' is' ns"
  shows "blocks val chg es (fs @ fs') (is @ is') (ms @ ns)"
proof -
  have "list_all (inputs_named (concat (map labels_for (ms @ ns))) False) ms"
    using assms(1) unfolding blocks_def list_all_iff by (auto elim!: inputs_named_mono)
  moreover have "list_all (inputs_named (concat (map labels_for (ms @ ns))) False) ns"
    using assms(2) unfolding blocks_def list_all_iff by (auto elim!: inputs_named_mono)
  ultimately show ?thesis using assms by (auto simp: blocks_def)
qed

text \<open>An element of its own identifier and references to what it contains.\<close>

lemma block_node:
  assumes "blocks val chg es fs ks ns" "t \<noteq> Input" "ks' = (case map_of as Id of None \<Rightarrow> [] | Some i \<Rightarrow> [i]) @ ks"
    "set (listed For (El t as hs ns) @ listed DescribedBy (El t as hs ns) @ listed LabelledBy (El t as hs ns)) \<subseteq> set ks'"
  shows "block val chg es fs ks' (El t as hs ns)"
proof -
  have "list_all (inputs_named (labels_for (El t as hs ns)) (False \<or> t = Label)) ns"
    using assms(1) by (auto simp: blocks_def list_all_iff elim!: inputs_named_mono)
  moreover have "field_on val chg f (El t as hs ns)" if "list_ex (field_on val chg f) ns" for f
    using that by (auto simp: field_on_def list_ex_iff)
  moreover have "error_on f m (El t as hs ns)" if "list_ex (error_on f m) ns" for f m
    using that by (fastforce simp: error_on_def list_ex_iff)
  ultimately show ?thesis using assms by (auto simp: block_def blocks_def)
qed

lemma block_El:
  assumes "blocks val chg es fs is ns" "t \<noteq> Input"
    "map_of as Id = None" "map_of as For = None" "map_of as DescribedBy = None" "map_of as LabelledBy = None"
  shows "block val chg es fs is (El t as hs ns)"
  by (rule block_node [OF assms(1,2)]) (use assms(3-) in \<open>simp_all add: listed_simps\<close>)

lemma block_Txt: "block val chg es [] [] (Txt s)"
  by (simp add: block_def)

lemma block_Field:
  assumes "f \<noteq> ActiveMPPT" and "holds_input f (val f) (chg f) child"
  shows "block val chg es [f] (field_ids (hint \<noteq> None) f es) (Field es f label hint child)"
proof -
  let ?err = "error_text es f \<noteq> None"
  let ?d = "described_by f (hint \<noteq> None) ?err"
  let ?c = "describeInputs ?d ?err child"
  obtain e where e: "e \<in> set (elements ?c)" "tag_of e = Some Input" "attr_of Id e = Some (field_name f)"
    "attr_of Value e = Some (val f)" "hook_of OnChange e = Some (chg f)" "attr_of DescribedBy e = ?d" "attr_of Invalid e = (if ?err then Some (js ''true'') else None)"
    using assms(2) unfolding holds_input_def by blast
  have refs: "set (references ?c) \<subseteq> set (only_if (hint \<noteq> None) [hint_id f] @ only_if ?err [error_id f])"
    using assms(2) unfolding holds_input_def described_tokens [symmetric] by blast
  have labels: "labels_for (describeInputs d b child) = []"
    and named: "inputs_named [field_name f] False (describeInputs d b child)" for d b
    using assms(2) unfolding holds_input_def by blast+
  have on_page: "e \<in> set (elements (Field es f label hint child))" using e(1) by (simp add: Field_def)
  have "error_on f m (Field es f label hint child)" if m: "error_text es f = Some m" for m
    unfolding error_on_def
  proof
    show "\<exists>p \<in> set (elements (Field es f label hint child)). attr_of Id p = Some (error_id f) \<and> text_content p = m"
      by (simp add: Field_def form_field_def error_note_def m)
    have "error_id f \<in> set (listed DescribedBy e)"
      using e(6) m unfolding listed_def by (simp add: described_tokens)
    moreover have "marks_field f e" using e(2,3) assms(1) by (simp add: marks_field_def)
    ultimately show "\<exists>e \<in> set (elements (Field es f label hint child)). marks_field f e
        \<and> attr_of Invalid e = Some (js ''true'') \<and> error_id f \<in> set (listed DescribedBy e)"
      using e(7) on_page m by (metis option.distinct(1))
  qed
  moreover have "field_on val chg f (Field es f label hint child)" unfolding field_on_def using e(2-5) on_page assms(1) by (intro bexI [of _ e]) simp
  moreover have "set (references (Field es f label hint child)) \<subseteq> set (field_ids (hint \<noteq> None) f es)"
    using refs by (auto simp: Field_def form_field_def error_note_def listed_simps field_ids_def split: option.splits)
  moreover have "inputs_named (labels_for (Field es f label hint child)) False (Field es f label hint child)"
    using named by (auto simp: Field_def form_field_def error_note_def listed_simps labels split: option.splits)
  ultimately show ?thesis using Field_ids [OF assms(2)] by (simp add: block_def)
qed

section \<open>The steps refer only to what they have\<close>

lemma holds_secret:
  "holds_input f v change (El Div [] [] [bound_input f [(Type, t)] v change, El Button [(AriaLabel, l), (Type, u)] hs [icon]])"
  by (auto simp: holds_input_def bound_input_def icon_def listed_simps set_attr_simps split: option.splits)

lemma block_Number: "f \<noteq> ActiveMPPT \<Longrightarrow> val f = settings_text f v \<Longrightarrow> chg f = upd f \<Longrightarrow>
    map_of extra For = None \<Longrightarrow> map_of extra LabelledBy = None \<Longrightarrow>
    block val chg es [f] (field_ids False f es) (NumberField es upd v f label extra)"
  unfolding NumberField_def by (rule block_Field [where hint = None, simplified]) (simp_all add: holds_bound map_add_def)

lemma block_Decimal: "f \<noteq> ActiveMPPT \<Longrightarrow> val f = settings_text f v \<Longrightarrow> chg f = upd f \<Longrightarrow>
    map_of extra For = None \<Longrightarrow> map_of extra LabelledBy = None \<Longrightarrow>
    block val chg es [f] (field_ids False f es) (DecimalField es upd v f label extra)"
  unfolding DecimalField_def by (rule block_Field [where hint = None, simplified]) (simp_all add: holds_bound map_add_def)

text \<open>Elements with nothing but text and icons.\<close>

lemma block_text: "t \<noteq> Input \<Longrightarrow> block val chg es [] [] (El t [] [] [Txt s])"
  by (simp add: block_def listed_simps)

lemma blocks_add: "block val chg es fs is n \<Longrightarrow> blocks val chg es fs' is' ns \<Longrightarrow> gs = fs @ fs' \<Longrightarrow> ks = is @ is' \<Longrightarrow> blocks val chg es gs ks (n # ns)"
  using blocks_Cons by simp

lemma block_icon: "block val chg es [] [] icon"
  by (simp add: block_def icon_def listed_simps)

lemma blocks_one: "block val chg es fs is n \<Longrightarrow> blocks val chg es fs is [n]"
  using blocks_Cons [OF _ blocks_Nil] by fastforce

lemmas block_rules = block_El blocks_add blocks_Nil block_Txt block_icon

lemma block_heading: "blocks val chg es fs is ns \<Longrightarrow> block val chg es fs is (StepHeading a b c ns)"
  unfolding StepHeading_def by (rule block_rules | assumption | simp)+

text \<open>What a change of a field does: the code of the currency is made upper case.\<close>

definition on_change :: "locale_env \<Rightarrow> (field \<Rightarrow> jsstring \<Rightarrow> 'e) \<Rightarrow> field \<Rightarrow> jsstring \<Rightarrow> 'e" where
  "on_change env upd f = (if f = Currency then (\<lambda>s. upd Currency (upper env s)) else upd f)"

lemmas text_simps = onboarding_text_def on_change_def

lemma block_account:
  "block (\<lambda>f. onboarding_text f v) (on_change env upd) es [Username, Password, ConfirmPassword]
     (field_ids False Username es @ field_ids True Password es @ field_ids False ConfirmPassword es) (AccountStep es upd v)"
  unfolding AccountStep_def by (rule block_heading block_Field block_rules | simp add: holds_bound text_simps)+

lemma block_logger:
  "block (\<lambda>f. onboarding_text f v) (on_change env upd) es [LoggerHost, LoggerSerial, LoggerPort, ModbusSlave]
     (field_ids True LoggerHost es @ field_ids False LoggerSerial es @ field_ids False LoggerPort es @ field_ids False ModbusSlave es)
     (LoggerStep es upd v reveal onReveal)"
  unfolding LoggerStep_def by (rule block_heading block_Field block_Number block_rules | simp add: holds_bound holds_secret text_simps)+

lemma block_location:
  "block (\<lambda>f. onboarding_text f v) (on_change env upd) es [Latitude, Longitude, Timezone, Currency, Tariff, RetentionDays]
     (field_ids False Latitude es @ field_ids False Longitude es @ field_ids True Timezone es @ field_ids False Currency es
        @ field_ids False Tariff es @ field_ids False RetentionDays es)
     (LocationStep env es upd v)"
  unfolding LocationStep_def
  by (rule block_heading block_Field block_Number block_Decimal block_rules | simp add: holds_bound text_simps)+

lemma block_review: "block val chg es [] [] (ReviewStep v)"
  unfolding ReviewStep_def ReviewLine_def by (rule block_heading block_rules | simp)+

lemma mppt_names: "show_nat 1 = js ''1''" "show_nat (Suc 0) = js ''1''" "show_nat 2 = js ''2''"
  by (subst show_nat.simps, simp add: digit_char_def js_def)+

definition mppt_ids :: "errors \<Rightarrow> jsstring list" where
  "mppt_ids es = [js ''activeMPPT1'', js ''activeMPPT2''] @ only_if (error_text es ActiveMPPT \<noteq> None) [error_id ActiveMPPT]"

text \<open>A list of blocks of which one refers to another, here the output to the inputs it is computed from.\<close>

lemma blocks_refer:
  assumes "blocks val chg es fs is (xs @ ys)" "ids n = []" "set (references n) \<subseteq> set is" "inputs_named [] False n"
  shows "blocks val chg es fs is (xs @ n # ys)"
proof -
  let ?ls = "concat (map labels_for (xs @ n # ys))"
  have old: "\<forall>x \<in> set (xs @ ys). inputs_named (concat (map labels_for (xs @ ys))) False x"
    using assms(1) by (simp add: blocks_def list_all_iff)
  have "inputs_named ?ls False x" if "x \<in> set (xs @ ys)" for x
    using bspec [OF old that] by (rule inputs_named_mono) auto
  moreover have "inputs_named ?ls False n" by (rule inputs_named_mono [OF assms(4)]) simp_all
  ultimately have "list_all (inputs_named ?ls False) (xs @ n # ys)" unfolding list_all_iff by simp
  moreover have "set (concat (map references (xs @ n # ys))) \<subseteq> set is" using assms(1,3) by (simp add: blocks_def)
  ultimately show ?thesis using assms(1,2) unfolding blocks_def by simp blast
qed

lemma block_mppt:
  "block val chg es [ActiveMPPT] (mppt_ids es)
     (El Fieldset (only_if (error_text es ActiveMPPT \<noteq> None) [(DescribedBy, error_id ActiveMPPT), (Invalid, js ''true'')]) []
        ([El Legend [] [] [Txt l]] @ map (mppt_input v toggle) [1, 2] @ error_note es ActiveMPPT))"
  by (cases "error_text es ActiveMPPT")
    (simp_all add: block_def mppt_ids_def mppt_input_def error_note_def listed_simps only_if_def mppt_names field_on_def error_on_def marks_field_def
      js_append [symmetric])

lemma block_panels:
  fixes upd :: "field \<Rightarrow> jsstring \<Rightarrow> 'e"
  shows "block (\<lambda>f. onboarding_text f v) (on_change env upd) es [PanelCount, PanelWattage, ActiveMPPT] (field_ids False PanelCount es @ field_ids False PanelWattage es @ mppt_ids es)
     (PanelsStep kwp es upd v toggle)"
proof -
  define shown :: "'e node" where "shown = El Output [(For, js ''panelCount panelWattage'')] []
        [icon, El Span [] [] [Txt (jsx ''Pot&ecirc;ncia instalada'')],
         El Strong [] [] [Txt (kwp (jdiv (installedPower v) (Fin 1000)) @ js '' kWp'')]]"
  have two: "blocks (\<lambda>f. onboarding_text f v) (on_change env upd) es [PanelCount, PanelWattage, ActiveMPPT]
      (field_ids False PanelCount es @ field_ids False PanelWattage es @ mppt_ids es)
      ([El Div [] []
        [NumberField es upd v PanelCount (jsx ''Quantidade de pain&eacute;is'') [(Min, js ''1'')],
         NumberField es upd v PanelWattage (jsx ''Pot&ecirc;ncia por painel (W)'') [(Min, js ''1'')]]] @
      [El Fieldset (only_if (error_text es ActiveMPPT \<noteq> None) [(DescribedBy, error_id ActiveMPPT), (Invalid, js ''true'')]) []
        ([El Legend [] [] [Txt (js ''Entradas fotovoltaicas em uso'')]] @ map (mppt_input v toggle) [1, 2] @ error_note es ActiveMPPT)])"
    unfolding append_Cons append_Nil
    by (rule blocks_add block_mppt [simplified append_Cons append_Nil] block_Number blocks_Nil | rule block_El | simp add: text_simps)+
  have "tokens (js ''panelCount panelWattage'') = [field_name PanelCount, field_name PanelWattage]"
    using tokens_words [of "js ''panelCount''" "js ''panelWattage''"] field_name_free [of PanelCount] tokens_ids(1) [of PanelWattage]
    by (simp add: js_def)
  then have "set (references shown) \<subseteq> set (field_ids False PanelCount es @ field_ids False PanelWattage es @ mppt_ids es)"
    "ids shown = []" "inputs_named [] False shown"
    by (auto simp: shown_def icon_def listed_simps field_ids_def)
  from blocks_refer [OF two this(2,1,3)] show ?thesis unfolding PanelsStep_def shown_def append_Cons append_Nil by (rule block_heading)
qed

end
