(* ===== verification/WizardView.thy ===== *)
theory WizardView
  imports Wizard Steps
begin

text \<open>
  The page of the onboarding wizard, \<open>web/src/features/onboarding/OnboardingWizard.tsx\<close>: what it renders
  for a state of its machine, with the events its handlers send back to the machine, and the layout
  effect that focuses a field.

  What the theory shows: the page never refers to an element it does not have; every error the
  machine holds is on the page, tied to its input, and the focus finds that input
  (\<open>wizard_reports\<close>); typing into a field changes that field and the page shows it
  (\<open>wizard_edits\<close>); what the review shows of the secrets (\<open>review_hides\<close>); and that the field of the
  tariff shows nothing of its initial value (\<open>tariff_not_shown\<close>).
\<close>

section \<open>The page\<close>

definition isPending :: "wizard \<Rightarrow> bool" where
  "isPending w \<longleftrightarrow> awaiting w \<or> closing w"

definition step_page :: "locale_env \<Rightarrow> (jsnum \<Rightarrow> jsstring) \<Rightarrow> wizard \<Rightarrow> wizard_event node list" where
  "step_page env kwp w = (let s = w_step w; es = w_errors w; v = w_values w in
     only_if (s = 0) [AccountStep es Update v]
     @ only_if (s = 1) [LoggerStep es Update v (revealSerial w) Reveal]
     @ only_if (s = 2) [PanelsStep kwp es Update v ToggleMPPT]
     @ only_if (s = 3) [LocationStep env es Update v]
     @ only_if (s = 4) [ReviewStep v])"

definition general_alert :: "errors \<Rightarrow> 'e node list" where
  "general_alert es = (case error_text es General of None \<Rightarrow> []
     | Some m \<Rightarrow> [El Paragraph [(LiveRegion, js ''assertive''), (Role, js ''alert'')] [] [Txt m]])"

definition form_actions :: "wizard \<Rightarrow> wizard_event node" where
  "form_actions w = El Div [] []
     (only_if (0 < w_step w) [El Button (only_if (isPending w) [(Disabled, [])] @ [(Type, js ''button'')]) [(OnClick, \<lambda>_. Back)]
        [icon, Txt (js '' Voltar'')]]
      @ [El Button (only_if (isPending w) [(Disabled, [])] @ [(Type, js ''submit'')]) []
          ([Txt (if isPending w then jsx ''Criando seu Helio&hellip;'' else buttonLabel (w_step w))]
           @ only_if (\<not> isPending w \<and> w_step w < 4) [icon])])"

definition OnboardingWizard :: "locale_env \<Rightarrow> (jsnum \<Rightarrow> jsstring) \<Rightarrow> wizard \<Rightarrow> wizard_event node" where
  "OnboardingWizard env kwp w = El Div [] []
     [OnboardingProgress (w_step w),
      El Form [] [(OnSubmit, \<lambda>_. FormSubmit)] (step_page env kwp w @ general_alert (w_errors w) @ [form_actions w])]"

text \<open>\<open>getElementById(field) ?? querySelector(`[name="${field}"]`)\<close>.\<close>

definition focus_target :: "field \<Rightarrow> 'e node \<Rightarrow> 'e node option" where
  "focus_target f page = (case get_by_id (field_name f) page of Some e \<Rightarrow> Some e | None \<Rightarrow> get_by_name (field_name f) page)"

section \<open>The errors belong to the step\<close>

fun step_fields :: "nat \<Rightarrow> field list" where
  "step_fields s = (if s = 0 then [Username, Password, ConfirmPassword]
     else if s = 1 then [LoggerHost, LoggerSerial, LoggerPort, ModbusSlave]
     else if s = 2 then [PanelCount, PanelWattage, ActiveMPPT]
     else if s = 3 then [Latitude, Longitude, Timezone, Currency, Tariff, RetentionDays]
     else [])"

lemma step_fields_iff: "f \<in> set (step_fields s) \<longleftrightarrow> stepForField f = Some s"
  by (cases f) (auto simp: stepForField_def)

lemma gather_distinct: "distinct (map fst (gather cs))"
proof -
  have "distinct (map fst es) \<Longrightarrow> distinct (map fst (fold (\<lambda>(c, f, m) es. if c then put f m es else es) cs es))"
    for es :: errors
    by (induction cs arbitrary: es) (auto simp: distinct_put)
  then show ?thesis by (simp add: gather_def)
qed

lemma validated_fields: "fst ` set (validateStep env s v) \<subseteq> set (step_fields s)"
  unfolding validateStep_def gather_keys by auto

lemma find_holds: "find P xs = Some x \<Longrightarrow> P x"
  by (auto simp: find_Some_iff)

lemma find_Some_in: "find P xs = Some x \<Longrightarrow> x \<in> set xs"
  by (auto simp: find_Some_iff)

lemma server_field: "serverFieldError env message code = (f, m) \<Longrightarrow> f = General \<or> stepForField f \<noteq> None"
proof -
  assume r: "serverFieldError env message code = (f, m)"
  have "list_all (\<lambda>(ps, f, m). stepForField f \<noteq> None) server_mappings"
    by (simp add: server_mappings_def stepForField_def)
  then have all: "stepForField g \<noteq> None" if "(ps, g, n) \<in> set server_mappings" for ps g n
    using that by (auto simp: list_all_iff)
  have "stepForField Username \<noteq> None" "stepForField Password \<noteq> None" by (simp_all add: stepForField_def)
  with r show ?thesis
    by (auto simp: serverFieldError_def Let_def split: if_splits option.splits prod.splits dest!: find_Some_in all)
qed

definition errors_here :: "wizard \<Rightarrow> bool" where
  "errors_here w \<longleftrightarrow> distinct (map fst (w_errors w)) \<and> w_step w \<le> 4
     \<and> (\<forall>f \<in> fst ` set (w_errors w). f = General \<or> f \<in> set (step_fields (w_step w)))"

lemma drop_error_keys: "x \<in> set (drop_error f es) \<Longrightarrow> x \<in> set es" "distinct (map fst es) \<Longrightarrow> distinct (map fst (drop_error f es))"
  by (auto simp: drop_error_def distinct_map_filter)

lemma errors_here_found:
  "distinct (map fst (validateStep env s v)) \<and> (\<forall>f \<in> fst ` set (validateStep env s v). f \<in> set (step_fields s))"
proof
  show "distinct (map fst (validateStep env s v))" unfolding validateStep_def by (rule gather_distinct)
qed (use validated_fields [of env s v] in blast)

lemma errors_here_submit: "errors_here w \<Longrightarrow> errors_here (form_submit env w)"
proof (cases "w_step w = 4")
  case True
  assume "errors_here w"
  with True show ?thesis
    by (cases rule: submit_cases [of env w])
      (use errors_here_found [of env _ "w_values w"] in \<open>auto simp: form_submit_def stepNames_length_def errors_here_def simp del: step_fields.simps\<close>)
next
  case False
  assume "errors_here w"
  with False show ?thesis using errors_here_found [of env "w_step w" "w_values w"]
    by (auto simp: form_submit_def stepNames_length_def advance_def Let_def errors_here_def simp del: step_fields.simps split: list.splits)
      (metis fst_conv image_eqI)
qed

lemma errors_here_refused: "errors_here w \<Longrightarrow> errors_here (onError env error w)"
proof (cases error)
  case (ApiFailure e)
  assume w: "errors_here w"
  obtain f m where fm: "serverFieldError env (e_message e) (code_text (e_code e)) = (f, m)" by force
  show ?thesis
  proof (cases "f = General")
    case True
    with w fm show ?thesis by (auto simp: onError_def ApiFailure Let_def errors_here_def simp del: step_fields.simps)
  next
    case False
    with server_field [OF fm] obtain s where s: "stepForField f = Some s" by auto
    then have "s \<le> 4" "f \<in> set (step_fields s)" by (auto simp: step_fields_iff stepForField_def split: if_splits simp del: step_fields.simps)
    with w fm s show ?thesis by (auto simp: onError_def ApiFailure Let_def errors_here_def simp del: step_fields.simps)
  qed
qed (auto simp: onError_def Let_def errors_here_def)

lemma errors_here_step: "errors_here w \<Longrightarrow> errors_here (wizard_step env w e)"
proof (cases e)
  case FormSubmit
  assume "errors_here w"
  then show ?thesis using errors_here_submit by (simp add: FormSubmit)
next
  case (Refused error)
  assume "errors_here w"
  then show ?thesis using errors_here_refused by (simp add: Refused)
qed (use drop_error_keys(2) in \<open>auto dest!: drop_error_keys(1) simp: errors_here_def update_def toggleMPPT_def go_back_def onSuccess_def status_checked_def
      simp del: step_fields.simps\<close>)

interpretation wizard_errors: event_machine "wizard_step env" errors_here
  by unfold_locales (rule errors_here_step)

lemma errors_here_run: "errors_here (foldl (wizard_step env) (initial_wizard zone) es)"
  by (rule wizard_errors.run_inv) (simp add: errors_here_def initial_wizard_def)

section \<open>The page as a block\<close>

abbreviation wizard_block :: "locale_env \<Rightarrow> wizard \<Rightarrow> field list \<Rightarrow> jsstring list \<Rightarrow> wizard_event node \<Rightarrow> bool" where
  "wizard_block env w \<equiv> block (\<lambda>f. onboarding_text f (w_values w)) (on_change env Update) (w_errors w)"

abbreviation wizard_blocks :: "locale_env \<Rightarrow> wizard \<Rightarrow> field list \<Rightarrow> jsstring list \<Rightarrow> wizard_event node list \<Rightarrow> bool" where
  "wizard_blocks env w \<equiv> blocks (\<lambda>f. onboarding_text f (w_values w)) (on_change env Update) (w_errors w)"

lemma mppt_switch:
  "field_name f \<noteq> js ''activeMPPT1''" "field_name f \<noteq> js ''activeMPPT2''"
  "hint_id f \<noteq> js ''activeMPPT1''" "hint_id f \<noteq> js ''activeMPPT2''" "error_id f \<noteq> js ''activeMPPT1''" "error_id f \<noteq> js ''activeMPPT2''"
proof -
  show "field_name f \<noteq> js ''activeMPPT1''" "field_name f \<noteq> js ''activeMPPT2''" by (cases f; simp add: js_inj)+
  have "45 \<in> set (hint_id f)" "45 \<in> set (error_id f)" "45 \<notin> set (js ''activeMPPT1'')" "45 \<notin> set (js ''activeMPPT2'')"
    by (simp_all add: hint_id_def error_id_def js_def)
  then show "hint_id f \<noteq> js ''activeMPPT1''" "hint_id f \<noteq> js ''activeMPPT2''"
    "error_id f \<noteq> js ''activeMPPT1''" "error_id f \<noteq> js ''activeMPPT2''" by metis+
qed

lemma mppt_distinct: "distinct (mppt_ids es)"
  using mppt_switch [of ActiveMPPT] by (auto simp: mppt_ids_def only_if_def js_inj)

lemma mppt_apart: "f \<noteq> ActiveMPPT \<Longrightarrow> set (field_ids h f es) \<inter> set (mppt_ids es) = {}"
  using mppt_switch [of f] by (auto simp: mppt_ids_def only_if_def dest!: field_ids_own split: if_splits)

lemma step_block:
  assumes "w_step w \<le> 4"
  shows "\<exists>is. wizard_blocks env w (step_fields (w_step w)) is (step_page env kwp w) \<and> distinct is"
proof -
  consider "w_step w = 0" | "w_step w = 1" | "w_step w = 2" | "w_step w = 3" | "w_step w = 4" using assms by linarith
  then show ?thesis
  proof cases
    case 1
    show ?thesis by (rule exI, rule conjI)
      (simp add: step_page_def 1, rule blocks_one, rule block_account, simp add: field_ids_apart Int_Un_distrib)
  next
    case 2
    show ?thesis by (rule exI, rule conjI)
      (simp add: step_page_def 2, rule blocks_one, rule block_logger, simp add: field_ids_apart Int_Un_distrib)
  next
    case 3
    show ?thesis by (rule exI, rule conjI)
      (simp add: step_page_def 3, rule blocks_one, rule block_panels, simp add: field_ids_apart Int_Un_distrib mppt_apart mppt_distinct)
  next
    case 4
    show ?thesis by (rule exI, rule conjI)
      (simp add: step_page_def 4, rule blocks_one, rule block_location, simp add: field_ids_apart Int_Un_distrib)
  next
    case 5
    show ?thesis by (rule exI, rule conjI) (simp add: step_page_def 5, rule blocks_one, rule block_review, simp)
  qed
qed

lemma block_progress: "block val chg es [] [] (OnboardingProgress n)"
  by (simp add: OnboardingProgress_def stepNames_def block_def listed_simps only_if_def)

lemma blocks_alert: "blocks val chg es [] [] (general_alert errors)"
  by (simp add: general_alert_def blocks_def listed_simps split: option.splits)

lemma block_actions: "block val chg es [] [] (form_actions w)"
  by (simp add: form_actions_def block_def listed_simps only_if_def icon_def)

lemma page_block:
  assumes "w_step w \<le> 4"
  shows "\<exists>ks. wizard_block env w (step_fields (w_step w)) ks (OnboardingWizard env kwp w) \<and> distinct ks"
proof -
  obtain ks where ks: "wizard_blocks env w (step_fields (w_step w)) ks (step_page env kwp w)" "distinct ks"
    using step_block [OF assms] by blast
  have "wizard_blocks env w (step_fields (w_step w)) ks (step_page env kwp w @ general_alert (w_errors w) @ [form_actions w])"
    using blocks_append [OF ks(1) blocks_append [OF blocks_alert blocks_one [OF block_actions]]] by simp
  then have form: "wizard_block env w (step_fields (w_step w)) ks (El Form [] [(OnSubmit, \<lambda>_. FormSubmit)]
      (step_page env kwp w @ general_alert (w_errors w) @ [form_actions w]))" by (rule block_El) simp_all
  have "wizard_block env w (step_fields (w_step w)) ks (OnboardingWizard env kwp w)"
    unfolding OnboardingWizard_def using blocks_Cons [OF block_progress blocks_one [OF form]] by (intro block_El) simp_all
  with ks(2) show ?thesis by blast
qed

section \<open>Errors are reported\<close>

lemma block_page_ok: "block val chg es fs ks n \<Longrightarrow> distinct ks \<Longrightarrow> page_ok n"
  by (auto simp: block_def page_ok_def)

lemma general_shown:
  "(General, m) \<in> set (w_errors w) \<Longrightarrow> distinct (map fst (w_errors w)) \<Longrightarrow>
   \<exists>p \<in> set (elements (OnboardingWizard env kwp w)). attr_of Role p = Some (js ''alert'') \<and> text_content p = message_text m"
  by (simp add: OnboardingWizard_def general_alert_def error_text_def)

lemma field_focus: "field_on val chg f n \<Longrightarrow>
    \<exists>t. focus_target f n = Some t \<and> (attr_of Id t = Some (field_name f) \<or> attr_of Name t = Some (field_name f))"
proof -
  assume "field_on val chg f n"
  then obtain e where e: "e \<in> set (elements n)" "attr_of Id e = Some (field_name f) \<or> attr_of Name e = Some (field_name f)"
    by (auto simp: field_on_def split: if_splits)
  have "get_by_id (field_name f) n \<noteq> None \<or> get_by_name (field_name f) n \<noteq> None"
    using e by (auto simp: get_by_id_def get_by_name_def find_None_iff)
  then show ?thesis
    by (auto simp: focus_target_def get_by_id_def get_by_name_def split: option.splits dest: find_holds)
qed

text \<open>The message of a field on the page: its text, the input of the field that refers to it, the target of the focus.\<close>

definition reported :: "field \<Rightarrow> message \<Rightarrow> 'e node \<Rightarrow> bool" where
  "reported f m page \<longleftrightarrow> (\<exists>p. get_by_id (error_id f) page = Some p \<and> text_content p = message_text m)
     \<and> (\<exists>e \<in> set (elements page). marks_field f e \<and> attr_of Invalid e = Some (js ''true'') \<and> error_id f \<in> set (listed DescribedBy e))
     \<and> (\<exists>t. focus_target f page = Some t \<and> (attr_of Id t = Some (field_name f) \<or> attr_of Name t = Some (field_name f)))"

lemma error_reported:
  assumes "block val chg es fs ks page" "distinct ks" "f \<in> set fs" "error_text es f = Some (message_text m)"
  shows "reported f m page"
proof -
  have on: "field_on val chg f page" "error_on f (message_text m) page" and ids: "distinct (ids page)"
    using assms by (auto simp: block_def)
  then show ?thesis using field_focus [OF on(1)]
    by (auto simp: reported_def error_on_def dest!: get_by_id_found [OF ids])
qed

lemma submit_focus: "w_errors (form_submit env w) = [] \<or> w_focus (form_submit env w) = Some (fst (hd (w_errors (form_submit env w))))"
proof (cases "w_step w = 4")
  case True
  then show ?thesis by (cases rule: submit_cases [of env w]) (simp_all add: form_submit_def stepNames_length_def)
qed (simp add: form_submit_def stepNames_length_def advance_def Let_def split: list.splits prod.splits)

lemma refused_focus: "w_errors (onError env error w) = w_errors w
    \<or> (\<exists>f m. w_errors (onError env error w) = [(f, m)] \<and> (f = General \<or> w_focus (onError env error w) = Some f))"
  by (cases error) (simp_all add: onError_def Let_def split: prod.splits)

text \<open>
  C11. The wizard tells what is wrong, where it can be seen: in every state it can reach its page is
  well formed (identifiers are unique, labels and descriptions refer to elements of the page, every
  input has a name), every error it holds has its text on the page that is shown, tied to the very
  input of its field (to the group of switches for the inputs of the inverter), which is marked
  invalid and can be found to take the focus, or is an alert when it belongs to no field; a submission
  that stops leaves the focus on the first of its errors, and a refusal by the server either leaves
  the errors alone, or shows one, of no field or of a field that gets the focus.
\<close>

theorem wizard_reports:
  assumes "w = foldl (wizard_step env) (initial_wizard zone) events" and "page = OnboardingWizard env kwp w"
  shows "page_ok page
    \<and> (\<forall>(f, m) \<in> set (w_errors w). if f = General
        then \<exists>p \<in> set (elements page). attr_of Role p = Some (js ''alert'') \<and> text_content p = message_text m
        else reported f m page)
    \<and> (let w' = wizard_step env w FormSubmit in w_errors w' = [] \<or> w_focus w' = Some (fst (hd (w_errors w'))))
    \<and> (\<forall>error. let w' = wizard_step env w (Refused error) in w_errors w' = w_errors w
        \<or> (\<exists>f m. w_errors w' = [(f, m)] \<and> (f = General \<or> w_focus w' = Some f)))"
proof -
  have here: "errors_here w" unfolding assms(1) by (rule errors_here_run)
  then obtain ks where ks: "wizard_block env w (step_fields (w_step w)) ks page" "distinct ks"
    using page_block [of w env kwp] unfolding assms(2) errors_here_def by blast
  have "if f = General then \<exists>p \<in> set (elements page). attr_of Role p = Some (js ''alert'') \<and> text_content p = message_text m
      else reported f m page" if err: "(f, m) \<in> set (w_errors w)" for f m
  proof (cases "f = General")
    case True
    with err here general_shown [of m w env kwp] show ?thesis by (simp add: assms(2) errors_here_def)
  next
    case False
    have "f \<in> set (step_fields (w_step w))" using here err False unfolding errors_here_def by force
    moreover have "error_text (w_errors w) f = Some (message_text m)"
      using here err by (simp add: errors_here_def error_text_def)
    ultimately show ?thesis using error_reported [OF ks] False by simp
  qed
  then show ?thesis using block_page_ok [OF ks] submit_focus [of env w] refused_focus [of env _ w] unfolding Let_def by auto
qed

lemma wizard_reports_witness:
  "reported Username UsernameMissing
     (OnboardingWizard sample_env (\<lambda>x. []) (foldl (wizard_step sample_env) (initial_wizard (js ''UTC'')) [FormSubmit]))"
proof -
  define w where "w = foldl (wizard_step sample_env) (initial_wizard (js ''UTC'')) [FormSubmit]"
  have "w_errors w = [(Username, UsernameMissing), (Password, PasswordShort)]"
    by (simp add: w_def form_submit_def initial_wizard_def stepNames_length_def advance_def validateStep_def gather_def
        initialOnboardingValues_def trim_def)
  with wizard_reports [OF w_def refl, where kwp = "\<lambda>x. []"] show ?thesis unfolding w_def [symmetric] by simp
qed

section \<open>Typing\<close>

lemma typed_value:
  assumes "f \<noteq> ActiveMPPT" "stepForField f \<noteq> None"
  shows "onboarding_text g (w_values (update f s w)) = (if g = f then s else onboarding_text g (w_values w))"
  using assms by (cases f; cases g) (simp_all add: update_def onboarding_text_def stepForField_def)

text \<open>
  C13. The fields of the wizard are bound to its values: in every state it can reach, each text field
  of the step that is shown has its input on the page with the current value, and typing a text into
  it leads to a state of the same step whose page shows that text in that input (the currency in
  upper case) and leaves the value of every other field as it was.
\<close>

theorem wizard_edits:
  assumes "w = foldl (wizard_step env) (initial_wizard zone) events"
    and "f \<in> set (step_fields (w_step w))" "f \<noteq> ActiveMPPT"
  shows "\<exists>e change. get_by_id (field_name f) (OnboardingWizard env kwp w) = Some e
    \<and> attr_of Value e = Some (onboarding_text f (w_values w)) \<and> hook_of OnChange e = Some change
    \<and> (\<forall>s. let w' = wizard_step env w (change s) in w_step w' = w_step w
        \<and> (\<exists>e'. get_by_id (field_name f) (OnboardingWizard env kwp w') = Some e'
            \<and> attr_of Value e' = Some (if f = Currency then upper env s else s))
        \<and> (\<forall>g. g \<noteq> f \<longrightarrow> onboarding_text g (w_values w') = onboarding_text g (w_values w)))"
proof -
  have bound: "\<exists>e. get_by_id (field_name f) (OnboardingWizard env kwp u) = Some e
      \<and> attr_of Value e = Some (onboarding_text f (w_values u)) \<and> hook_of OnChange e = Some (on_change env Update f)"
    if four: "w_step u \<le> 4" and same: "w_step u = w_step w" for u
  proof -
    obtain ks where ks: "wizard_block env u (step_fields (w_step u)) ks (OnboardingWizard env kwp u)" "distinct ks"
      using page_block [OF four] by blast
    then have ids: "distinct (ids (OnboardingWizard env kwp u))" by (simp add: block_def)
    have "field_on (\<lambda>f. onboarding_text f (w_values u)) (on_change env Update) f (OnboardingWizard env kwp u)"
      using ks(1) assms(2) same by (simp add: block_def)
    then show ?thesis using assms(3) by (auto simp: field_on_def dest!: get_by_id_found [OF ids])
  qed
  have "errors_here w" unfolding assms(1) by (rule errors_here_run)
  then have four: "w_step w \<le> 4" by (simp add: errors_here_def)
  have known: "stepForField f \<noteq> None" using assms(2) unfolding step_fields_iff by simp
  define typed where "typed s = (if f = Currency then upper env s else s)" for s
  have change: "wizard_step env w (on_change env Update f s) = update f (typed s) w" for s
    by (simp add: on_change_def typed_def)
  have "w_step (update f t w) = w_step w" for t by (simp add: update_def)
  with bound [of "update f (typed s) w" for s] four typed_value [OF assms(3) known, where w = w] bound [OF four refl]
  show ?thesis unfolding Let_def typed_def [symmetric] by (force simp: change)
qed

lemma wizard_edits_witness:
  "\<exists>e. get_by_id (js ''password'') (OnboardingWizard sample_env (\<lambda>x. []) (initial_wizard (js ''UTC''))) = Some e"
proof -
  have "Password \<in> set (step_fields (w_step (initial_wizard (js ''UTC''))))" by (simp add: initial_wizard_def)
  from wizard_edits [of _ sample_env "js ''UTC''" "[]" Password "\<lambda>x. []", simplified foldl_Nil, OF refl this] show ?thesis by auto
qed

section \<open>The secrets of the review\<close>

text \<open>Of the passwords the page of the review shows nothing, of the serial number its last four units at most.\<close>

lemma review_hides:
  assumes "v' = v\<lparr>password := p, confirmPassword := q, loggerSerial := s\<rparr>" "4 < length s" "4 < length (loggerSerial v)"
    and "drop (length s - 4) s = drop (length (loggerSerial v) - 4) (loggerSerial v)"
  shows "ReviewStep v' = ReviewStep v"
  using assms by (simp add: ReviewStep_def masked_def)

section \<open>The tariff\<close>

text \<open>
  The tariff is a number field, and its initial value has a comma: the browser does not take it for
  a number and shows an empty field, although the form accepts the value and would send it.
\<close>

lemma tariff_not_shown:
  assumes "w_step w = 3" "tariff (w_values w) = tariff (initialOnboardingValues zone)"
  shows "\<exists>e. get_by_id (js ''tariff'') (OnboardingWizard env kwp w) = Some e \<and> attr_of Value e = Some (js ''0,95'')
    \<and> shown_value e = [] \<and> tariffMinor (tariff (w_values w)) = Some (Fin 95)"
proof -
  have tariff: "tariff (w_values w) = js ''0,95''" using assms(2) by (simp add: initialOnboardingValues_def)
  obtain ks where ks: "wizard_block env w (step_fields (w_step w)) ks (OnboardingWizard env kwp w)" "distinct ks"
    using page_block [of w] assms(1) by auto
  then have ids: "distinct (ids (OnboardingWizard env kwp w))" by (simp add: block_def)
  have "\<exists>e \<in> set (elements (OnboardingWizard env kwp w)). attr_of Id e = Some (js ''tariff'')
      \<and> attr_of Value e = Some (js ''0,95'') \<and> attr_of Type e = Some (js ''number'')"
    by (simp add: OnboardingWizard_def step_page_def assms(1) LocationStep_def StepHeading_def DecimalField_def Field_def
        bound_input_def set_attr_simps tariff bex_elements Let_def del: elements.simps)
  then obtain e where e: "e \<in> set (elements (OnboardingWizard env kwp w))" "attr_of Id e = Some (js ''tariff'')"
    "attr_of Value e = Some (js ''0,95'')" "attr_of Type e = Some (js ''number'')" by blast
  have "\<not> html_number (js ''0,95'')" by code_simp
  moreover have "tariffMinor (js ''0,95'') = Some (Fin 95)" by (rule sample_tariff)
  ultimately show ?thesis using get_by_id_found [OF ids e(1,2)] e(3,4) by (simp add: shown_value_def tariff)
qed

lemma tariff_not_shown_witness:
  "tariffMinor (tariff (w_values (initial_wizard (js ''UTC'')\<lparr>w_step := 3\<rparr>))) = Some (Fin 95)"
  using tariff_not_shown [of "initial_wizard (js ''UTC'')\<lparr>w_step := 3\<rparr>" "js ''UTC''" sample_env "\<lambda>x. []"]
  by (auto simp: initial_wizard_def)

end
