(* ===== verification/SettingsView.thy ===== *)
theory SettingsView
  imports SettingsEditor Panels Theme WizardView
begin

text \<open>
  The page of the settings, what \<open>web/src/features/settings/\<close> renders: \<open>SettingsPage.tsx\<close> with
  \<open>SystemForm.tsx\<close>, \<open>ConnectionPanel.tsx\<close>, \<open>DataPanel.tsx\<close> and \<open>SolarmanPanel.tsx\<close>, on the states of
  their machines (\<open>SettingsEditor\<close>, \<open>Panels\<close>, \<open>Theme\<close>).

  The main result, \<open>settings_reports\<close>: the page is well formed in every state, it shows every error
  the form holds and ties it to its input, and the effect that focuses the first error finds that
  input, except for the inputs of the inverter, which have no identifier to be found by.

  Parameters: \<open>kwp\<close>, the format of \<open>Intl.NumberFormat\<close> with two decimals.
\<close>

section \<open>Events of the page\<close>

datatype settings_page_event = Editing editor_event | ChooseTheme theme_choice | Backing backup_event | Solarman solarman_event
  | RetryHealth | RetrySettings

section \<open>The fields\<close>

definition settings_input :: "errors \<Rightarrow> field \<Rightarrow> (attr \<times> jsstring) list \<Rightarrow> jsstring \<Rightarrow> (jsstring \<Rightarrow> 'e) \<Rightarrow> 'e node" where
  "settings_input es f extra v change = El Input
     ([(Id, field_name f), (Value, v), (Invalid, bool_text (error_text es f \<noteq> None))]
       @ only_if (error_text es f \<noteq> None) [(DescribedBy, error_id f)] @ extra) [(OnChange, change)] []"

definition SettingsField :: "errors \<Rightarrow> field \<Rightarrow> jsstring \<Rightarrow> 'e node list \<Rightarrow> 'e node" where
  "SettingsField es f label children =
     El Div (form_field es f) [] ([El Label [(For, field_name f)] [] [Txt label]] @ children @ error_note es f)"

text \<open>A field whose only child is its input.\<close>

definition bound_field :: "errors \<Rightarrow> settings_values \<Rightarrow> field \<Rightarrow> jsstring \<Rightarrow> (attr \<times> jsstring) list \<Rightarrow> settings_page_event node" where
  "bound_field es v f label extra =
     SettingsField es f label [settings_input es f extra (settings_text f v) (\<lambda>s. Editing (SetField f s))]"

definition SectionHeading :: "jsstring \<Rightarrow> jsstring \<Rightarrow> jsstring \<Rightarrow> jsstring list \<Rightarrow> 'e node" where
  "SectionHeading eyebrow i title notes = El Div [] []
     ([El Paragraph [] [] [Txt eyebrow], El Heading [(Id, i)] [] [Txt title]] @ map (\<lambda>n. El Paragraph [] [] [Txt n]) notes)"

section \<open>The parts of the page\<close>

definition settings_mppt :: "settings_values \<Rightarrow> nat \<Rightarrow> settings_page_event node" where
  "settings_mppt v n = El Label [] []
     [El Input ([(Type, js ''checkbox'')] @ only_if (Fin (of_nat n) \<in> set (activeMPPT v)) [(Checked, [])])
        [(OnChange, \<lambda>_. Editing (ToggleInput (Fin (of_nat n))))] [],
      Txt (js ''PV'' @ show_nat n)]"

definition settings_fieldset :: "errors \<Rightarrow> settings_values \<Rightarrow> settings_page_event node" where
  "settings_fieldset es v = El Fieldset (only_if (error_text es ActiveMPPT \<noteq> None) [(DescribedBy, error_id ActiveMPPT)]
       @ [(Invalid, bool_text (error_text es ActiveMPPT \<noteq> None))]) []
     ([El Legend [] [] [Txt (js ''Entradas fotovoltaicas ativas'')]] @ map (settings_mppt v) [1, 2] @ error_note es ActiveMPPT)"

definition SystemForm :: "(jsnum \<Rightarrow> jsstring) \<Rightarrow> errors \<Rightarrow> settings_values \<Rightarrow> settings_page_event node" where
  "SystemForm kwp es v = El Section [(LabelledBy, js ''system-title'')] []
     [SectionHeading (jsx ''01 &middot; Sistema'') (js ''system-title'') (jsx ''A instala&ccedil;&atilde;o como ela &eacute;.'')
        [jsx ''Esses dados contextualizam a gera&ccedil;&atilde;o. A capacidade &eacute; sempre calculada a partir dos pain&eacute;is informados.''],
      El Div [] []
        [El Div [] []
           [bound_field es v PanelCount (jsx ''Quantidade de pain&eacute;is'') [(Min, js ''1''), (Type, js ''number'')],
            bound_field es v PanelWattage (jsx ''Pot&ecirc;ncia por painel (W)'') [(Min, js ''1''), (Type, js ''number'')]],
         El Output [(LiveRegion, js ''polite'')] []
           [icon, El Span [] [] [Txt (fst (capacity_output kwp v))], El Strong [] [] [Txt (snd (capacity_output kwp v))]],
         settings_fieldset es v,
         El Div [] []
           [bound_field es v Latitude (js ''Latitude'') [(Step, js ''any''), (Type, js ''number'')],
            bound_field es v Longitude (js ''Longitude'') [(Step, js ''any''), (Type, js ''number'')]],
         El Div [] []
           [bound_field es v Timezone (jsx ''Fuso hor&aacute;rio IANA'') [],
            bound_field es v Tariff (js ''Tarifa por kWh'') []],
         bound_field es v Currency (js ''Moeda'') [(MaxLength, js ''3'')]]]"

definition password_field :: "errors \<Rightarrow> jsstring \<Rightarrow> settings_page_event node" where
  "password_field es typed = SettingsField es CurrentPassword (js ''Senha atual'')
     [El Paragraph [(Id, hint_id CurrentPassword)] []
        [Txt (jsx ''Para proteger a conex&atilde;o local, confirme a senha atual antes de alterar a identidade do logger.'')],
      El Input [(DescribedBy, hint_id CurrentPassword @ (if error_text es CurrentPassword \<noteq> None then 32 # error_id CurrentPassword else [])),
          (Invalid, bool_text (error_text es CurrentPassword \<noteq> None)), (Id, field_name CurrentPassword),
          (Type, js ''password''), (Value, typed)] [(OnChange, \<lambda>s. Editing (TypePassword s))] []]"

definition health_list :: "health_view \<Rightarrow> settings_page_event node" where
  "health_list h = (case h of
       HealthRetry \<Rightarrow> El Div [] [] [El Paragraph [] [] [Txt (jsx ''N&atilde;o foi poss&iacute;vel consultar a conex&atilde;o.'')],
         El Button [(Type, js ''button'')] [(OnClick, \<lambda>_. RetryHealth)] [Txt (jsx ''Tentar consultar conex&atilde;o'')]]
     | HealthPending \<Rightarrow> El Paragraph [(Busy, js ''true'')] [] [Txt (jsx ''Consultando processo, banco, logger e clima&hellip;'')]
     | HealthList rows \<Rightarrow> El DescriptionList [] [] (map (\<lambda>(label, dot, value).
         El Div [] [] [El Term [] [] [icon, Txt label],
           El Description [] [] [El Icon [(ClassName, dot), (Hidden, js ''true'')] [] [], Txt value]]) rows))"

definition ConnectionPanel :: "bool \<Rightarrow> jsstring \<Rightarrow> errors \<Rightarrow> health_view \<Rightarrow> settings_values \<Rightarrow> settings_page_event node" where
  "ConnectionPanel changed typed es h v = El Section [(LabelledBy, js ''connection-title'')] []
     [SectionHeading (jsx ''02 &middot; Conex&atilde;o'') (js ''connection-title'') (js ''Uma leitura local, sem comandos.'')
        [jsx ''O Helio permanece somente leitura: consulta o logger e o inversor, sem escrever registradores nem alterar o equipamento.''],
      El Div [] []
        [El Div [] []
           ([bound_field es v LoggerHost (jsx ''Endere&ccedil;o IP do logger'') [],
             bound_field es v LoggerSerial (jsx ''N&uacute;mero de s&eacute;rie do logger'') [],
             El Div [] []
               [bound_field es v LoggerPort (js ''Porta do logger'') [(Min, js ''1''), (Type, js ''number'')],
                bound_field es v ModbusSlave (jsx ''Endere&ccedil;o Modbus'') [(Min, js ''1''), (Type, js ''number'')]]]
            @ only_if changed [password_field es typed]),
         El Section [(AriaLabel, jsx ''Estado da conex&atilde;o'')] []
           [El Div [] [] [El Heading [] [] [Txt (jsx ''Sa&uacute;de dos componentes'')],
              El Paragraph [] [] [Txt (jsx ''Falhas do logger ou do clima n&atilde;o significam que o processo ou o banco pararam.'')]],
            health_list h]]]"

definition theme_choices :: "(jsstring \<times> theme_choice) list" where
  "theme_choices = [(js ''Sistema'', System), (js ''Claro'', Light), (js ''Escuro'', Dark)]"

definition AppearanceSection :: "theme_choice \<Rightarrow> settings_page_event node" where
  "AppearanceSection current = El Section [(LabelledBy, js ''appearance-title'')] []
     [SectionHeading (jsx ''03 &middot; Apar&ecirc;ncia'') (js ''appearance-title'') (js ''Luz para cada momento.'')
        [jsx ''O modo Sistema acompanha a prefer&ecirc;ncia do dispositivo. A escolha manual fica apenas neste navegador.''],
      El Fieldset [] [] ([El Legend [] [] [Txt (js ''Tema da interface'')]] @ map (\<lambda>(label, choice). El Label [] []
         [El Input ([(Name, js ''settings-theme''), (Type, js ''radio'')] @ only_if (current = choice) [(Checked, [])])
            [(OnChange, \<lambda>_. ChooseTheme choice)] [], Txt label]) theme_choices)]"

definition DataPanel :: "errors \<Rightarrow> settings_values \<Rightarrow> backup_state \<Rightarrow> settings_page_event node" where
  "DataPanel es v st = El Section [(LabelledBy, js ''data-title'')] []
     [SectionHeading (jsx ''04 &middot; Dados'') (js ''data-title'') (jsx ''Seu hist&oacute;rico continua port&aacute;til.'')
        [jsx ''O backup &eacute; uma fotografia consistente do banco local, preparada pelo servidor antes do download.''],
      El Div [] []
        [bound_field es v RetentionDays (jsx ''Reten&ccedil;&atilde;o do hist&oacute;rico (dias)'')
           [(Min, js ''30''), (Max, js ''3650''), (Type, js ''number'')],
         El Button (only_if (st = BackupLoading) [(Disabled, [])] @ [(Type, js ''button'')]) [(OnClick, \<lambda>_. Backing BackupClick)]
           [icon, Txt (if st = BackupLoading then jsx ''Preparando backup&hellip;'' else js ''Baixar backup consistente'')],
         El Div [(LiveRegion, js ''polite'')] []
           (only_if (st = BackupError)
              [El Paragraph [] [] [Txt (jsx ''N&atilde;o foi poss&iacute;vel preparar o backup. Tente novamente.'')],
               El Button [(Type, js ''button'')] [(OnClick, \<lambda>_. Backing BackupClick)] [Txt (js ''Tentar baixar novamente'')]]
            @ only_if (st = BackupSuccess) [El Paragraph [] [] [Txt (js ''Backup preparado e enviado ao navegador.'')]])]]"

section \<open>The Solarman panel\<close>

definition solarman_button :: "bool \<Rightarrow> solarman_event \<Rightarrow> settings_page_event node list \<Rightarrow> settings_page_event node" where
  "solarman_button disabled ev children =
     El Button (only_if disabled [(Disabled, [])] @ [(Type, js ''button'')]) [(OnClick, \<lambda>_. Solarman ev)] children"

definition solarman_account :: "solarman_status \<Rightarrow> solarman \<Rightarrow> settings_page_event node list" where
  "solarman_account st w = only_if (sm_configured st)
     ([El Div [] [] [icon,
         El Div [] [] [El Strong [] [] [Txt (js ''Conta preparada: '' @ or_else (sm_account st) [])],
           El Paragraph [] [] [Txt ((case stationName st of Some name \<Rightarrow> if name \<noteq> [] then jsx ''Esta&ccedil;&atilde;o: '' @ name @ js ''. '' else [] | None \<Rightarrow> [])
             @ js ''APP ID '' @ or_else (appIdSuffix st) [] @ js ''. Segredos nunca voltam para tela.'')]],
         solarman_button (sm_testing w) TestClick [icon, Txt (if sm_testing w then jsx ''Testando&hellip;'' else jsx ''Testar conex&atilde;o'')]]]
      @ only_if (has_station st) [El Div [] []
        [El Div [] [] [El Strong [] [] [Txt (js ''Recuperar lacunas'')],
           El Paragraph [] [] [Txt (jsx ''Leitura somente. M&aacute;ximo 30 dias; 40 chamadas/minuto.'')]],
         El Div [] []
           [solarman_button (sm_syncing w) SyncWeek [icon, Txt (if sm_syncing w then jsx ''Sincronizando&hellip;'' else jsx ''&Uacute;ltimos 7 dias'')],
            solarman_button (sm_syncing w) SyncMonth [Txt (jsx ''&Uacute;ltimos 30 dias'')]]]])"

definition credential_field :: "jsstring \<Rightarrow> jsstring \<Rightarrow> (attr \<times> jsstring) list \<Rightarrow> credential \<Rightarrow> jsstring \<Rightarrow> settings_page_event node" where
  "credential_field i label extra k v = El Div [] []
     [El Label [(For, i)] [] [Txt label], El Input ([(Id, i), (Value, v)] @ extra) [(OnChange, \<lambda>s. Solarman (TypeCredential k s))] []]"

definition solarman_form :: "solarman_status \<Rightarrow> solarman \<Rightarrow> settings_page_event node" where
  "solarman_form st w = El Div [] []
     [credential_field (js ''solarman-account'') (jsx ''Email ou usu&aacute;rio Solarman'') [] Account (account (sm_values w)),
      credential_field (js ''solarman-password'') (js ''Senha Solarman'') [(Type, js ''password'')] SolarmanPassword (sm_password (sm_values w)),
      credential_field (js ''solarman-app-id'') (js ''APP ID'') [] AppId (appId (sm_values w)),
      credential_field (js ''solarman-app-secret'') (js ''APP Secret'') [(Type, js ''password'')] AppSecret (appSecret (sm_values w)),
      El Div [] []
        [solarman_button (\<not> ready (sm_values w) \<or> sm_saving w) SaveClick
           [icon, Txt (if sm_saving w then jsx ''Cifrando&hellip;'' else if sm_configured st then js ''Trocar credenciais''
             else js ''Salvar credenciais cifradas'')],
         El Paragraph [] [] [Txt (js ''Senha e segredo seguem direto para armazenamento cifrado. Nenhum valor aparece depois.'')]]]"

definition solarman_locked :: "solarman_status option \<Rightarrow> settings_page_event node" where
  "solarman_locked st = El Div [] [] [icon,
     El Div [] [] [El Strong [] [] [Txt (jsx ''Chave local ainda n&atilde;o configurada.'')],
       El Paragraph [] [] [Txt (or_else (Option.bind st sm_reason)
         (js ''Defina HELIO_SECRETS_KEY no arquivo deploy/helio.env e reinicie o Docker.''))]]]"

text \<open>\<open>pending\<close> is the query's; a query that failed has no status.\<close>

definition SolarmanPanel :: "bool \<Rightarrow> solarman \<Rightarrow> settings_page_event node list" where
  "SolarmanPanel pending w = only_if (\<not> pending) [El Section [(LabelledBy, js ''solarman-title'')] []
     [SectionHeading (jsx ''04 &middot; Recupera&ccedil;&atilde;o'') (js ''solarman-title'') (jsx ''Nuvem s&oacute; quando faltar dado.'')
        [jsx ''Conex&atilde;o opcional, leitura somente. Helio usa Solarman para recuperar intervalo perdido depois de ficar offline.''],
      El Div [] []
        ((case sm_status w of
            Some st \<Rightarrow> if sm_available st then solarman_account st w @ [solarman_form st w] else [solarman_locked (Some st)]
          | None \<Rightarrow> [solarman_locked None])
         @ (case shown_text w of None \<Rightarrow> []
             | Some (is_error, m) \<Rightarrow> [El Paragraph [(ClassName, if is_error then js ''form-alert'' else js ''save-success''),
                 (LiveRegion, js ''polite'')] [] [Txt (panel_copy m)]]))]]"

section \<open>The page\<close>

definition status_copy :: "editor_status \<Rightarrow> jsstring option" where
  "status_copy s = (case s of NoStatus \<Rightarrow> None
     | Saved \<Rightarrow> Some (jsx ''Configura&ccedil;&otilde;es salvas.'')
     | ServerLoaded \<Rightarrow> Some (jsx ''Altera&ccedil;&otilde;es do servidor carregadas.'')
     | EditsKept \<Rightarrow> Some (jsx ''Suas edi&ccedil;&otilde;es foram mantidas.''))"

definition conflict_section :: "editor \<Rightarrow> settings_page_event node list" where
  "conflict_section e = only_if (conflict e \<noteq> None)
     [El Section [(AriaLabel, jsx ''Configura&ccedil;&otilde;es alteradas no servidor''), (LiveRegion, js ''polite''), (Role, js ''status'')] []
        [El Div [] [] [El Strong [] [] [Txt (jsx ''As configura&ccedil;&otilde;es foram alteradas em outra sess&atilde;o.'')],
           El Paragraph [] [] [Txt (if saving e then jsx ''Aguarde o salvamento terminar para escolher quais valores devem permanecer.''
             else js ''Escolha quais valores devem permanecer antes de continuar.'')]],
         El Div [] []
           [El Button (only_if (saving e) [(Disabled, [])] @ [(Type, js ''button'')]) [(OnClick, \<lambda>_. Editing LoadServer)]
              [Txt (jsx ''Carregar altera&ccedil;&otilde;es do servidor'')],
            El Button (only_if (saving e) [(Disabled, [])] @ [(Type, js ''button'')]) [(OnClick, \<lambda>_. Editing KeepEdits)]
              [Txt (jsx ''Manter minhas edi&ccedil;&otilde;es'')]]]]"

definition save_rail :: "editor \<Rightarrow> settings_page_event node" where
  "save_rail e = El Div [] []
     [El Div [(AriaLabel, case error_text (e_errors e) General of Some m \<Rightarrow> m
            | None \<Rightarrow> or_else (status_copy (e_state e)) (js ''Estado do salvamento'')), (LiveRegion, js ''polite''), (Role, js ''status'')] []
        [case error_text (e_errors e) General of Some m \<Rightarrow> El Paragraph [] [] [Txt m]
           | None \<Rightarrow> (case status_copy (e_state e) of Some t \<Rightarrow> El Paragraph [] [] [icon, Txt t]
               | None \<Rightarrow> El Paragraph [] [] [Txt (js ''Revise os ajustes antes de salvar.'')])],
      El Button (only_if (saving e) [(Disabled, [])] @ [(Type, js ''submit'')]) []
        [Txt (if saving e then jsx ''Salvando configura&ccedil;&otilde;es&hellip;'' else jsx ''Salvar configura&ccedil;&otilde;es'')]]"

definition AboutSection :: "settings_page_event node" where
  "AboutSection = El Section [(LabelledBy, js ''about-title'')] []
     [SectionHeading (jsx ''05 &middot; Sobre'') (js ''about-title'') (js ''Helio v0.1'') [],
      El Div [] [] [icon, El Paragraph [] [] [Txt (jsx ''Monitor solar local e independente. Leituras do logger, hist&oacute;rico em SQLite e an&aacute;lises com evid&ecirc;ncias &mdash; sem comandos Modbus de escrita.'')]]]"

text \<open>What the page holds beside the form: the health, the theme, the backup, the Solarman panel.\<close>

record surroundings =
  a_health :: health_view
  a_theme :: theme_choice
  a_backup :: backup_state
  a_solarman_pending :: bool
  a_solarman :: solarman

definition EditorPage :: "(jsnum \<Rightarrow> jsstring) \<Rightarrow> surroundings \<Rightarrow> editor \<Rightarrow> settings_page_event node" where
  "EditorPage kwp a e = El Article [] []
     [El Header [] [] [El Paragraph [] [] [Txt (jsx ''Configura&ccedil;&atilde;o local'')],
        El Heading [] [] [Txt (jsx ''O observat&oacute;rio, do seu jeito.'')],
        El Paragraph [] [] [Txt (jsx ''Ajustes ficam neste Helio e neste navegador. Nenhum controle escreve no inversor.'')]],
      El Form [(Id, js ''settings-form'')] [(OnSubmit, \<lambda>_. Editing Save)]
        ([SystemForm kwp (e_errors e) (e_values e),
          ConnectionPanel (changedIdentity e) (currentPassword e) (e_errors e) (a_health a) (e_values e),
          AppearanceSection (a_theme a),
          DataPanel (e_errors e) (e_values e) (a_backup a)]
         @ SolarmanPanel (a_solarman_pending a) (a_solarman a) @ conflict_section e @ [save_rail e]),
      AboutSection]"

text \<open>The page before the editor: the query of the settings is pending, has failed, or has data.\<close>

datatype settings_query = SettingsPending | SettingsFailed | SettingsLoaded

definition SettingsPage :: "(jsnum \<Rightarrow> jsstring) \<Rightarrow> surroundings \<Rightarrow> settings_query \<Rightarrow> editor \<Rightarrow> settings_page_event node" where
  "SettingsPage kwp a q e = (case q of
       SettingsPending \<Rightarrow> El Section [(Busy, js ''true'')] [] [El Paragraph [] [] [Txt (jsx ''Carregando configura&ccedil;&otilde;es locais&hellip;'')]]
     | SettingsFailed \<Rightarrow> El Section [] [] [El Heading [] [] [Txt (jsx ''N&atilde;o foi poss&iacute;vel carregar as configura&ccedil;&otilde;es.'')],
         El Paragraph [] [] [Txt (jsx ''Os dados inseridos n&atilde;o foram alterados.'')],
         El Button [(Type, js ''button'')] [(OnClick, \<lambda>_. RetrySettings)] [Txt (jsx ''Tentar carregar configura&ccedil;&otilde;es'')]]
     | SettingsLoaded \<Rightarrow> EditorPage kwp a e)"

section \<open>The identifiers of the page\<close>

definition page_literals :: "jsstring list" where
  "page_literals = map js [''settings-form'', ''system-title'', ''connection-title'', ''appearance-title'', ''data-title'', ''about-title'',
     ''solarman-title'', ''solarman-account'', ''solarman-password'', ''solarman-app-id'', ''solarman-app-secret'']"

lemma literal_apart: "i \<in> set page_literals \<Longrightarrow> i \<noteq> field_name f \<and> i \<noteq> hint_id f \<and> i \<noteq> error_id f"
  by (cases f) (auto simp: page_literals_def hint_id_def error_id_def js_inj js_append [symmetric] simp del: js_append)

lemma literal_not_field: "i \<in> set page_literals \<Longrightarrow> i \<notin> set (field_ids h f es)"
  using literal_apart [of i f] by (auto dest!: field_ids_own)

lemma literal_token: "i \<in> set page_literals \<Longrightarrow> tokens i = [i]"
  by (rule tokens_word) (auto simp: page_literals_def js_def)

section \<open>The parts as blocks\<close>

lemma block_bound:
  assumes "f \<noteq> ActiveMPPT" "val f = settings_text f v" "chg f = (\<lambda>s. Editing (SetField f s))"
    and "map_of extra For = None" "map_of extra LabelledBy = None" "map_of extra DescribedBy = None"
  shows "block val chg es [f] (field_ids False f es) (bound_field es v f label extra)"
  using assms
  by (cases "error_text es f")
    (auto simp: block_def bound_field_def SettingsField_def settings_input_def form_field_def error_note_def listed_simps field_ids_def
      only_if_def field_on_def error_on_def marks_field_def bool_text_def map_add_def split: option.splits)

lemma block_SectionHeading: "block val chg es [] [i] (SectionHeading a i b ps)"
  by (induction ps) (simp_all add: SectionHeading_def block_def listed_simps)

lemma block_titled: "blocks val chg es fs (i # ks) ns \<Longrightarrow> i \<in> set page_literals \<Longrightarrow> block val chg es fs (i # ks) (El Section [(LabelledBy, i)] [] ns)"
  by (rule block_node) (auto simp: listed_simps literal_token)

definition fieldset_ids :: "errors \<Rightarrow> jsstring list" where
  "fieldset_ids es = only_if (error_text es ActiveMPPT \<noteq> None) [error_id ActiveMPPT]"

lemma block_fieldset: "block val chg es [] (fieldset_ids es) (settings_fieldset es v)"
  by (cases "error_text es ActiveMPPT")
    (simp_all add: block_def settings_fieldset_def settings_mppt_def error_note_def listed_simps fieldset_ids_def only_if_def)

lemmas settings_rules = block_titled block_SectionHeading block_fieldset block_El blocks_add blocks_Nil block_icon block_Txt refl

text \<open>What the form is bound to.\<close>

definition page_text :: "editor \<Rightarrow> field \<Rightarrow> jsstring" where
  "page_text e f = (if f = CurrentPassword then currentPassword e else settings_text f (e_values e))"

definition page_change :: "field \<Rightarrow> jsstring \<Rightarrow> settings_page_event" where
  "page_change f s = Editing (if f = CurrentPassword then TypePassword s else SetField f s)"

abbreviation page_block :: "editor \<Rightarrow> field list \<Rightarrow> jsstring list \<Rightarrow> settings_page_event node \<Rightarrow> bool" where
  "page_block e \<equiv> block (page_text e) page_change (e_errors e)"

abbreviation page_blocks :: "editor \<Rightarrow> field list \<Rightarrow> jsstring list \<Rightarrow> settings_page_event node list \<Rightarrow> bool" where
  "page_blocks e \<equiv> blocks (page_text e) page_change (e_errors e)"

lemma page_bound: "f \<noteq> ActiveMPPT \<Longrightarrow> f \<noteq> CurrentPassword \<Longrightarrow> map_of extra For = None \<Longrightarrow> map_of extra LabelledBy = None
    \<Longrightarrow> map_of extra DescribedBy = None \<Longrightarrow> page_block e [f] (field_ids False f (e_errors e)) (bound_field (e_errors e) (e_values e) f label extra)"
  by (rule block_bound) (simp_all add: page_text_def page_change_def [abs_def])

lemma block_system:
  "page_block e [PanelCount, PanelWattage, Latitude, Longitude, Timezone, Tariff, Currency]
     (js ''system-title'' # field_ids False PanelCount (e_errors e) @ field_ids False PanelWattage (e_errors e) @ fieldset_ids (e_errors e)
       @ field_ids False Latitude (e_errors e) @ field_ids False Longitude (e_errors e) @ field_ids False Timezone (e_errors e)
       @ field_ids False Tariff (e_errors e) @ field_ids False Currency (e_errors e))
     (SystemForm kwp (e_errors e) (e_values e))"
  unfolding SystemForm_def by (rule settings_rules page_bound | simp add: page_literals_def)+

lemma block_plain: "ids n = [] \<Longrightarrow> references n = [] \<Longrightarrow> inputs_named [] False n \<Longrightarrow> block val chg es [] [] n"
  using inputs_named_mono [of "[]" False n "labels_for n" False] by (simp add: block_def)

lemma block_data:
  "page_block e [RetentionDays] (js ''data-title'' # field_ids False RetentionDays (e_errors e)) (DataPanel (e_errors e) (e_values e) st)"
proof -
  have plain: "page_block e [] [] (El Button (only_if (st = BackupLoading) [(Disabled, [])] @ [(Type, js ''button'')]) [(OnClick, \<lambda>_. Backing BackupClick)]
      [icon, Txt t])" for t
    by (rule block_plain) (simp_all add: icon_def listed_simps only_if_def)
  have status: "page_block e [] [] (El Div [(LiveRegion, js ''polite'')] [] (only_if b
      [El Paragraph [] [] [Txt t], El Button [(Type, js ''button'')] [(OnClick, h)] [Txt t']] @ only_if b' [El Paragraph [] [] [Txt t'']]))"
    for b b' t t' t'' h
    by (cases b; cases b'; rule block_plain) (simp_all add: listed_simps)
  show ?thesis unfolding DataPanel_def by (rule settings_rules page_bound plain status | simp add: page_literals_def)+
qed

lemma block_appearance: "page_block e [] [js ''appearance-title''] (AppearanceSection c)"
proof -
  have plain: "page_block e [] [] (El Fieldset [] [] ([El Legend [] [] [Txt t]] @ map (\<lambda>(label, choice). El Label [] []
         [El Input ([(Name, n), (Type, js ''radio'')] @ only_if (c = choice) [(Checked, [])])
            [(OnChange, \<lambda>_. ChooseTheme choice)] [], Txt label]) cs))" for t n cs
    by (rule block_plain) (induction cs; auto simp: listed_simps only_if_def)+
  show ?thesis unfolding AppearanceSection_def by (rule plain settings_rules | simp add: page_literals_def)+
qed

definition password_ids :: "editor \<Rightarrow> jsstring list" where
  "password_ids e = only_if (changedIdentity e) (field_ids True CurrentPassword (e_errors e))"

lemma block_password: "page_block e [CurrentPassword] (field_ids True CurrentPassword (e_errors e)) (password_field (e_errors e) (currentPassword e))"
  using id_free [of CurrentPassword]
  by (cases "error_text (e_errors e) CurrentPassword")
    (auto simp: block_def password_field_def SettingsField_def form_field_def error_note_def listed_simps field_ids_def
      only_if_def field_on_def error_on_def marks_field_def bool_text_def tokens_words page_text_def page_change_def [abs_def] simp del: field_name.simps)

lemma block_health: "page_block e [] [] (health_list h)"
proof (rule block_plain)
  show "ids (health_list h) = []" "references (health_list h) = []" "inputs_named [] False (health_list h)"
    by (cases h; simp add: health_list_def listed_simps icon_def split_beta list_all_iff comp_def)+
qed

lemma block_connection:
  "page_block e ([LoggerHost, LoggerSerial, LoggerPort, ModbusSlave] @ only_if (changedIdentity e) [CurrentPassword])
     (js ''connection-title'' # field_ids False LoggerHost (e_errors e) @ field_ids False LoggerSerial (e_errors e)
       @ field_ids False LoggerPort (e_errors e) @ field_ids False ModbusSlave (e_errors e) @ password_ids e)
     (ConnectionPanel (changedIdentity e) (currentPassword e) (e_errors e) h (e_values e))"
  by (cases "changedIdentity e"; simp only: only_if_simps password_ids_def ConnectionPanel_def append_Nil2 append_Cons append_Nil)
    (rule settings_rules page_bound block_password block_health | simp add: page_literals_def)+

definition solarman_ids :: "bool \<Rightarrow> solarman \<Rightarrow> jsstring list" where
  "solarman_ids pending w = only_if (\<not> pending) (js ''solarman-title'' # (case sm_status w of None \<Rightarrow> []
     | Some st \<Rightarrow> only_if (sm_available st)
         [js ''solarman-account'', js ''solarman-password'', js ''solarman-app-id'', js ''solarman-app-secret'']))"

lemma block_credential: "i \<in> set page_literals \<Longrightarrow> map_of extra For = None \<Longrightarrow> map_of extra DescribedBy = None \<Longrightarrow> map_of extra LabelledBy = None
    \<Longrightarrow> page_block e [] [i] (credential_field i label extra k v)"
  by (simp add: block_def credential_field_def listed_simps literal_token map_add_def)

lemma block_solarman: "page_blocks e [] (solarman_ids pending w) (SolarmanPanel pending w)"
proof -
  have button: "page_block e [] [] (solarman_button d ev [icon, Txt t])" "page_block e [] [] (solarman_button d ev [Txt t])" for d ev t
    by (rule block_plain; simp add: solarman_button_def icon_def listed_simps only_if_def)+
  have account: "page_blocks e [] [] (solarman_account st w)" for st
    by (cases "sm_configured st"; cases "has_station st"; simp only: solarman_account_def only_if_simps append_Nil append_Cons append_Nil2;
        (rule settings_rules button | simp)+)
  have form: "page_block e [] [js ''solarman-account'', js ''solarman-password'', js ''solarman-app-id'', js ''solarman-app-secret''] (solarman_form st w)" for st
    unfolding solarman_form_def by (rule settings_rules block_credential button | simp add: page_literals_def)+
  have locked: "page_block e [] [] (solarman_locked st)" for st
    unfolding solarman_locked_def by (rule settings_rules | simp)+
  let ?body = "case sm_status w of
      Some st \<Rightarrow> if sm_available st then solarman_account st w @ [solarman_form st w] else [solarman_locked (Some st)]
    | None \<Rightarrow> [solarman_locked None]"
  let ?ks = "case sm_status w of None \<Rightarrow> []
     | Some st \<Rightarrow> only_if (sm_available st) [js ''solarman-account'', js ''solarman-password'', js ''solarman-app-id'', js ''solarman-app-secret'']"
  have "page_blocks e [] ?ks ?body"
    using blocks_append [OF account blocks_one [OF form]] blocks_one [OF locked] by (simp split: option.split)
  moreover have "page_blocks e [] [] (case shown_text w of None \<Rightarrow> [] | Some (is_error, m) \<Rightarrow>
      [El Paragraph [(ClassName, if is_error then a else b), (LiveRegion, c)] [] [Txt (panel_copy m)]])" for a b c
    by (auto simp: blocks_def listed_simps split: option.splits)
  ultimately have "page_blocks e [] ?ks (?body @ (case shown_text w of None \<Rightarrow> [] | Some (is_error, m) \<Rightarrow>
      [El Paragraph [(ClassName, if is_error then a else b), (LiveRegion, c)] [] [Txt (panel_copy m)]]))" for a b c
    using blocks_append [of "page_text e" page_change "e_errors e" "[]" ?ks ?body "[]" "[]"] by simp
  then have div: "page_block e [] ?ks (El Div [] [] (?body @ (case shown_text w of None \<Rightarrow> [] | Some (is_error, m) \<Rightarrow>
      [El Paragraph [(ClassName, if is_error then a else b), (LiveRegion, c)] [] [Txt (panel_copy m)]])))" for a b c
    by (rule block_El) simp_all
  have "page_blocks e [] (js ''solarman-title'' # ?ks) [SectionHeading x (js ''solarman-title'') y zs, El Div [] [] (?body @ (case shown_text w of
      None \<Rightarrow> [] | Some (is_error, m) \<Rightarrow> [El Paragraph [(ClassName, if is_error then a else b), (LiveRegion, c)] [] [Txt (panel_copy m)]]))]"
    for a b c x y zs
    using blocks_Cons [OF block_SectionHeading blocks_one [OF div]] by simp
  then show ?thesis unfolding SolarmanPanel_def solarman_ids_def
    by (cases pending) (auto simp: blocks_Nil page_literals_def intro!: blocks_one block_titled)
qed

section \<open>The whole page\<close>

definition page_ids :: "surroundings \<Rightarrow> editor \<Rightarrow> jsstring list" where
  "page_ids a e = [js ''settings-form'', js ''system-title'']
     @ field_ids False PanelCount (e_errors e) @ field_ids False PanelWattage (e_errors e) @ fieldset_ids (e_errors e)
     @ field_ids False Latitude (e_errors e) @ field_ids False Longitude (e_errors e) @ field_ids False Timezone (e_errors e)
     @ field_ids False Tariff (e_errors e) @ field_ids False Currency (e_errors e)
     @ [js ''connection-title''] @ field_ids False LoggerHost (e_errors e) @ field_ids False LoggerSerial (e_errors e)
     @ field_ids False LoggerPort (e_errors e) @ field_ids False ModbusSlave (e_errors e) @ password_ids e
     @ [js ''appearance-title'', js ''data-title''] @ field_ids False RetentionDays (e_errors e)
     @ solarman_ids (a_solarman_pending a) (a_solarman a) @ [js ''about-title'']"

definition form_fields :: "editor \<Rightarrow> field list" where
  "form_fields e = [PanelCount, PanelWattage, Latitude, Longitude, Timezone, Tariff, Currency, LoggerHost, LoggerSerial, LoggerPort,
     ModbusSlave] @ only_if (changedIdentity e) [CurrentPassword] @ [RetentionDays]"

lemma page_whole: "page_block e (form_fields e) (page_ids a e) (EditorPage kwp a e)"
proof -
  have conflict: "page_blocks e [] [] (conflict_section e)"
    by (auto simp: conflict_section_def blocks_def listed_simps only_if_def)
  have rail: "page_block e [] [] (save_rail e)"
    by (rule block_plain) (auto simp: save_rail_def listed_simps icon_def only_if_def split: option.split)
  have about: "page_block e [] [js ''about-title''] AboutSection"
    unfolding AboutSection_def by (rule settings_rules | simp add: page_literals_def)+
  have tail: "page_blocks e [] (solarman_ids (a_solarman_pending a) (a_solarman a))
      (SolarmanPanel (a_solarman_pending a) (a_solarman a) @ conflict_section e @ [save_rail e])"
    using blocks_append [OF block_solarman blocks_append [OF conflict blocks_one [OF rail]]] by simp
  let ?kids = "[SystemForm kwp (e_errors e) (e_values e),
      ConnectionPanel (changedIdentity e) (currentPassword e) (e_errors e) (a_health a) (e_values e),
      AppearanceSection (a_theme a), DataPanel (e_errors e) (e_values e) (a_backup a)]
     @ SolarmanPanel (a_solarman_pending a) (a_solarman a) @ conflict_section e @ [save_rail e]"
  have kids: "page_blocks e (form_fields e) (tl (butlast (page_ids a e))) ?kids"
    using blocks_append [OF blocks_Cons [OF block_system blocks_Cons [OF block_connection
      blocks_Cons [OF block_appearance blocks_one [OF block_data]]]] tail]
    by (simp add: form_fields_def page_ids_def butlast_append)
  have form: "page_block e (form_fields e) (butlast (page_ids a e)) (El Form [(Id, js ''settings-form'')] [(OnSubmit, h)] ?kids)" for h
    by (rule block_node [OF kids]) (simp_all add: page_ids_def butlast_append listed_simps)
  have header: "page_block e [] [] (El Header [] [] [El Paragraph [] [] [Txt x], El Heading [] [] [Txt y], El Paragraph [] [] [Txt z]])" for x y z
    by (rule block_plain) (simp_all add: listed_simps)
  have "page_blocks e (form_fields e) (page_ids a e) [El Header [] [] [El Paragraph [] [] [Txt x], El Heading [] [] [Txt y], El Paragraph [] [] [Txt z]],
      El Form [(Id, js ''settings-form'')] [(OnSubmit, h)] ?kids, AboutSection]" for x y z h
    using blocks_Cons [OF header blocks_Cons [OF form blocks_one [OF about]]] by (simp add: page_ids_def butlast_append)
  then show ?thesis unfolding EditorPage_def by (rule block_El) simp_all
qed

text \<open>No identifier is used twice.\<close>

lemma special_apart:
  "f \<noteq> ActiveMPPT \<Longrightarrow> set (field_ids h f es) \<inter> set (fieldset_ids es) = {}"
  "f \<noteq> CurrentPassword \<Longrightarrow> set (field_ids h f (e_errors e)) \<inter> set (password_ids e) = {}"
  "f \<noteq> ActiveMPPT \<Longrightarrow> set (fieldset_ids es) \<inter> set (field_ids h f es) = {}"
  "f \<noteq> CurrentPassword \<Longrightarrow> set (password_ids e) \<inter> set (field_ids h f (e_errors e)) = {}"
  "set (fieldset_ids es) \<inter> set (password_ids e) = {}"
  by (auto simp: fieldset_ids_def password_ids_def only_if_def simp del: field_name.simps dest!: field_ids_own split: if_splits)

lemma solarman_literals: "i \<in> set (solarman_ids p w) \<Longrightarrow> i \<in> set page_literals \<and> i \<notin> set (take 6 page_literals)"
  by (auto simp: solarman_ids_def only_if_def page_literals_def js_inj split: if_splits option.splits)

lemma solarman_apart:
  "set (field_ids h f es) \<inter> set (solarman_ids p w) = {}" "set (fieldset_ids es) \<inter> set (solarman_ids p w) = {}"
  "set (password_ids e) \<inter> set (solarman_ids p w) = {}" "distinct (solarman_ids p w)"
proof -
  show "set (field_ids h f es) \<inter> set (solarman_ids p w) = {}" for h f es using solarman_literals literal_not_field by blast
  then show "set (password_ids e) \<inter> set (solarman_ids p w) = {}" by (auto simp: password_ids_def only_if_def)
  show "set (fieldset_ids es) \<inter> set (solarman_ids p w) = {}"
    using literal_apart solarman_literals by (fastforce simp: fieldset_ids_def only_if_def)
  show "distinct (solarman_ids p w)" by (auto simp: solarman_ids_def only_if_def js_inj split: option.splits)
qed

lemma literals_out:
  "i \<in> set page_literals \<Longrightarrow> i \<notin> set (fieldset_ids es)" "i \<in> set page_literals \<Longrightarrow> i \<notin> set (password_ids e)"
  "i \<in> set (take 6 page_literals) \<Longrightarrow> i \<notin> set (solarman_ids p w)"
  using literal_apart [of i] literal_not_field [of i] solarman_literals [of i]
  by (auto simp: fieldset_ids_def password_ids_def only_if_def)

lemma special_distinct: "distinct (fieldset_ids es)" "distinct (password_ids e)"
  by (simp_all add: fieldset_ids_def password_ids_def only_if_def)

lemma page_ids_distinct: "distinct (page_ids a e)"
  by (simp add: special_distinct page_ids_def field_ids_apart special_apart solarman_apart literals_out literal_not_field Int_Un_distrib page_literals_def js_inj)

section \<open>The errors of the form\<close>

definition page_field :: "field \<Rightarrow> bool" where
  "page_field f \<longleftrightarrow> f \<in> {General, CurrentPassword} \<or> stepForField f \<notin> {None, Some 0}"

definition page_errors :: "errors \<Rightarrow> bool" where
  "page_errors es \<longleftrightarrow> distinct (map fst es) \<and> fst ` set es \<subseteq> {f. page_field f}"

lemma page_errors_simps [simp]: "page_errors []" "page_errors [(f, m)] \<longleftrightarrow> page_field f"
  by (simp_all add: page_errors_def)

lemma page_field_simps [simp]: "page_field General" "page_field CurrentPassword"
  by (simp_all add: page_field_def)

lemma page_errors_drop [simp]: "page_errors es \<Longrightarrow> page_errors (drop_error f es)"
  using drop_error_keys(1) [of _ f es] drop_error_keys(2) [of es f] by (auto simp: page_errors_def)

lemma form_fields_in: "f \<in> set (form_fields e) \<longleftrightarrow>
    page_field f \<and> f \<notin> {ActiveMPPT, General} \<and> (f = CurrentPassword \<longrightarrow> changedIdentity e)"
  by (cases f) (auto simp: form_fields_def stepForField_def only_if_def page_field_def)

lemma page_errors_submitted [simp]: "page_errors (submit_errors env e)"
proof -
  have "distinct (map fst (validateSettings env v))" for v unfolding validateSettings_def by (rule gather_distinct)
  moreover have "fst ` set (validateSettings env v) \<subseteq> {f. page_field f}" for v
    unfolding validateSettings_def gather_keys by (auto simp: stepForField_def page_field_def)
  ultimately show ?thesis by (simp add: submit_errors_def Let_def page_errors_def keys_put distinct_put)
qed

lemma settings_server_field: "settingsServerError env message code = (f, m) \<Longrightarrow> page_field f"
  using server_field [of env message code]
  by (auto simp: page_field_def settingsServerError_def Let_def stepForField_def split: prod.splits if_splits)

lemma page_errors_saved: "page_errors (e_errors e) \<Longrightarrow> page_errors (e_errors (save_settings env e))"
  using page_errors_submitted [of env e] by (auto simp: save_settings_def Let_def simp del: page_errors_submitted split: list.split)

lemma page_errors_failed: "page_errors (e_errors (failed env error e))"
  using settings_server_field by (cases error) (auto simp: failed_def Let_def split: prod.split)

lemma page_errors_step: "page_errors (e_errors e) \<Longrightarrow> page_errors (e_errors (editor_step env e ev))"
proof -
  assume e: "page_errors (e_errors e)"
  have "page_errors (e_errors (editor_act env e ev))"
    using e page_errors_saved [OF e, of env] page_errors_failed [of env _ e]
    by (cases ev) (simp_all add: setField_def toggleInput_def typePassword_def loadServer_def keepEdits_def confirm_reply_def
        update_reply_def updated_def Let_def split: option.split phase.split sum.split)
  then show ?thesis by (simp add: editor_step_def conflict_effect_def)
qed

interpretation editor_errors: event_machine "editor_step env" "\<lambda>e. page_errors (e_errors e)"
  by unfold_locales (rule page_errors_step)

lemma page_errors_run: "page_errors (e_errors (foldl (editor_step env) (open_editor st) evs))"
  by (rule editor_errors.run_inv) (simp add: open_editor_def)

section \<open>Errors are reported\<close>

lemma fieldset_reports: "error_text (e_errors e) ActiveMPPT = Some m \<Longrightarrow> error_on ActiveMPPT m (EditorPage kwp a e)"
  by (simp add: error_on_def marks_field_def EditorPage_def settings_mppt_def SystemForm_def settings_fieldset_def error_note_def bex_elements listed_simps only_if_def
      bool_text_def del: elements.simps)

lemma general_reports: "error_text (e_errors e) General = Some m \<Longrightarrow>
    \<exists>p \<in> set (elements (EditorPage kwp a e)). attr_of Role p = Some (js ''status'') \<and> text_content p = m"
  by (simp add: EditorPage_def save_rail_def bex_elements del: elements.simps)

lemma mppt_no_id: "field_name ActiveMPPT \<notin> set (page_ids a e)"
proof -
  have "field_name ActiveMPPT \<notin> set page_literals" using literal_apart by blast
  then have "field_name ActiveMPPT \<notin> set (solarman_ids p w)" for p w using solarman_literals by blast
  then show ?thesis
    by (auto simp: page_ids_def fieldset_ids_def password_ids_def only_if_def js_inj dest!: field_ids_own simp del: field_name.simps)
      (auto simp: js_inj)
qed

lemma get_by_id_None: "i \<notin> set (ids n) \<Longrightarrow> get_by_id i n = None"
  by (auto simp: get_by_id_def find_None_iff ids_def)

text \<open>
  C12. The settings page tells what is wrong: in every state its form can reach, whatever the panels
  around it show, the page is well formed, and every error the form holds has its text on the page,
  in the line of the status when it belongs to no field, else tied to the very input of its field,
  which is marked invalid (to the group of switches for the inputs of the inverter); that input is
  found by the identifier of the field, as the effect that moves the focus looks for it. There are two
  exceptions: the error of the inverter's inputs is shown, but no
  element has its identifier, so the focus does not move; and an error of the password is shown
  only while the page asks for the password.
\<close>

theorem settings_reports:
  assumes "e = foldl (editor_step env) (open_editor st) events" and "page = EditorPage kwp a e"
  shows "page_ok page \<and> get_by_id (field_name ActiveMPPT) page = None
    \<and> (\<forall>(f, m) \<in> set (e_errors e).
        if f = General then \<exists>p \<in> set (elements page). attr_of Role p = Some (js ''status'') \<and> text_content p = message_text m
        else if f = ActiveMPPT then error_on f (message_text m) page
        else f = CurrentPassword \<and> \<not> changedIdentity e \<or> reported f m page \<and> (\<exists>t. get_by_id (field_name f) page = Some t \<and> tag_of t = Some Input))"
proof -
  have errs: "page_errors (e_errors e)" unfolding assms(1) by (rule page_errors_run)
  have blk: "page_block e (form_fields e) (page_ids a e) page" unfolding assms(2) by (rule page_whole)
  then have ids: "ids page = page_ids a e" by (simp add: block_def)
  have copy: "error_text (e_errors e) f = Some (message_text m)" if "(f, m) \<in> set (e_errors e)" for f m
    using that errs by (simp add: error_text_def page_errors_def)
  have found: "reported f m page \<and> (\<exists>t. get_by_id (field_name f) page = Some t \<and> tag_of t = Some Input)"
    if err: "(f, m) \<in> set (e_errors e)" and f: "f \<in> set (form_fields e)" for f m
  proof
    show "reported f m page" by (rule error_reported [OF blk page_ids_distinct f copy [OF err]])
    have "field_on (page_text e) page_change f page" using blk f by (simp add: block_def)
    moreover have "f \<noteq> ActiveMPPT" using f by (simp add: form_fields_in)
    moreover have "distinct (ids page)" unfolding ids by (rule page_ids_distinct)
    ultimately show "\<exists>t. get_by_id (field_name f) page = Some t \<and> tag_of t = Some Input"
      by (auto simp: field_on_def dest: get_by_id_found)
  qed
  have rep: "if f = General then \<exists>p \<in> set (elements page). attr_of Role p = Some (js ''status'') \<and> text_content p = message_text m
      else if f = ActiveMPPT then error_on f (message_text m) page
      else f = CurrentPassword \<and> \<not> changedIdentity e \<or> reported f m page \<and> (\<exists>t. get_by_id (field_name f) page = Some t \<and> tag_of t = Some Input)"
    if err: "(f, m) \<in> set (e_errors e)" for f m
  proof -
    have "page_field f" using errs err by (force simp: page_errors_def)
    then show ?thesis
      using found [OF err] copy [OF err] general_reports [of e _ kwp a] fieldset_reports [of e _ kwp a]
      by (auto simp: form_fields_in assms(2))
  qed
  have "get_by_id (field_name ActiveMPPT) page = None" using get_by_id_None [of _ page] mppt_no_id unfolding ids by blast
  moreover have "page_ok page" by (rule block_page_ok [OF blk page_ids_distinct])
  ultimately show ?thesis using rep by blast
qed

definition sample_surroundings :: surroundings where
  "sample_surroundings = \<lparr>a_health = HealthPending, a_theme = System, a_backup = BackupIdle, a_solarman_pending = True,
     a_solarman = solarman_initial\<rparr>"

text \<open>The settings of an installation without inputs, submitted as they are.\<close>

lemma settings_reports_witness:
  "error_on ActiveMPPT (message_text NoInput) (EditorPage (\<lambda>x. []) sample_surroundings
     (foldl (editor_step sample_env) (open_editor (sample_settings\<lparr>s_activeMPPT := []\<rparr>)) [Save]))"
proof -
  define e where "e = foldl (editor_step sample_env) (open_editor (sample_settings\<lparr>s_activeMPPT := []\<rparr>)) [Save]"
  have "validateSettings sample_env (settingsToValues sample_settings) = []"
    using settings_shown [OF sample_showable] by blast
  then have "validateSettings sample_env (settingsToValues (sample_settings\<lparr>s_activeMPPT := []\<rparr>)) = [(ActiveMPPT, NoInput)]"
    by (simp add: validateSettings_def gather_Nil settingsToValues_def Let_def) (simp add: gather_def)
  moreover have "\<not> loggerIdentityChanged (settingsToValues (sample_settings\<lparr>s_activeMPPT := []\<rparr>)) (sample_settings\<lparr>s_activeMPPT := []\<rparr>)"
    using settings_shown [OF sample_showable] by (simp add: loggerIdentityChanged_def settingsToValues_def Let_def)
  ultimately have "e_errors e = [(ActiveMPPT, NoInput)]"
    by (simp add: e_def editor_step_def conflict_effect_def sameSettings_def sameSettingsValues_def open_editor_def
        save_settings_def saving_def submit_errors_def Let_def changedIdentity_def)
  with settings_reports [OF e_def refl, where kwp = "\<lambda>x. []" and a = sample_surroundings]
  show ?thesis unfolding e_def [symmetric] by simp
qed

end
