(* ===== verification/Finance.thy ===== *)
theory Finance
  imports FormsCorrect ApiClient
begin

text \<open>
  The finance page, \<open>web/src/features/finance\<close>: the numbers its two forms read from text
  (\<open>micros\<close>, \<open>minor\<close> and \<open>Number\<close>), what the forms hand to the server, and the page as a machine over
  the user's events, the answers and the arrival of data.

  The main lemmas: \<open>micros_exact\<close> and \<open>minor_exact\<close> (an amount is sent exactly as typed, never
  rounded) and \<open>finance_ok_step\<close>, the invariant of the page.
\<close>

section \<open>Amounts\<close>

text \<open>\<open>/^(\d+)(?:[.,](\d{1,n}))?$/\<close>: the whole part and the fraction, empty when it is not there.\<close>

definition amount_match :: "nat \<Rightarrow> jsstring \<Rightarrow> (jsstring \<times> jsstring) option" where
  "amount_match n s = (let w = whole_digits s; r = after_whole s in
     if w = [] then None
     else if r = [] then Some (w, [])
     else if (hd r = 46 \<or> hd r = 44) \<and> list_all is_digit (tl r) \<and> 1 \<le> length (tl r) \<and> length (tl r) \<le> n then Some (w, tl r)
     else None)"

definition micros :: "jsstring \<Rightarrow> jsnum option" where
  "micros s = (case amount_match 6 (trim s) of None \<Rightarrow> None
     | Some (w, f) \<Rightarrow> let parsed = digits_val w * 1000000 + digits_val (pad_end 6 48 f) in
         if parsed \<le> 9007199254740991 then Some (fl (of_nat parsed)) else None)"

definition minor :: "jsstring \<Rightarrow> jsnum option" where
  "minor s = (case amount_match 2 (trim s) of None \<Rightarrow> None
     | Some (w, f) \<Rightarrow> let parsed = digits_val w * 100 + digits_val (pad_end 2 48 f) in
         if parsed \<le> 9007199254740991 then Some (fl (of_nat parsed)) else None)"

text \<open>
  \<open>Number(s)\<close> of any string: blanks are dropped, nothing is zero, and there are literals in base
  16, 8 and 2 beside the decimal ones with their exponent.
\<close>

definition radix_value :: "nat \<Rightarrow> jsstring \<Rightarrow> jsnum" where
  "radix_value b s = (if s \<noteq> [] \<and> list_all (\<lambda>c. case hex_val c of Some d \<Rightarrow> d < b | None \<Rightarrow> False) s
     then fl (of_nat (foldl (\<lambda>n c. b * n + or_else (hex_val c) 0) 0 s)) else NaN)"

definition exponent_value :: "jsstring \<Rightarrow> int option" where
  "exponent_value s = (let (minus, d) = split_sign s in
     if all_digits d then Some (if minus then - int (digits_val d) else int (digits_val d)) else None)"

definition decimal_number :: "jsstring \<Rightarrow> jsnum" where
  "decimal_number s = (let mantissa = takeWhile (\<lambda>c. c \<noteq> 101 \<and> c \<noteq> 69) s; rest = drop (length mantissa) s in
     if \<not> decimal_shape mantissa then NaN
     else if rest = [] then fl (decimal_value mantissa)
     else (case exponent_value (tl rest) of None \<Rightarrow> NaN | Some k \<Rightarrow> fl (decimal_value mantissa * 10 powi k)))"

definition js_number :: "jsstring \<Rightarrow> jsnum" where
  "js_number s = (let t = trim s; prefix = take 2 t in
     if t = [] then Fin 0
     else if prefix = js ''0x'' \<or> prefix = js ''0X'' then radix_value 16 (drop 2 t)
     else if prefix = js ''0o'' \<or> prefix = js ''0O'' then radix_value 8 (drop 2 t)
     else if prefix = js ''0b'' \<or> prefix = js ''0B'' then radix_value 2 (drop 2 t)
     else if t = js ''Infinity'' \<or> t = js ''+Infinity'' then PInf
     else if t = js ''-Infinity'' then NInf
     else decimal_number t)"

section \<open>The two forms\<close>

text \<open>\<open>Record<K, string>\<close> is a total function on the keys.\<close>

datatype tariff_field = Distributor | EffectiveFrom | EffectiveTo | ConsumptionTE | ConsumptionTUSD
  | CompensationTE | CompensationTUSD | FlagRate | Availability | Cip

datatype cycle_field = ReadingStart | ReadingEnd | ActiveConsumption | Injected | CreditsUsed | CreditBalance
  | FlagCharge | TotalPaid

datatype form_error = FillIn | NotSaved

text \<open>\<open>mount\<close> counts how often the form has been mounted: a closure belongs to one mount.\<close>

record 'k form =
  f_values :: "'k \<Rightarrow> jsstring"
  f_error :: "form_error option"
  f_saving :: bool
  mount :: nat

record tariff_input =
  distributor :: jsstring
  effectiveFrom :: jsstring
  effectiveTo :: jsstring
  consumptionTE :: jsnum
  consumptionTUSD :: jsnum
  compensationTE :: jsnum
  compensationTUSD :: jsnum
  flagRate :: jsnum
  availabilityKWh :: jsnum
  cipMinor :: jsnum

record cycle_input =
  readingStart :: jsstring
  readingEnd :: jsstring
  activeConsumptionKWh :: jsnum
  injectedKWh :: jsnum
  creditsUsedKWh :: jsnum
  creditBalanceKWh :: jsnum
  flagChargeMinor :: jsnum
  totalPaidMinor :: jsnum

fun tariff_initial :: "tariff_field \<Rightarrow> jsstring" where
  "tariff_initial Distributor = js ''COPEL''"
| "tariff_initial Availability = js ''100''"
| "tariff_initial _ = []"

definition cycle_initial :: "cycle_field \<Rightarrow> jsstring" where
  "cycle_initial k = []"

definition mount_form :: "('k \<Rightarrow> jsstring) \<Rightarrow> 'k form \<Rightarrow> 'k form" where
  "mount_form initial f = \<lparr>f_values = initial, f_error = None, f_saving = False, mount = Suc (mount f)\<rparr>"

text \<open>What \<open>submit\<close> sends, \<open>None\<close> when it shows an error instead.\<close>

definition tariff_payload :: "(tariff_field \<Rightarrow> jsstring) \<Rightarrow> tariff_input option" where
  "tariff_payload v = (case (micros (v ConsumptionTE), micros (v ConsumptionTUSD), micros (v CompensationTE),
       micros (v CompensationTUSD), micros (v FlagRate), minor (v Cip)) of
     (Some te, Some tusd, Some cte, Some ctusd, Some flag, Some cip) \<Rightarrow>
       let availability = js_number (v Availability) in
       if trim (v Distributor) = [] \<or> v EffectiveFrom = [] \<or> v EffectiveTo = []
         \<or> \<not> list_ex (jeq availability) [Fin 30, Fin 50, Fin 100] then None
       else Some \<lparr>distributor = trim (v Distributor), effectiveFrom = v EffectiveFrom, effectiveTo = v EffectiveTo,
         consumptionTE = te, consumptionTUSD = tusd, compensationTE = cte, compensationTUSD = ctusd,
         flagRate = flag, availabilityKWh = availability, cipMinor = cip\<rparr>
   | _ \<Rightarrow> None)"

definition cycle_payload :: "(cycle_field \<Rightarrow> jsstring) \<Rightarrow> cycle_input option" where
  "cycle_payload v = (let numeric = map (\<lambda>k. js_number (v k))
       [ActiveConsumption, Injected, CreditsUsed, CreditBalance, FlagCharge, TotalPaid] in
     if v ReadingStart = [] \<or> v ReadingEnd = [] \<or> list_ex (\<lambda>x. \<not> is_integer x \<or> jlt x (Fin 0)) numeric then None
     else Some \<lparr>readingStart = v ReadingStart, readingEnd = v ReadingEnd,
       activeConsumptionKWh = numeric ! 0, injectedKWh = numeric ! 1, creditsUsedKWh = numeric ! 2,
       creditBalanceKWh = numeric ! 3, flagChargeMinor = numeric ! 4, totalPaidMinor = numeric ! 5\<rparr>)"

text \<open>\<open>setError\<close> and \<open>setSaving\<close>; only the form of the billing cycles clears an old error.\<close>

definition submit_tariff :: "tariff_field form \<Rightarrow> tariff_field form \<times> tariff_input option" where
  "submit_tariff f = (case tariff_payload (f_values f) of
       None \<Rightarrow> (f\<lparr>f_error := Some FillIn\<rparr>, None)
     | Some p \<Rightarrow> (f\<lparr>f_saving := True\<rparr>, Some p))"

definition submit_cycle :: "cycle_field form \<Rightarrow> cycle_field form \<times> cycle_input option" where
  "submit_cycle f = (case cycle_payload (f_values f) of
       None \<Rightarrow> (f\<lparr>f_error := Some FillIn\<rparr>, None)
     | Some p \<Rightarrow> (f\<lparr>f_error := None, f_saving := True\<rparr>, Some p))"

text \<open>The rest of \<open>submit\<close> when the answer comes; on another mount it changes nothing.\<close>

definition form_reply :: "('k \<Rightarrow> jsstring) \<Rightarrow> nat \<Rightarrow> bool \<Rightarrow> 'k form \<Rightarrow> 'k form" where
  "form_reply initial m accepted f = (if m \<noteq> mount f then f
     else if accepted then f\<lparr>f_values := initial, f_saving := False\<rparr>
     else f\<lparr>f_error := Some NotSaved, f_saving := False\<rparr>)"

definition tariff_json :: "tariff_input \<Rightarrow> jsval" where
  "tariff_json t = JObj
     [(js ''distributor'', JStr (distributor t)), (js ''effectiveFrom'', JStr (effectiveFrom t)),
      (js ''effectiveTo'', JStr (effectiveTo t)), (js ''consumptionTEMicrosPerKWh'', JNum (consumptionTE t)),
      (js ''consumptionTUSDMicrosPerKWh'', JNum (consumptionTUSD t)),
      (js ''compensationTEMicrosPerKWh'', JNum (compensationTE t)),
      (js ''compensationTUSDMicrosPerKWh'', JNum (compensationTUSD t)), (js ''flagMicrosPerKWh'', JNum (flagRate t)),
      (js ''availabilityKWh'', JNum (availabilityKWh t)), (js ''cipMinor'', JNum (cipMinor t))]"

definition cycle_json :: "cycle_input \<Rightarrow> jsval" where
  "cycle_json c = JObj
     [(js ''readingStart'', JStr (readingStart c)), (js ''readingEnd'', JStr (readingEnd c)),
      (js ''activeConsumptionKWh'', JNum (activeConsumptionKWh c)), (js ''injectedKWh'', JNum (injectedKWh c)),
      (js ''creditsUsedKWh'', JNum (creditsUsedKWh c)), (js ''creditBalanceKWh'', JNum (creditBalanceKWh c)),
      (js ''flagChargeMinor'', JNum (flagChargeMinor c)), (js ''totalPaidMinor'', JNum (totalPaidMinor c))]"

section \<open>The page\<close>

text \<open>\<open>TariffProposal\<close>; a rate is its label, the approved and the proposed value, and the difference.\<close>

record proposal =
  approvedAt :: "jsstring option"
  pr_availability :: jsnum
  pr_cip :: jsnum
  pr_compensationTE :: jsnum
  pr_compensationTUSD :: jsnum
  pr_consumptionTE :: jsnum
  pr_consumptionTUSD :: jsnum
  pr_distributor :: jsstring
  pr_from :: jsstring
  pr_to :: jsstring
  pr_flag :: jsnum
  pr_id :: jsnum
  parserVersion :: jsstring
  retrievedAt :: jsstring
  sourceUrl :: jsstring
  displayRates :: "(jsstring \<times> jsstring \<times> jsstring \<times> jsstring) list"

text \<open>What the two queries give the page: nothing yet, an error, or the cycles and the proposals.\<close>

datatype page_data = Loading | Broken | Ready "jsnum list" "proposal list"

text \<open>
  \<open>approvals\<close> are the approvals under way, each with the source of its proposal and the first cycle
  its closure has captured; \<open>tariff_open\<close> and \<open>cycle_open\<close> are the mounts whose requests are open.
  \<open>calls\<close> records each call, newest first, with the data the page showed when it was made.
\<close>

record finance =
  page :: page_data
  preparing :: bool
  proposalError :: bool
  editingTariff :: bool
  tariff_form :: "tariff_field form"
  cycle_form :: "cycle_field form"
  approvals :: "(jsstring \<times> jsnum option) list"
  tariff_open :: "nat list"
  cycle_open :: "nat list"
  calls :: "(page_data \<times> api_call) list"

datatype finance_event = DataArrived "jsnum list" "proposal list" | DataFailed
  | ApproveClick | ApproveReply nat bool | PrepareClick | PrepareReply bool | ToggleEditor
  | TypeTariff tariff_field jsstring | SubmitTariff | TariffReply nat bool
  | TypeCycle cycle_field jsstring | SubmitCycle | CycleReply nat bool

fun shown_proposal :: "page_data \<Rightarrow> proposal option" where
  "shown_proposal (Ready cs ps) = find (\<lambda>p. approvedAt p = None) ps"
| "shown_proposal _ = None"

fun approved :: "page_data \<Rightarrow> bool" where
  "approved (Ready cs ps) = list_ex (\<lambda>p. approvedAt p \<noteq> None) ps"
| "approved _ = False"

fun is_ready :: "page_data \<Rightarrow> bool" where
  "is_ready (Ready cs ps) = True"
| "is_ready _ = False"

fun first_cycle :: "page_data \<Rightarrow> jsnum option" where
  "first_cycle (Ready (c # cs) ps) = Some c"
| "first_cycle _ = None"

definition billing_enabled :: "page_data \<Rightarrow> bool" where
  "billing_enabled d \<longleftrightarrow> is_ready d \<and> \<not> (\<not> approved d \<or> shown_proposal d \<noteq> None)"

definition log_call :: "api_call \<Rightarrow> finance \<Rightarrow> finance" where
  "log_call c w = w\<lparr>calls := (page w, c) # calls w\<rparr>"

definition finance_initial :: finance where
  "finance_initial = \<lparr>page = Loading, preparing = False, proposalError = False, editingTariff = False,
     tariff_form = \<lparr>f_values = tariff_initial, f_error = None, f_saving = False, mount = 0\<rparr>,
     cycle_form = \<lparr>f_values = cycle_initial, f_error = None, f_saving = False, mount = 0\<rparr>,
     approvals = [], tariff_open = [], cycle_open = [], calls = []\<rparr>"

text \<open>While the page shows an error its forms are not mounted, and what was typed is gone.\<close>

definition data_failed :: "finance \<Rightarrow> finance" where
  "data_failed w = w\<lparr>page := Broken, tariff_form := mount_form tariff_initial (tariff_form w),
     cycle_form := mount_form cycle_initial (cycle_form w)\<rparr>"

definition approve_click :: "finance \<Rightarrow> finance" where
  "approve_click w = (case shown_proposal (page w) of None \<Rightarrow> w
     | Some p \<Rightarrow> (log_call (ApproveProposal (pr_id p)) w)\<lparr>approvals := approvals w @ [(sourceUrl p, first_cycle (page w))]\<rparr>)"

definition approve_reply :: "nat \<Rightarrow> bool \<Rightarrow> finance \<Rightarrow> finance" where
  "approve_reply i accepted w = (case drop i (approvals w) of [] \<Rightarrow> w
     | (source, cycle) # rest \<Rightarrow>
         let w1 = w\<lparr>approvals := take i (approvals w) @ rest\<rparr> in
         (case cycle of Some c \<Rightarrow> if accepted \<and> source = js ''/finance'' then log_call (RecalculateCycle c) w1 else w1
          | None \<Rightarrow> w1))"

definition prepare_click :: "finance \<Rightarrow> finance" where
  "prepare_click w = (if is_ready (page w) \<and> shown_proposal (page w) = None \<and> \<not> approved (page w) \<and> \<not> preparing w
     then log_call SettingsProposal (w\<lparr>preparing := True, proposalError := False\<rparr>) else w)"

definition toggle_editor :: "finance \<Rightarrow> finance" where
  "toggle_editor w = (if is_ready (page w) \<and> shown_proposal (page w) = None
     then w\<lparr>editingTariff := \<not> editingTariff w, tariff_form := mount_form tariff_initial (tariff_form w)\<rparr> else w)"

definition tariff_shown :: "finance \<Rightarrow> bool" where
  "tariff_shown w \<longleftrightarrow> is_ready (page w) \<and> editingTariff w"

text \<open>A disabled button submits nothing, and a disabled input cannot be edited.\<close>

definition tariff_submit :: "finance \<Rightarrow> finance" where
  "tariff_submit w = (if tariff_shown w \<and> \<not> f_saving (tariff_form w)
     then (case submit_tariff (tariff_form w) of
         (f, None) \<Rightarrow> w\<lparr>tariff_form := f\<rparr>
       | (f, Some t) \<Rightarrow> (log_call (ManualProposal (tariff_json t)) w)
           \<lparr>tariff_form := f, tariff_open := mount f # tariff_open w\<rparr>)
     else w)"

text \<open>Acceptance closes the editor, whichever mount the request came from.\<close>

definition tariff_reply :: "nat \<Rightarrow> bool \<Rightarrow> finance \<Rightarrow> finance" where
  "tariff_reply m accepted w = (if m \<notin> set (tariff_open w) then w
     else let w1 = w\<lparr>tariff_open := remove1 m (tariff_open w)\<rparr> in
       if accepted then w1\<lparr>editingTariff := False, tariff_form := mount_form tariff_initial (tariff_form w)\<rparr>
       else w1\<lparr>tariff_form := form_reply tariff_initial m False (tariff_form w)\<rparr>)"

text \<open>
  A submission can come with any values: that a browser stops one with an empty \<open>required\<close> input only
  takes runs away.
\<close>

definition cycle_submit :: "finance \<Rightarrow> finance" where
  "cycle_submit w = (if billing_enabled (page w) \<and> \<not> f_saving (cycle_form w)
     then (case submit_cycle (cycle_form w) of
         (f, None) \<Rightarrow> w\<lparr>cycle_form := f\<rparr>
       | (f, Some c) \<Rightarrow> (log_call (CreateCycle (cycle_json c)) w)
           \<lparr>cycle_form := f, cycle_open := mount f # cycle_open w\<rparr>)
     else w)"

definition cycle_reply :: "nat \<Rightarrow> bool \<Rightarrow> finance \<Rightarrow> finance" where
  "cycle_reply m accepted w = (if m \<notin> set (cycle_open w) then w
     else w\<lparr>cycle_open := remove1 m (cycle_open w), cycle_form := form_reply cycle_initial m accepted (cycle_form w)\<rparr>)"

fun finance_step :: "finance \<Rightarrow> finance_event \<Rightarrow> finance" where
  "finance_step w (DataArrived cs ps) = w\<lparr>page := Ready cs ps\<rparr>"
| "finance_step w DataFailed = data_failed w"
| "finance_step w ApproveClick = approve_click w"
| "finance_step w (ApproveReply i accepted) = approve_reply i accepted w"
| "finance_step w PrepareClick = prepare_click w"
| "finance_step w (PrepareReply accepted) =
     (if preparing w then w\<lparr>preparing := False, proposalError := \<not> accepted\<rparr> else w)"
| "finance_step w ToggleEditor = toggle_editor w"
| "finance_step w (TypeTariff k s) = (if tariff_shown w
     then w\<lparr>tariff_form := (tariff_form w)\<lparr>f_values := (f_values (tariff_form w))(k := s), f_error := None\<rparr>\<rparr> else w)"
| "finance_step w SubmitTariff = tariff_submit w"
| "finance_step w (TariffReply m accepted) = tariff_reply m accepted w"
| "finance_step w (TypeCycle k s) = (if billing_enabled (page w) \<and> \<not> f_saving (cycle_form w)
     then w\<lparr>cycle_form := (cycle_form w)\<lparr>f_values := (f_values (cycle_form w))(k := s)\<rparr>\<rparr> else w)"
| "finance_step w SubmitCycle = cycle_submit w"
| "finance_step w (CycleReply m accepted) = cycle_reply m accepted w"

section \<open>The card of a proposal and the projection\<close>

datatype proposal_link = EditSettings | LocalInvoice | OfficialSource jsstring

text \<open>The two headings, the line of the validity, the rates, the link, the line of the source and the button.\<close>

definition TariffProposalCard :: "proposal \<Rightarrow> bool
    \<Rightarrow> (jsstring \<times> jsstring) \<times> jsstring \<times> (jsstring \<times> jsstring) list \<times> proposal_link \<times> jsstring \<times> jsstring" where
  "TariffProposalCard p pend = (let is_local = starts_with [47] (sourceUrl p); dash = [32, 0x2014, 32] in
     (if is_local then (js ''Configura'' @ [0xE7, 0xE3] @ js ''o local'', js ''Tarifa configurada'')
        else (js ''Fonte oficial'', js ''Tarifa proposta''),
      js ''Vig'' @ [0xEA] @ js ''ncia '' @ pr_from p @ dash @ pr_to p,
      map (\<lambda>(label, old, new, delta). (label, js ''Atual '' @ old @ [32, 0x2192, 32] @ js ''proposta '' @ new @ js '' ('' @ delta @ js '')''))
        (displayRates p),
      if is_local then (if sourceUrl p = js ''/settings'' then EditSettings else LocalInvoice) else OfficialSource (sourceUrl p),
      js ''Atualizada em '' @ retrievedAt p @ [32, 0xB7, 32] @ js ''parser '' @ parserVersion p,
      if pend then js ''Aprovando'' @ [0x2026] else js ''Aprovar tarifa''))"

text \<open>A link out of the application is only made for an address that is not a path of its own.\<close>

lemma card_official_link:
  "fst (snd (snd (snd (TariffProposalCard p pend)))) = OfficialSource u \<Longrightarrow> u = sourceUrl p \<and> \<not> starts_with [47] u"
  by (auto simp: TariffProposalCard_def Let_def split: if_splits)

section \<open>Amounts are exact\<close>

text \<open>An amount as the user may write it: digits, and up to \<open>n\<close> more after a comma or a point.\<close>

definition amount_shape :: "nat \<Rightarrow> jsstring \<Rightarrow> bool" where
  "amount_shape n t \<longleftrightarrow> (\<exists>w f. all_digits w \<and> (t = w \<or> all_digits f \<and> length f \<le> n \<and> (t = w @ 44 # f \<or> t = w @ 46 # f)))"

text \<open>Its value, as a decimal fraction.\<close>

definition amount :: "jsstring \<Rightarrow> rat" where
  "amount t = decimal_value (replace_comma t)"

lemma digits_then:
  assumes "list_all is_digit w" "\<not> is_digit c"
  shows "whole_digits (w @ c # f) = w" "after_whole (w @ c # f) = c # f"
  using assms by (simp_all add: whole_digits_def after_whole_def list_all_iff takeWhile_append2 dropWhile_append2)

lemma not_digits [simp]: "\<not> is_digit 44" "\<not> is_digit 46" "\<not> is_digit 43" "\<not> is_digit 45"
  by (simp_all add: is_digit_def)

lemma whole_after: "whole_digits t @ after_whole t = t"
  by (simp add: whole_digits_def after_whole_def)

lemma whole_digits_digits: "list_all is_digit (whole_digits t)"
  by (auto simp: whole_digits_def list_all_iff dest: set_takeWhileD)

lemma amount_match_Some:
  "amount_match n t = Some (w, f) \<longleftrightarrow> all_digits w
     \<and> (f = [] \<and> t = w \<or> all_digits f \<and> length f \<le> n \<and> (t = w @ 44 # f \<or> t = w @ 46 # f))"
proof
  assume m: "amount_match n t = Some (w, f)"
  then have w: "w = whole_digits t" "all_digits w"
    using whole_digits_digits [of t] by (auto simp: amount_match_def Let_def all_digits_def split: if_splits)
  show "all_digits w \<and> (f = [] \<and> t = w \<or> all_digits f \<and> length f \<le> n \<and> (t = w @ 44 # f \<or> t = w @ 46 # f))"
  proof (cases "after_whole t")
    case Nil
    with m w whole_after [of t] show ?thesis by (simp add: amount_match_def Let_def split: if_splits)
  next
    case (Cons c r)
    with m w whole_after [of t] show ?thesis
      by (auto simp: amount_match_def Let_def all_digits_def split: if_splits)
  qed
next
  assume "all_digits w \<and> (f = [] \<and> t = w \<or> all_digits f \<and> length f \<le> n \<and> (t = w @ 44 # f \<or> t = w @ 46 # f))"
  then show "amount_match n t = Some (w, f)"
    by (auto simp: amount_match_def Let_def all_digits_def digits_then Suc_le_eq)
qed

lemma tariff_match_amount: "tariff_match t = amount_match 2 t"
  by (auto simp: tariff_match_def amount_match_def Let_def)

lemma replace_comma_digits: "list_all is_digit w \<Longrightarrow> replace_comma (w @ s) = w @ replace_comma s"
  by (induction w) (auto simp: is_digit_def)

lemma amount_value:
  assumes "all_digits w" "list_all is_digit f" "t = w \<and> f = [] \<or> t = w @ 44 # f \<or> t = w @ 46 # f"
  shows "amount t = of_nat (digits_val w) + of_nat (digits_val f) / 10 ^ length f"
proof -
  have w: "list_all is_digit w" "w \<noteq> []" and f: "replace_comma f = f"
    using assms replace_comma_digits [of f "[]"] by (simp_all add: all_digits_def)
  have sign: "split_sign (w @ s) = (False, w @ s)" for s
    using w by (cases w) (auto simp: split_sign_def)
  have "replace_comma t = w \<and> f = [] \<or> replace_comma t = w @ 46 # f"
    using assms(3) w(1) f replace_comma_digits [OF w(1), of "[]"] by (auto simp: replace_comma_digits)
  then show ?thesis
    using sign [of "[]"] sign [of "46 # f"] w(1) by (auto simp: amount_def decimal_value_def Let_def digits_then)
qed

lemma scaled_digits:
  assumes "length f \<le> k"
  shows "rat_of_nat (digits_val w * 10 ^ k + digits_val (pad_end k 48 f))
    = (of_nat (digits_val w) + of_nat (digits_val f) / 10 ^ length f) * 10 ^ k"
proof -
  obtain j where k: "k = length f + j" using assms by (metis le_Suc_ex)
  have "digits_val (pad_end k 48 f) = digits_val f * 10 ^ j"
    by (simp add: pad_end_def digits_val_append k)
  then show ?thesis by (simp add: k power_add field_simps)
qed

text \<open>What both functions do: the amount in units of \<open>10 ^ -k\<close>, when it is at most \<open>bound\<close>.\<close>

definition exact_units :: "nat \<Rightarrow> nat \<Rightarrow> jsstring \<Rightarrow> jsnum option" where
  "exact_units k bound t = (case amount_match k t of None \<Rightarrow> None
     | Some (w, f) \<Rightarrow> let parsed = digits_val w * 10 ^ k + digits_val (pad_end k 48 f) in
         if parsed \<le> bound then Some (fl (of_nat parsed)) else None)"

lemma exact_units_iff:
  assumes "bound \<le> 9007199254740991"
  shows "exact_units k bound t = Some x
    \<longleftrightarrow> amount_shape k t \<and> amount t * 10 ^ k \<le> of_nat bound \<and> x = Fin (amount t * 10 ^ k)"
proof (cases "amount_match k t")
  case None
  have "\<not> amount_shape k t"
  proof
    assume "amount_shape k t"
    then obtain w f where "all_digits w" "t = w \<or> all_digits f \<and> length f \<le> k \<and> (t = w @ 44 # f \<or> t = w @ 46 # f)"
      by (auto simp: amount_shape_def)
    then have "amount_match k t = Some (w, []) \<or> amount_match k t = Some (w, f)"
      unfolding amount_match_Some by blast
    with None show False by simp
  qed
  with None show ?thesis by (simp add: exact_units_def)
next
  case (Some p)
  obtain w f where p: "p = (w, f)" by force
  note m = Some [unfolded p amount_match_Some]
  then have shape: "amount_shape k t" by (auto simp: amount_shape_def)
  define n where "n = digits_val w * 10 ^ k + digits_val (pad_end k 48 f)"
  have f: "list_all is_digit f" "length f \<le> k" using m by (auto simp: all_digits_def)
  have "amount t = of_nat (digits_val w) + of_nat (digits_val f) / 10 ^ length f"
    using m f(1) by (intro amount_value) auto
  with scaled_digits [OF f(2), of w] have n: "amount t * 10 ^ k = of_nat n" by (simp only: n_def)
  have "exact_units k bound t = (if n \<le> bound then Some (fl (of_nat n)) else None)"
    by (simp add: exact_units_def Some p n_def)
  moreover have "fl (of_nat n) = Fin (of_nat n)" if "n \<le> bound" using that assms by (intro fl_nat) linarith
  ultimately show ?thesis using shape by (auto simp: n)
qed

lemma micros_units: "micros s = exact_units 6 9007199254740991 (trim s)"
  by (simp add: micros_def exact_units_def Let_def split: option.splits)

lemma minor_units: "minor s = exact_units 2 9007199254740991 (trim s)"
  by (simp add: minor_def exact_units_def Let_def split: option.splits)

lemma tariffMinor_units: "tariffMinor s = exact_units 2 1000000000 s"
  by (simp add: tariffMinor_def exact_units_def tariff_match_amount Let_def not_less not_le split: option.splits)

text \<open>
  C16. Money is never rounded: each of the three functions that read an amount accepts a text exactly
  when it is digits with at most six (two) digits after a comma or point and its value is within
  bounds, and then sends precisely that value in millionths (hundredths), as an exact integer.
\<close>

theorem amounts_exact:
  "(micros s = Some x \<longleftrightarrow> amount_shape 6 (trim s) \<and> amount (trim s) * 10 ^ 6 \<le> 9007199254740991
      \<and> x = Fin (amount (trim s) * 10 ^ 6))
   \<and> (minor s = Some x \<longleftrightarrow> amount_shape 2 (trim s) \<and> amount (trim s) * 10 ^ 2 \<le> 9007199254740991
      \<and> x = Fin (amount (trim s) * 10 ^ 2))
   \<and> (tariffMinor s = Some x \<longleftrightarrow> amount_shape 2 s \<and> amount s * 10 ^ 2 \<le> 1000000000 \<and> x = Fin (amount s * 10 ^ 2))"
  unfolding micros_units minor_units tariffMinor_units
  using exact_units_iff [of 9007199254740991 6 "trim s" x] exact_units_iff [of 9007199254740991 2 "trim s" x]
    exact_units_iff [of 1000000000 2 s x] by simp

section \<open>What the forms send\<close>

definition whole_number :: "jsnum \<Rightarrow> bool" where
  "whole_number x \<longleftrightarrow> (\<exists>n::nat. x = Fin (of_nat n))"

definition tariff_ok :: "tariff_input \<Rightarrow> bool" where
  "tariff_ok t \<longleftrightarrow> distributor t \<noteq> [] \<and> effectiveFrom t \<noteq> [] \<and> effectiveTo t \<noteq> []
     \<and> list_all (nat_within 0 9007199254740991)
         [consumptionTE t, consumptionTUSD t, compensationTE t, compensationTUSD t, flagRate t, cipMinor t]
     \<and> availabilityKWh t \<in> {Fin 30, Fin 50, Fin 100}"

definition cycle_ok :: "cycle_input \<Rightarrow> bool" where
  "cycle_ok c \<longleftrightarrow> readingStart c \<noteq> [] \<and> readingEnd c \<noteq> []
     \<and> list_all whole_number [activeConsumptionKWh c, injectedKWh c, creditsUsedKWh c, creditBalanceKWh c,
         flagChargeMinor c, totalPaidMinor c]"

lemma exact_units_within:
  "bound \<le> 9007199254740991 \<Longrightarrow> exact_units k bound t = Some x \<Longrightarrow> nat_within 0 bound x"
  by (auto simp: exact_units_def nat_within_def Let_def fl_nat split: option.splits if_splits simp del: of_nat_add of_nat_mult)

lemma micros_within: "micros s = Some x \<Longrightarrow> nat_within 0 9007199254740991 x"
  unfolding micros_units by (rule exact_units_within) simp

lemma minor_within: "minor s = Some x \<Longrightarrow> nat_within 0 9007199254740991 x"
  unfolding minor_units by (rule exact_units_within) simp

lemma tariff_payload_ok: "tariff_payload v = Some t \<Longrightarrow> tariff_ok t"
  by (auto simp: tariff_payload_def tariff_ok_def Let_def jeq_def micros_within minor_within split: option.splits if_splits)

lemma whole_numberI: "is_integer x \<Longrightarrow> \<not> jlt x (Fin 0) \<Longrightarrow> whole_number x"
proof (cases x)
  case (Fin q)
  assume "is_integer x" "\<not> jlt x (Fin 0)"
  with Fin have q: "of_int \<lfloor>q\<rfloor> = q" "0 \<le> \<lfloor>q\<rfloor>" by simp_all
  then have "q = of_nat (nat \<lfloor>q\<rfloor>)" by (metis int_nat_eq of_int_of_nat_eq)
  with Fin show ?thesis unfolding whole_number_def by blast
qed simp_all

lemma cycle_payload_ok: "cycle_payload v = Some c \<Longrightarrow> cycle_ok c"
  by (auto simp: cycle_payload_def cycle_ok_def Let_def whole_numberI split: if_splits)

section \<open>The invariant of the page\<close>

text \<open>An approval of the proposal the page showed, with the source and the first cycle of that moment.\<close>

definition approval_of :: "(page_data \<times> api_call) list \<Rightarrow> jsstring \<Rightarrow> jsnum option \<Rightarrow> bool" where
  "approval_of cs source cycle \<longleftrightarrow> (\<exists>d p. (d, ApproveProposal (pr_id p)) \<in> set cs \<and> shown_proposal d = Some p
     \<and> sourceUrl p = source \<and> first_cycle d = cycle)"

fun call_ok :: "(page_data \<times> api_call) list \<Rightarrow> page_data \<Rightarrow> api_call \<Rightarrow> bool" where
  "call_ok older d (ApproveProposal i) = (\<exists>p. shown_proposal d = Some p \<and> i = pr_id p)"
| "call_ok older d SettingsProposal = (is_ready d \<and> shown_proposal d = None \<and> \<not> approved d)"
| "call_ok older d (ManualProposal v) = (\<exists>t. v = tariff_json t \<and> tariff_ok t)"
| "call_ok older d (CreateCycle v) = (approved d \<and> shown_proposal d = None \<and> (\<exists>c. v = cycle_json c \<and> cycle_ok c))"
| "call_ok older d (RecalculateCycle i) = approval_of older (js ''/finance'') (Some i)"
| "call_ok older d _ = False"

fun log_ok :: "(page_data \<times> api_call) list \<Rightarrow> bool" where
  "log_ok [] = True"
| "log_ok ((d, c) # older) = (call_ok older d c \<and> log_ok older)"

definition finance_ok :: "finance \<Rightarrow> bool" where
  "finance_ok w \<longleftrightarrow> log_ok (calls w) \<and> list_all (\<lambda>(source, cycle). approval_of (calls w) source cycle) (approvals w)"

lemma approval_of_older: "approval_of cs source cycle \<Longrightarrow> approval_of (c # cs) source cycle"
  by (auto simp: approval_of_def)

lemma list_all_older:
  "list_all (\<lambda>(source, cycle). approval_of cs source cycle) as \<Longrightarrow>
    list_all (\<lambda>(source, cycle). approval_of (c # cs) source cycle) as"
  by (auto simp: list_all_iff intro: approval_of_older)

lemma log_call_simps [simp]:
  "calls (log_call c w) = (page w, c) # calls w" "approvals (log_call c w) = approvals w" "page (log_call c w) = page w"
  by (simp_all add: log_call_def)

text \<open>One more call keeps the invariant when it is the page's to make.\<close>

lemma finance_ok_log: "finance_ok w \<Longrightarrow> call_ok (calls w) (page w) c \<Longrightarrow> finance_ok (log_call c w)"
  by (simp add: finance_ok_def list_all_older)

text \<open>Nothing else in the state matters.\<close>

lemma finance_ok_cong: "calls w' = calls w \<Longrightarrow> approvals w' = approvals w \<Longrightarrow> finance_ok w' = finance_ok w"
  by (simp add: finance_ok_def)

lemma finance_ok_approve: "finance_ok w \<Longrightarrow> finance_ok (approve_click w)"
proof (cases "shown_proposal (page w)")
  case (Some p)
  assume w: "finance_ok w"
  have "approval_of ((page w, ApproveProposal (pr_id p)) # calls w) (sourceUrl p) (first_cycle (page w))"
    using Some by (auto simp: approval_of_def)
  with w Some show ?thesis by (simp add: approve_click_def finance_ok_def list_all_older)
qed (simp add: approve_click_def)

lemma finance_ok_approve_reply:
  assumes "finance_ok w"
  shows "finance_ok (approve_reply i accepted w)"
proof (cases "drop i (approvals w)")
  case Nil
  then show ?thesis using assms by (simp add: approve_reply_def)
next
  case (Cons a rest)
  obtain source cycle where a: "a = (source, cycle)" by force
  have mem: "set (take i (approvals w)) \<subseteq> set (approvals w)" "set (a # rest) \<subseteq> set (approvals w)"
    using set_take_subset set_drop_subset [of i "approvals w"] Cons by metis+
  then have w1: "finance_ok (w\<lparr>approvals := take i (approvals w) @ rest\<rparr>)"
    using assms by (auto simp: finance_ok_def list_all_iff)
  have "approval_of (calls w) source cycle" using assms mem(2) a by (auto simp: finance_ok_def list_all_iff)
  with w1 Cons a show ?thesis
    by (auto simp: approve_reply_def Let_def intro!: finance_ok_log split: option.splits)
qed

lemma finance_ok_tariff_submit:
  assumes "finance_ok w"
  shows "finance_ok (tariff_submit w)"
proof -
  have keep: "finance_ok (w\<lparr>tariff_form := f\<rparr>)" for f using assms by (simp add: finance_ok_def)
  have sent: "finance_ok ((log_call (ManualProposal (tariff_json t)) w)\<lparr>tariff_form := f, tariff_open := m\<rparr>)"
    if "tariff_ok t" for t f m
    using assms that by (auto simp: finance_ok_def list_all_older)
  show ?thesis
    using assms keep sent tariff_payload_ok [of "f_values (tariff_form w)"]
    by (auto simp: tariff_submit_def submit_tariff_def split: option.splits)
qed

lemma finance_ok_cycle_submit:
  assumes "finance_ok w"
  shows "finance_ok (cycle_submit w)"
proof -
  have keep: "finance_ok (w\<lparr>cycle_form := f\<rparr>)" for f using assms by (simp add: finance_ok_def)
  have sent: "finance_ok ((log_call (CreateCycle (cycle_json c)) w)\<lparr>cycle_form := f, cycle_open := m\<rparr>)"
    if "cycle_ok c" "billing_enabled (page w)" for c f m
    using assms that by (auto simp: finance_ok_def list_all_older billing_enabled_def)
  show ?thesis
    using assms keep sent cycle_payload_ok [of "f_values (cycle_form w)"]
    by (auto simp: cycle_submit_def submit_cycle_def split: option.splits)
qed

lemma finance_ok_prepare: "finance_ok w \<Longrightarrow> finance_ok (prepare_click w)"
  by (auto simp: prepare_click_def finance_ok_def list_all_older log_call_def)

lemma finance_ok_step: "finance_ok w \<Longrightarrow> finance_ok (finance_step w e)"
proof (cases e)
  case (TariffReply m accepted)
  then show "finance_ok w \<Longrightarrow> ?thesis" by (simp add: tariff_reply_def Let_def finance_ok_def)
next
  case (CycleReply m accepted)
  then show "finance_ok w \<Longrightarrow> ?thesis" by (simp add: cycle_reply_def finance_ok_def)
qed (simp_all add: finance_ok_approve finance_ok_approve_reply finance_ok_tariff_submit finance_ok_cycle_submit
    finance_ok_prepare data_failed_def toggle_editor_def, simp_all add: finance_ok_def)

interpretation finance: event_machine finance_step finance_ok
  by unfold_locales (rule finance_ok_step)

lemma finance_ok_initial: "finance_ok finance_initial"
  by (simp add: finance_ok_def finance_initial_def)

lemma log_ok_split: "log_ok (newer @ (d, c) # older) \<Longrightarrow> call_ok older d c"
  by (induction newer) auto

text \<open>
  C14. Whatever happens on the finance page: it approves only the proposal it shows, prepares one from
  the settings only when there is none, sends only complete tariffs and cycles with whole,
  non-negative amounts, a cycle only while a tariff is approved and no proposal waits, and a
  recalculation only of the first cycle shown when a proposal of the user's own was approved.
\<close>

theorem finance_guarded:
  assumes "calls (foldl finance_step finance_initial es) = newer @ (d, c) # older"
  shows "call_ok older d c"
proof -
  have "finance_ok (foldl finance_step finance_initial es)" by (rule finance.run_inv) (rule finance_ok_initial)
  then have "log_ok (newer @ (d, c) # older)" by (simp add: finance_ok_def assms)
  then show ?thesis by (rule log_ok_split)
qed

definition sample_proposal :: proposal where
  "sample_proposal = \<lparr>approvedAt = None, pr_availability = Fin 100, pr_cip = Fin 2556, pr_compensationTE = Fin 389506,
     pr_compensationTUSD = Fin 319588, pr_consumptionTE = Fin 389503, pr_consumptionTUSD = Fin 538944,
     pr_distributor = js ''COPEL'', pr_from = js ''2026-01-01'', pr_to = js ''2026-12-31'', pr_flag = Fin 4938,
     pr_id = Fin 3, parserVersion = js ''1'', retrievedAt = js ''2026-01-02'', sourceUrl = js ''/finance'', displayRates = []\<rparr>"

lemma finance_guarded_witness:
  "call_ok [(Ready [Fin 7] [sample_proposal], ApproveProposal (Fin 3))] (Ready [Fin 7] []) (RecalculateCycle (Fin 7))"
proof (rule finance_guarded [where newer = "[]"])
  show "calls (foldl finance_step finance_initial
      [DataArrived [Fin 7] [sample_proposal], ApproveClick, DataArrived [Fin 7] [], ApproveReply 0 True])
    = [] @ (Ready [Fin 7] [], RecalculateCycle (Fin 7)) # [(Ready [Fin 7] [sample_proposal], ApproveProposal (Fin 3))]"
    by (simp add: finance_initial_def approve_click_def approve_reply_def log_call_def sample_proposal_def)
qed

end
