(* ===== verification/FinanceView.thy ===== *)
theory FinanceView
  imports Finance Markup
begin

text \<open>
  The finance page as markup, \<open>web/src/features/finance\<close>: \<open>FinancePage.tsx\<close> with \<open>Projection\<close>,
  \<open>TariffProposalCard.tsx\<close>, \<open>ManualTariffForm.tsx\<close> and \<open>BillingCycleForm.tsx\<close>, over the machine of
  \<open>Finance\<close>.

  What the theory shows (\<open>finance_page\<close>): the page is well formed in every state, what it does not offer
  the machine does not do, and what it offers has the effect it names or an alert that says why not.

  Parameters: \<open>fs\<close>, the summary the server gives with the data; its texts are printed as they come.
\<close>

section \<open>The projection and the proposal\<close>

record projection =
  displayRows :: "(jsstring \<times> jsstring) list"
  displayTotal :: jsstring
  displayWithoutSolar :: jsstring

record finance_summary =
  creditBalance :: jsnum
  latestProjection :: "projection option"
  nextCreditExpiry :: "jsstring option"

datatype finance_click = Act finance_event | RefreshFinance

definition rate_pair :: "jsstring \<times> jsstring \<Rightarrow> 'e node" where
  "rate_pair = (\<lambda>(t, d). El Div [] [] [El Term [] [] [Txt t], El Description [] [] [Txt d]])"

definition guidance :: "jsstring \<Rightarrow> jsstring \<Rightarrow> 'e node list \<Rightarrow> 'e node" where
  "guidance title why rest = El Section [] [] ([El Heading [] [] [Txt title], El Paragraph [] [] [Txt why]] @ rest)"

definition Projection :: "finance_summary \<Rightarrow> finance_click node list" where
  "Projection fs = (case latestProjection fs of
       None \<Rightarrow> [guidance (jsx ''Uma tarifa aprovada abre as proje&ccedil;&otilde;es'')
         (jsx ''Revise a proposta de fonte oficial e aprove-a antes de registrar a primeira fatura.'') []]
     | Some p \<Rightarrow> [El Section [] []
         [El Div [] [] [El Paragraph [] [] [Txt (jsx ''Proje&ccedil;&atilde;o estimada sem medidor'')], El Heading [] [] [Txt (displayTotal p)],
            El Span [] [] [Txt (js ''Sem solar: ''), Txt (displayWithoutSolar p)]],
          El Div [] [] [El Paragraph [] [] [Txt (jsx ''Saldo de cr&eacute;ditos'')], El Strong [] [] [Txt (num_text (creditBalance fs)), Txt (js '' kWh'')],
            El Span [] [] [Txt (jsx ''Pr&oacute;ximo vencimento: ''), Txt (or_else (nextCreditExpiry fs) (jsx ''sem cr&eacute;ditos a vencer''))]]],
         guidance (js ''Real versus projetado'') (jsx ''A composi&ccedil;&atilde;o &eacute; estimada pelo servidor; o total informado na conta &eacute; a refer&ecirc;ncia.'')
           [El DescriptionList [] [] (map rate_pair (displayRows p))]])"

definition proposal_links :: "proposal_link \<Rightarrow> finance_click node" where
  "proposal_links l = (case l of
       EditSettings \<Rightarrow> El Link [(Href, js ''/settings'')] [] [Txt (jsx ''Editar tarifa em Configura&ccedil;&otilde;es'')]
     | LocalInvoice \<Rightarrow> El Small [] [] [Txt (js ''Valores inseridos da fatura local.'')]
     | OfficialSource u \<Rightarrow> El Link [(Href, u)] [] [Txt (js ''Abrir fonte oficial'')])"

definition ProposalView :: "proposal \<Rightarrow> bool \<Rightarrow> finance_click node" where
  "ProposalView p pend = (case TariffProposalCard p pend of ((eyebrow, title), validity, rates, link, source, label) \<Rightarrow>
     El Section [(LabelledBy, js ''tariff-title'')] []
       [El Paragraph [] [] [Txt eyebrow], El Heading [(Id, js ''tariff-title'')] [] [Txt title],
        El Paragraph [] [] [Txt (jsx ''Aguardando aprova&ccedil;&atilde;o expl&iacute;cita'')],
        El Paragraph [] [] [El Strong [] [] [Txt (pr_distributor p)], Txt validity],
        El DescriptionList [] [] (map rate_pair rates), proposal_links link, El Small [] [] [Txt source],
        El Button (only_if pend [(Disabled, [])] @ [(Type, js ''button'')]) [(OnClick, \<lambda>_. Act ApproveClick)] [Txt label]])"

section \<open>The forms\<close>

definition form_alert :: "jsstring \<Rightarrow> 'e node" where
  "form_alert s = El Paragraph [(Role, js ''alert'')] [] [Txt s]"

definition error_part :: "(form_error \<Rightarrow> jsstring) \<Rightarrow> 'k form \<Rightarrow> 'e node list" where
  "error_part message f = (case f_error f of None \<Rightarrow> [] | Some e \<Rightarrow> [form_alert (message e)])"

definition submit_button :: "bool \<Rightarrow> jsstring \<Rightarrow> 'e node" where
  "submit_button off label = El Button (only_if off [(Disabled, [])] @ [(Type, js ''submit'')]) [] [Txt label]"

fun tariff_message :: "form_error \<Rightarrow> jsstring" where
  "tariff_message FillIn = jsx ''Informe datas, valores positivos ou zero, CIP e tipo de liga&ccedil;&atilde;o.''"
| "tariff_message NotSaved = jsx ''N&atilde;o foi poss&iacute;vel criar a proposta. Revise os valores da fatura.''"

definition tariff_box :: "(tariff_field \<Rightarrow> jsstring) \<Rightarrow> jsstring \<Rightarrow> tariff_field \<Rightarrow> (attr \<times> jsstring) list \<Rightarrow> finance_click node" where
  "tariff_box v label k as = El Label [] [] [Txt label, El Input (as @ [(Value, v k)]) [(OnChange, \<lambda>s. Act (TypeTariff k s))] []]"

definition availability_box :: "(tariff_field \<Rightarrow> jsstring) \<Rightarrow> finance_click node" where
  "availability_box v = El Label [] [] [Txt (jsx ''Liga&ccedil;&atilde;o''),
     El Select [(Value, v Availability)] [(OnChange, \<lambda>s. Act (TypeTariff Availability s))]
       (map (\<lambda>(x, label). El Choice [(Value, js x)] [] [Txt (jsx label)])
         [(''30'', ''Monof&aacute;sica &middot; 30 kWh''), (''50'', ''Bif&aacute;sica &middot; 50 kWh''), (''100'', ''Trif&aacute;sica &middot; 100 kWh'')])]"

definition ManualTariffForm :: "tariff_field form \<Rightarrow> finance_click node" where
  "ManualTariffForm f = (let v = f_values f; rate = (\<lambda>label k example. tariff_box v (jsx label) k [(Placeholder, js example)]) in
     El Section [] [] [El Paragraph [] [] [Txt (js ''Tarifa detalhada'')], El Heading [] [] [Txt (js ''Conferir pela fatura'')],
       El Paragraph [] [] [Txt (jsx ''Use valores unit&aacute;rios da conta. Para sua liga&ccedil;&atilde;o trif&aacute;sica, selecione 100 kWh. Bandeira aqui &eacute; valor l&iacute;quido por kWh; deixe ajuste avulso da fatura em zero. A aprova&ccedil;&atilde;o ainda ser&aacute; expl&iacute;cita.'')],
       El Form [] [(OnSubmit, \<lambda>_. Act SubmitTariff)]
         ([El Div [] []
           [tariff_box v (js ''Distribuidora'') Distributor [],
            tariff_box v (jsx ''Vig&ecirc;ncia inicial'') EffectiveFrom [(Type, js ''date'')],
            tariff_box v (jsx ''Vig&ecirc;ncia final'') EffectiveTo [(Type, js ''date'')],
            rate ''TE consumo (R$/kWh)'' ConsumptionTE ''0,389503'', rate ''TUSD consumo (R$/kWh)'' ConsumptionTUSD ''0,538944'',
            rate ''TE compensa&ccedil;&atilde;o (R$/kWh)'' CompensationTE ''0,389506'', rate ''TUSD compensa&ccedil;&atilde;o (R$/kWh)'' CompensationTUSD ''0,319588'',
            rate ''Bandeira l&iacute;quida (R$/kWh)'' FlagRate ''0,004938'', availability_box v, rate ''CIP mensal (R$)'' Cip ''25,56'']]
          @ error_part tariff_message f
          @ [submit_button (f_saving f) (if f_saving f then jsx ''Criando proposta&hellip;'' else js ''Criar proposta de tarifa'')])])"

fun cycle_message :: "form_error \<Rightarrow> jsstring" where
  "cycle_message FillIn = jsx ''Preencha leituras e valores inteiros n&atilde;o negativos.''"
| "cycle_message NotSaved = jsx ''N&atilde;o foi poss&iacute;vel salvar a fatura. Confira os dados e a tarifa aprovada.''"

text \<open>The table \<open>fields\<close>: the key, the label and whether the input is a date.\<close>

definition cycle_fields :: "(cycle_field \<times> string \<times> bool) list" where
  "cycle_fields = [(ReadingStart, ''Leitura inicial'', True), (ReadingEnd, ''Leitura final'', True),
     (ActiveConsumption, ''Consumo ativo (kWh)'', False), (Injected, ''Energia injetada (kWh)'', False),
     (CreditsUsed, ''Cr&eacute;ditos usados (kWh)'', False), (CreditBalance, ''Saldo de cr&eacute;ditos (kWh)'', False),
     (FlagCharge, ''Ajuste avulso de bandeira (centavos)'', False), (TotalPaid, ''Total pago (centavos)'', False)]"

definition cycle_box :: "bool \<Rightarrow> (cycle_field \<Rightarrow> jsstring) \<Rightarrow> cycle_field \<times> string \<times> bool \<Rightarrow> finance_click node" where
  "cycle_box off v = (\<lambda>(k, label, is_date). El Label [] [] [Txt (jsx label),
     El Input (only_if off [(Disabled, [])] @ only_if (\<not> is_date) [(Min, js ''0'')]
         @ [(Required, []), (Type, if is_date then js ''date'' else js ''number''), (Value, v k)])
       [(OnChange, \<lambda>s. Act (TypeCycle k s))] []])"

definition BillingCycleForm :: "bool \<Rightarrow> cycle_field form \<Rightarrow> finance_click node" where
  "BillingCycleForm off f = El Section [] []
     [El Paragraph [] [] [Txt (jsx ''Concilia&ccedil;&atilde;o local'')], El Heading [] [] [Txt (js ''Registrar fatura'')],
      El Paragraph [] [] [Txt (jsx ''Informe leituras e os seis valores da fatura. O Helio n&atilde;o calcula dinheiro no navegador.'')],
      El Form [] [(OnSubmit, \<lambda>_. Act SubmitCycle)]
        ([El Div [] [] (map (cycle_box (off \<or> f_saving f) (f_values f)) cycle_fields)] @ error_part cycle_message f
         @ [submit_button (off \<or> f_saving f) (if f_saving f then jsx ''Salvando&hellip;'' else js ''Salvar fatura'')])]"

section \<open>The page\<close>

definition settings_tariff :: "finance \<Rightarrow> finance_click node" where
  "settings_tariff w = guidance (jsx ''Use a tarifa j&aacute; configurada'')
     (jsx ''Crie uma proposta local com valor salvo em Configura&ccedil;&otilde;es. Voc&ecirc; revisa e aprova antes de lan&ccedil;ar qualquer fatura.'')
     (only_if (proposalError w) [form_alert (jsx ''Defina uma tarifa por kWh maior que zero em Configura&ccedil;&otilde;es.'')]
      @ [El Button (only_if (preparing w) [(Disabled, [])] @ [(Type, js ''button'')]) [(OnClick, \<lambda>_. Act PrepareClick)]
           [Txt (if preparing w then jsx ''Preparando tarifa&hellip;'' else js ''Usar tarifa configurada'')],
         El Link [(Href, js ''/settings'')] [] [Txt (jsx ''Editar tarifa em Configura&ccedil;&otilde;es'')]])"

definition editor_toggle :: "finance \<Rightarrow> finance_click node" where
  "editor_toggle w = guidance (jsx ''Tarifa n&atilde;o bateu com sua fatura?'')
     (jsx ''Cadastre TE, TUSD, CIP e tipo de liga&ccedil;&atilde;o da pr&oacute;pria fatura. A proposta n&atilde;o altera registros sem sua aprova&ccedil;&atilde;o.'')
     [El Button [(Type, js ''button'')] [(OnClick, \<lambda>_. Act ToggleEditor)]
        [Txt (if editingTariff w then js ''Fechar tarifa detalhada'' else js ''Cadastrar tarifa detalhada'')]]"

definition FinanceView :: "finance_summary \<Rightarrow> finance \<Rightarrow> finance_click node" where
  "FinanceView fs w = (case page w of
       Loading \<Rightarrow> El Section [(Busy, js ''true'')] [] [Txt (jsx ''Carregando registros financeiros&hellip;'')]
     | Broken \<Rightarrow> El Section [] [] [El Heading [] [] [Txt (jsx ''N&atilde;o foi poss&iacute;vel carregar o financeiro.'')],
         El Button [(Type, js ''button'')] [(OnClick, \<lambda>_. RefreshFinance)] [Txt (js ''Tentar novamente'')]]
     | Ready cs ps \<Rightarrow> (let waiting = shown_proposal (page w); ok = approved (page w) in El Article [] []
         ([El Header [] [] [El Paragraph [] [] [Txt (js ''Unidade geradora'')], El Heading [] [] [Txt (js ''Financeiro solar'')]]]
          @ Projection fs
          @ (case waiting of None \<Rightarrow> [] | Some p \<Rightarrow> [ProposalView p False])
          @ only_if (waiting = None \<and> \<not> ok) [settings_tariff w]
          @ only_if (waiting = None) [editor_toggle w]
          @ only_if (editingTariff w) [ManualTariffForm (tariff_form w)]
          @ [BillingCycleForm (\<not> ok \<or> waiting \<noteq> None) (cycle_form w)])))"

section \<open>The page refers to what it has\<close>

lemma rates_ids [simp]: "ids (rate_pair x) = []" "references (rate_pair x) = []" "inputs_named ls inside (rate_pair x)"
  by (cases x; simp add: rate_pair_def listed_simps)+

lemma rate_lists [simp]: "concat (map (ids \<circ> rate_pair) xs) = []" "concat (map (references \<circ> rate_pair) xs) = []"
  "list_all (inputs_named ls inside \<circ> rate_pair) xs"
  by (simp_all add: comp_def list_all_iff)

lemma projection_ids [simp]: "concat (map ids (Projection fs)) = []" "concat (map references (Projection fs)) = []"
  "list_all (inputs_named ls inside) (Projection fs)"
  by (cases "latestProjection fs"; simp add: Projection_def guidance_def listed_simps list.pred_map)+

lemma proposal_ids [simp]: "ids (ProposalView p b) = [js ''tariff-title'']" "references (ProposalView p b) = [js ''tariff-title'']"
  "inputs_named ls inside (ProposalView p b)"
  by (simp_all add: ProposalView_def TariffProposalCard_def Let_def proposal_links_def listed_simps js_tokens only_if_def list.pred_map
    list_all_iff split: proposal_link.split)

lemma error_ids [simp]: "concat (map ids (error_part m f)) = []" "concat (map references (error_part m f)) = []"
  "list_all (inputs_named ls inside) (error_part m f)"
  by (cases "f_error f"; simp add: error_part_def form_alert_def listed_simps)+

lemma tariff_form_ids [simp]: "ids (ManualTariffForm f) = []" "references (ManualTariffForm f) = []" "inputs_named ls inside (ManualTariffForm f)"
  by (simp_all add: ManualTariffForm_def tariff_box_def availability_box_def submit_button_def Let_def listed_simps only_if_def)

lemma cycle_form_ids [simp]: "ids (BillingCycleForm b f) = []" "references (BillingCycleForm b f) = []" "inputs_named ls inside (BillingCycleForm b f)"
  by (simp_all add: BillingCycleForm_def cycle_box_def cycle_fields_def submit_button_def listed_simps only_if_def)

lemma finance_page_ok: "page_ok (FinanceView fs w)"
  by (cases "page w"; cases "shown_proposal (page w)")
    (simp_all add: FinanceView_def page_ok_def listed_simps settings_tariff_def editor_toggle_def guidance_def form_alert_def Let_def only_if_def)

section \<open>What the page offers\<close>

fun by_user :: "finance_event \<Rightarrow> bool" where
  "by_user (TypeTariff k s) = True"
| "by_user (TypeCycle k s) = True"
| "by_user ApproveClick = True"
| "by_user PrepareClick = True"
| "by_user ToggleEditor = True"
| "by_user SubmitTariff = True"
| "by_user SubmitCycle = True"
| "by_user _ = False"

lemma rates_offer [simp]: "\<not> offers (rate_pair x) e" "\<not> list_ex (\<lambda>n. offers n e) (map rate_pair xs)"
  "\<not> list_ex (\<lambda>n. offers n e) (map (rate_pair \<circ> g) ys)"
  by (cases x; simp add: rate_pair_def offers_simps list_ex_iff split_beta)+

lemma projection_offers [simp]: "\<not> list_ex (\<lambda>n. offers n e) (Projection fs)"
  by (cases "latestProjection fs") (simp_all add: Projection_def guidance_def offers_simps)

lemma proposal_offers [simp]: "offers (ProposalView p False) e \<longleftrightarrow> e = Act ApproveClick"
  by (auto simp: ProposalView_def TariffProposalCard_def Let_def proposal_links_def offers_simps split: proposal_link.split)

lemma error_offers [simp]: "\<not> list_ex (\<lambda>n. offers n e) (error_part m f)" "\<not> list_ex can_submit (error_part m f)"
  by (cases "f_error f"; simp add: error_part_def form_alert_def offers_simps)+

lemma box_offers [simp]: "offers (tariff_box v l k as) e \<longleftrightarrow> map_of as Disabled = None \<and> (\<exists>s. e = Act (TypeTariff k s))"
  "\<not> can_submit (tariff_box v l k as)"
  "offers (availability_box v) e \<longleftrightarrow> (\<exists>s. e = Act (TypeTariff Availability s))" "\<not> can_submit (availability_box v)"
  "offers (cycle_box b u x) e \<longleftrightarrow> \<not> b \<and> (\<exists>s. e = Act (TypeCycle (fst x) s))" "\<not> can_submit (cycle_box b u x)"
  by (cases x; auto simp: tariff_box_def availability_box_def cycle_box_def offers_simps only_if_def map_add_Some_iff)+

lemma tariff_form_offers [simp]: "offers (ManualTariffForm f) e \<longleftrightarrow> (\<exists>k s. e = Act (TypeTariff k s)) \<or> \<not> f_saving f \<and> e = Act SubmitTariff"
proof -
  have every: "(\<exists>k. P k) \<longleftrightarrow> P Distributor \<or> P EffectiveFrom \<or> P EffectiveTo \<or> P ConsumptionTE \<or> P ConsumptionTUSD \<or> P CompensationTE
    \<or> P CompensationTUSD \<or> P FlagRate \<or> P Availability \<or> P Cip" for P by (metis tariff_field.exhaust)
  show ?thesis unfolding every
    by (simp add: ManualTariffForm_def Let_def offers_simps submit_button_def only_if_def) auto
qed

lemma cycle_form_offers [simp]: "offers (BillingCycleForm b f) e \<longleftrightarrow>
    \<not> b \<and> \<not> f_saving f \<and> ((\<exists>k s. e = Act (TypeCycle k s)) \<or> e = Act SubmitCycle)"
proof -
  have every: "(\<exists>k. P k) \<longleftrightarrow> P ReadingStart \<or> P ReadingEnd \<or> P ActiveConsumption \<or> P Injected \<or> P CreditsUsed \<or> P CreditBalance
    \<or> P FlagCharge \<or> P TotalPaid" for P by (metis cycle_field.exhaust)
  show ?thesis unfolding every
    by (simp add: BillingCycleForm_def cycle_fields_def offers_simps submit_button_def only_if_def) auto
qed

lemma finance_offers: "offers (FinanceView fs w) (Act e) \<longleftrightarrow> is_ready (page w) \<and> (case e of
     ApproveClick \<Rightarrow> shown_proposal (page w) \<noteq> None
   | PrepareClick \<Rightarrow> shown_proposal (page w) = None \<and> \<not> approved (page w) \<and> \<not> preparing w
   | ToggleEditor \<Rightarrow> shown_proposal (page w) = None
   | TypeTariff k s \<Rightarrow> editingTariff w | SubmitTariff \<Rightarrow> editingTariff w \<and> \<not> f_saving (tariff_form w)
   | TypeCycle k s \<Rightarrow> billing_enabled (page w) \<and> \<not> f_saving (cycle_form w)
   | SubmitCycle \<Rightarrow> billing_enabled (page w) \<and> \<not> f_saving (cycle_form w)
   | _ \<Rightarrow> False)"
proof (cases "page w")
  case (Ready cs ps)
  have parts: "offers (settings_tariff w) x \<longleftrightarrow> \<not> preparing w \<and> x = Act PrepareClick" "offers (editor_toggle w) x \<longleftrightarrow> x = Act ToggleEditor" for x
    by (auto simp: settings_tariff_def editor_toggle_def guidance_def form_alert_def offers_simps only_if_def)
  show ?thesis
    by (cases "shown_proposal (page w)"; cases e)
      (auto simp: FinanceView_def Ready parts offers_simps billing_enabled_def only_if_def Let_def simp del: shown_proposal.simps approved.simps)
qed (simp_all add: FinanceView_def offers_simps)

lemma waiting_ready: "shown_proposal d = Some p \<Longrightarrow> is_ready d"
  by (cases d) simp_all

text \<open>The error of a form that is shown is an alert of the page.\<close>

lemma alert_element: "set (with_role k (El t as hs ns)) = (if map_of as Role = Some (js k) then {concat (map text_content ns)} else {})
    \<union> (\<Union>n \<in> set ns. set (with_role k n))"
  by (simp add: with_role_def)

lemma alert_shown: "f_error f = Some x \<Longrightarrow> error_part m f = [form_alert (m x)]" "m x \<in> set (with_role ''alert'' (form_alert (m x)))"
  by (simp_all add: error_part_def form_alert_def alert_element)

lemma tariff_alert: "is_ready (page w) \<Longrightarrow> editingTariff w \<Longrightarrow> f_error (tariff_form w) = Some x \<Longrightarrow>
    tariff_message x \<in> set (with_role ''alert'' (FinanceView fs w))"
  using alert_shown(2) [of tariff_message x] by (cases "page w") (auto simp: FinanceView_def ManualTariffForm_def Let_def alert_shown(1) alert_element)

lemma cycle_alert: "is_ready (page w) \<Longrightarrow> f_error (cycle_form w) = Some x \<Longrightarrow>
    cycle_message x \<in> set (with_role ''alert'' (FinanceView fs w))"
  using alert_shown(2) [of cycle_message x] by (cases "page w") (auto simp: FinanceView_def BillingCycleForm_def Let_def alert_shown(1) alert_element)

lemma submitted_tariff:
  assumes "offers (FinanceView fs w) (Act SubmitTariff)"
  defines "w' \<equiv> finance_step w SubmitTariff"
  shows "\<not> offers (FinanceView fs w') (Act SubmitTariff)
      \<and> (\<exists>t. tariff_payload (f_values (tariff_form w)) = Some t \<and> calls w' = (page w, ManualProposal (tariff_json t)) # calls w)
    \<or> calls w' = calls w \<and> jsx ''Informe datas, valores positivos ou zero, CIP e tipo de liga&ccedil;&atilde;o.'' \<in> set (with_role ''alert'' (FinanceView fs w'))"
proof -
  have w: "is_ready (page w)" "editingTariff w" "\<not> f_saving (tariff_form w)" using assms(1) by (simp_all add: finance_offers)
  show ?thesis
  proof (cases "tariff_payload (f_values (tariff_form w))")
    case None
    then have w': "w' = w\<lparr>tariff_form := (tariff_form w)\<lparr>f_error := Some FillIn\<rparr>\<rparr>"
      using w by (simp add: w'_def tariff_submit_def tariff_shown_def submit_tariff_def)
    then have "tariff_message FillIn \<in> set (with_role ''alert'' (FinanceView fs w'))"
      using w by (intro tariff_alert) simp_all
    with w' show ?thesis by simp
  next
    case (Some t)
    then have "w' = (log_call (ManualProposal (tariff_json t)) w)\<lparr>tariff_form := (tariff_form w)\<lparr>f_saving := True\<rparr>,
        tariff_open := mount (tariff_form w) # tariff_open w\<rparr>"
      using w by (simp add: w'_def tariff_submit_def tariff_shown_def submit_tariff_def log_call_def)
    with Some show ?thesis by (simp add: finance_offers)
  qed
qed

lemma submitted_cycle:
  assumes "offers (FinanceView fs w) (Act SubmitCycle)"
  defines "w' \<equiv> finance_step w SubmitCycle"
  shows "\<not> offers (FinanceView fs w') (Act SubmitCycle)
      \<and> (\<exists>c. cycle_payload (f_values (cycle_form w)) = Some c \<and> calls w' = (page w, CreateCycle (cycle_json c)) # calls w)
    \<or> calls w' = calls w \<and> jsx ''Preencha leituras e valores inteiros n&atilde;o negativos.'' \<in> set (with_role ''alert'' (FinanceView fs w'))"
proof -
  have w: "is_ready (page w)" "billing_enabled (page w)" "\<not> f_saving (cycle_form w)" using assms(1) by (simp_all add: finance_offers)
  show ?thesis
  proof (cases "cycle_payload (f_values (cycle_form w))")
    case None
    then have w': "w' = w\<lparr>cycle_form := (cycle_form w)\<lparr>f_error := Some FillIn\<rparr>\<rparr>"
      using w by (simp add: w'_def cycle_submit_def submit_cycle_def)
    then have "cycle_message FillIn \<in> set (with_role ''alert'' (FinanceView fs w'))"
      using w by (intro cycle_alert) simp_all
    with w' show ?thesis by simp
  next
    case (Some c)
    then have "w' = (log_call (CreateCycle (cycle_json c)) w)\<lparr>cycle_form := (cycle_form w)\<lparr>f_error := None, f_saving := True\<rparr>,
        cycle_open := mount (cycle_form w) # cycle_open w\<rparr>"
      using w by (simp add: w'_def cycle_submit_def submit_cycle_def log_call_def)
    with Some show ?thesis by (simp add: finance_offers)
  qed
qed

text \<open>
  C15. The finance page and its machine agree: in every state the page is well formed; what the page
  does not offer the user, the machine does not do; the button of a proposal approves exactly the
  proposal that waits, the button of the settings' tariff asks for its proposal, and a submission either
  makes exactly the call of its form, and disables the form's button, or says on the page what is missing.
\<close>

theorem finance_page:
  assumes "by_user e"
  shows "page_ok (FinanceView fs w)
    \<and> (\<not> offers (FinanceView fs w) (Act e) \<longrightarrow> finance_step w e = w)
    \<and> (offers (FinanceView fs w) (Act e) \<longrightarrow> (let w' = finance_step w e in case e of
        ApproveClick \<Rightarrow> \<exists>p. shown_proposal (page w) = Some p \<and> calls w' = (page w, ApproveProposal (pr_id p)) # calls w
      | PrepareClick \<Rightarrow> calls w' = (page w, SettingsProposal) # calls w
      | SubmitTariff \<Rightarrow> \<not> offers (FinanceView fs w') (Act e)
            \<and> (\<exists>t. tariff_payload (f_values (tariff_form w)) = Some t \<and> calls w' = (page w, ManualProposal (tariff_json t)) # calls w)
          \<or> calls w' = calls w \<and> jsx ''Informe datas, valores positivos ou zero, CIP e tipo de liga&ccedil;&atilde;o.'' \<in> set (with_role ''alert'' (FinanceView fs w'))
      | SubmitCycle \<Rightarrow> \<not> offers (FinanceView fs w') (Act e)
            \<and> (\<exists>c. cycle_payload (f_values (cycle_form w)) = Some c \<and> calls w' = (page w, CreateCycle (cycle_json c)) # calls w)
          \<or> calls w' = calls w \<and> jsx ''Preencha leituras e valores inteiros n&atilde;o negativos.'' \<in> set (with_role ''alert'' (FinanceView fs w'))
      | _ \<Rightarrow> calls w' = calls w))"
proof -
  have none: "\<not> offers (FinanceView fs w) (Act e) \<Longrightarrow> finance_step w e = w"
    using assms unfolding finance_offers
    by (cases e) (auto simp: approve_click_def prepare_click_def toggle_editor_def tariff_submit_def cycle_submit_def tariff_shown_def
      billing_enabled_def waiting_ready split: option.splits)
  have approve: "offers (FinanceView fs w) (Act ApproveClick) \<Longrightarrow>
      \<exists>p. shown_proposal (page w) = Some p \<and> calls (finance_step w ApproveClick) = (page w, ApproveProposal (pr_id p)) # calls w"
    by (auto simp: finance_offers approve_click_def)
  have prepare: "offers (FinanceView fs w) (Act PrepareClick) \<Longrightarrow> calls (finance_step w PrepareClick) = (page w, SettingsProposal) # calls w"
    by (auto simp: finance_offers prepare_click_def)
  have rest: "calls (finance_step w ToggleEditor) = calls w" "calls (finance_step w (TypeTariff k s)) = calls w"
    "calls (finance_step w (TypeCycle j s)) = calls w" for k j s
    by (simp_all add: toggle_editor_def)
  have "offers (FinanceView fs w) (Act e) \<longrightarrow> (let w' = finance_step w e in case e of
        ApproveClick \<Rightarrow> \<exists>p. shown_proposal (page w) = Some p \<and> calls w' = (page w, ApproveProposal (pr_id p)) # calls w
      | PrepareClick \<Rightarrow> calls w' = (page w, SettingsProposal) # calls w
      | SubmitTariff \<Rightarrow> \<not> offers (FinanceView fs w') (Act e)
            \<and> (\<exists>t. tariff_payload (f_values (tariff_form w)) = Some t \<and> calls w' = (page w, ManualProposal (tariff_json t)) # calls w)
          \<or> calls w' = calls w \<and> jsx ''Informe datas, valores positivos ou zero, CIP e tipo de liga&ccedil;&atilde;o.'' \<in> set (with_role ''alert'' (FinanceView fs w'))
      | SubmitCycle \<Rightarrow> \<not> offers (FinanceView fs w') (Act e)
            \<and> (\<exists>c. cycle_payload (f_values (cycle_form w)) = Some c \<and> calls w' = (page w, CreateCycle (cycle_json c)) # calls w)
          \<or> calls w' = calls w \<and> jsx ''Preencha leituras e valores inteiros n&atilde;o negativos.'' \<in> set (with_role ''alert'' (FinanceView fs w'))
      | _ \<Rightarrow> calls w' = calls w)"
    using submitted_tariff [of fs w] submitted_cycle [of fs w] approve prepare rest assms by (cases e; simp only: Let_def finance_event.case by_user.simps simp_thms; blast)
  with none show ?thesis using finance_page_ok by blast
qed

text \<open>The editor is opened and its empty form submitted.\<close>

lemma finance_page_witness:
  "jsx ''Informe datas, valores positivos ou zero, CIP e tipo de liga&ccedil;&atilde;o.'' \<in> set (with_role ''alert''
     (FinanceView \<lparr>creditBalance = Fin 0, latestProjection = None, nextCreditExpiry = None\<rparr>
       (foldl finance_step finance_initial [DataArrived [] [], ToggleEditor, SubmitTariff])))"
proof -
  let ?fs = "\<lparr>creditBalance = Fin 0, latestProjection = None, nextCreditExpiry = None\<rparr>"
  define w where "w = foldl finance_step finance_initial [DataArrived [] [], ToggleEditor]"
  have w: "is_ready (page w)" "editingTariff w" "\<not> f_saving (tariff_form w)" "f_values (tariff_form w) = tariff_initial"
    by (simp_all add: w_def finance_initial_def toggle_editor_def mount_form_def)
  then have "offers (FinanceView ?fs w) (Act SubmitTariff)" by (simp add: finance_offers)
  moreover have "tariff_payload tariff_initial = None" by code_simp
  ultimately have "jsx ''Informe datas, valores positivos ou zero, CIP e tipo de liga&ccedil;&atilde;o.''
      \<in> set (with_role ''alert'' (FinanceView ?fs (finance_step w SubmitTariff)))"
    using finance_page [of SubmitTariff ?fs w] w(4) by (simp add: Let_def)
  then show ?thesis by (simp add: w_def)
qed

end
