(* ===== verification/AuthGate.thy ===== *)
theory AuthGate
  imports ApiClient
begin

text \<open>
  Who sees what: \<open>web/src/app/auth-gate.ts\<close>, the handler of status 401 in
  \<open>web/src/app/query-client.ts\<close>, the root layout of \<open>web/src/routes/__root.tsx\<close>, the destination of
  \<open>web/src/routes/login.tsx\<close>, the end of a session in \<open>AppShell.tsx\<close> and the current entry of
  \<open>PrimaryNav.tsx\<close>.

  Parameters: \<open>parse\<close> is the browser's URL parser, \<open>new URL(text, origin)\<close> (\<open>None\<close> when it throws);
  \<open>query\<close> is \<open>new URLSearchParams(search).get(name)\<close>.
\<close>

section \<open>Sessions and decisions\<close>

datatype session_access = SessionLoading | Authenticated | Anonymous | SessionUnavailable

datatype access_decision = DecideLoading | DecideRender | GoHome | GoBootstrap | GoLogin

definition classifySessionResult :: "bool \<Rightarrow> failure option \<Rightarrow> session_access" where
  "classifySessionResult isSuccess error =
     (if isSuccess then Authenticated
      else (case error of None \<Rightarrow> SessionLoading
        | Some (ApiFailure e) \<Rightarrow> if e_status e = 401 then Anonymous else SessionUnavailable
        | Some TypeFailure \<Rightarrow> SessionUnavailable))"

definition resolveAppAccess :: "jsstring \<Rightarrow> bool \<Rightarrow> bool option \<Rightarrow> access_decision" where
  "resolveAppAccess path bootstrapOpen authenticated =
     (if bootstrapOpen then (if path = js ''/bootstrap'' then DecideRender else GoBootstrap)
      else if path = js ''/bootstrap'' then
        (case authenticated of None \<Rightarrow> DecideLoading | Some a \<Rightarrow> if a then GoHome else GoLogin)
      else if path = js ''/login'' then DecideRender
      else (case authenticated of None \<Rightarrow> DecideLoading | Some a \<Rightarrow> if a then DecideRender else GoLogin))"

section \<open>Redirect targets\<close>

record url =
  u_origin :: jsstring
  u_pathname :: jsstring
  u_search :: jsstring
  u_hash :: jsstring

text \<open>The loop of two passes, which stops at the first error.\<close>

fun decode_passes :: "nat \<Rightarrow> jsstring \<Rightarrow> jsstring" where
  "decode_passes 0 p = p"
| "decode_passes (Suc n) p = (case decode_uri p of None \<Rightarrow> p | Some q \<Rightarrow> decode_passes n q)"

definition home :: jsstring where
  "home = js ''/''"

definition safeRedirectTarget ::
  "(jsstring \<Rightarrow> jsstring \<Rightarrow> url option) \<Rightarrow> jsstring \<Rightarrow> jsstring option \<Rightarrow> jsstring" where
  "safeRedirectTarget parse origin candidate = (case candidate of None \<Rightarrow> home | Some text \<Rightarrow>
     if text = [] then home else
     (case parse text origin of None \<Rightarrow> home | Some d \<Rightarrow>
        if u_origin d \<noteq> origin then home
        else let decodedPath = decode_passes 2 (u_pathname d) in
          if starts_with [47, 47] decodedPath \<or> starts_with [47, 92] decodedPath then home
          else if u_pathname d = js ''/login'' \<or> u_pathname d = js ''/bootstrap'' then home
          else u_pathname d @ u_search d @ u_hash d))"

text \<open>\<open>None\<close> when \<open>encodeURIComponent\<close> throws.\<close>

definition loginRedirect ::
  "(jsstring \<Rightarrow> jsstring \<Rightarrow> url option) \<Rightarrow> jsstring \<Rightarrow> jsstring \<Rightarrow> jsstring option" where
  "loginRedirect parse origin destination = (let safe = safeRedirectTarget parse origin (Some destination) in
     if safe = home then Some (js ''/login'')
     else map_option (\<lambda>e. js ''/login?redirect='' @ e) (encode_uri safe))"

definition login_destination ::
  "(jsstring \<Rightarrow> jsstring \<Rightarrow> url option) \<Rightarrow> (jsstring \<Rightarrow> jsstring \<Rightarrow> jsstring option) \<Rightarrow> jsstring \<Rightarrow> jsstring \<Rightarrow> jsstring" where
  "login_destination parse query origin search = safeRedirectTarget parse origin (query search (js ''redirect''))"

section \<open>The application's state\<close>

record app =
  csrfToken :: "jsstring option"
  session_cached :: bool
  location :: url
  navigations :: "jsstring list"

text \<open>The handler of status 401 that the query client installs.\<close>

definition unauthorized :: "(jsstring \<Rightarrow> jsstring \<Rightarrow> url option) \<Rightarrow> app \<Rightarrow> app" where
  "unauthorized parse a = (let b = a\<lparr>csrfToken := None, session_cached := False\<rparr>; l = location a in
     if u_pathname l \<noteq> js ''/login'' \<and> u_pathname l \<noteq> js ''/bootstrap'' then
       (case loginRedirect parse (u_origin l) (u_pathname l @ u_search l @ u_hash l) of
          None \<Rightarrow> b | Some target \<Rightarrow> b\<lparr>navigations := navigations b @ [target]\<rparr>)
     else b)"

section \<open>The root layout\<close>

datatype root_view = AccessError | SessionRetry | Preparing | AccessPage | Shell

text \<open>\<open>bootstrap.data.open\<close>, and what the session query knows: success, or an error.\<close>

record root_state =
  bootstrap_open :: "bool option"
  bootstrap_error :: bool
  session_success :: bool
  session_error :: "failure option"

definition needsSession :: "root_state \<Rightarrow> jsstring \<Rightarrow> bool" where
  "needsSession r path \<longleftrightarrow> bootstrap_open r = Some False \<and> path \<noteq> js ''/login''"

definition root_decision :: "root_state \<Rightarrow> jsstring \<Rightarrow> access_decision" where
  "root_decision r path = (case bootstrap_open r of None \<Rightarrow> DecideLoading | Some opened \<Rightarrow>
     resolveAppAccess path opened
       (if needsSession r path then (case classifySessionResult (session_success r) (session_error r) of
            Authenticated \<Rightarrow> Some True | Anonymous \<Rightarrow> Some False | _ \<Rightarrow> None)
        else Some False))"

definition RootLayout :: "root_state \<Rightarrow> jsstring \<Rightarrow> root_view" where
  "RootLayout r path =
     (if bootstrap_error r then AccessError
      else if needsSession r path \<and> classifySessionResult (session_success r) (session_error r) = SessionUnavailable then SessionRetry
      else if root_decision r path \<noteq> DecideRender then Preparing
      else if path = js ''/login'' \<or> path = js ''/bootstrap'' then AccessPage else Shell)"

text \<open>The effect after a decision; \<open>None\<close> when encoding the destination throws.\<close>

definition root_effect ::
  "(jsstring \<Rightarrow> jsstring \<Rightarrow> url option) \<Rightarrow> jsstring \<Rightarrow> jsstring \<Rightarrow> jsstring \<Rightarrow> access_decision \<Rightarrow> jsstring option" where
  "root_effect parse origin path search d = (case d of
       GoBootstrap \<Rightarrow> Some (js ''/bootstrap'')
     | GoLogin \<Rightarrow> loginRedirect parse origin (path @ search)
     | GoHome \<Rightarrow> Some home
     | _ \<Rightarrow> None)"

section \<open>The shell\<close>

record shell =
  loggingOut :: bool
  shell_app :: app

text \<open>\<open>endSession\<close>: the click, and the two outcomes of the call to log out.\<close>

definition end_session :: "shell \<Rightarrow> bool \<times> shell" where
  "end_session s = (if loggingOut s then (False, s) else (True, s\<lparr>loggingOut := True\<rparr>))"

definition logged_out :: "shell \<Rightarrow> shell" where
  "logged_out s = (let a = shell_app s; l = location a; b = a\<lparr>csrfToken := None\<rparr> in
     (case encode_uri (u_pathname l @ u_search l) of
        None \<Rightarrow> s\<lparr>shell_app := b, loggingOut := False\<rparr>
      | Some e \<Rightarrow> s\<lparr>shell_app := b\<lparr>navigations := navigations b @ [js ''/login?redirect='' @ e]\<rparr>\<rparr>))"

definition logout_failed :: "shell \<Rightarrow> shell" where
  "logout_failed s = s\<lparr>loggingOut := False\<rparr>"

definition destinations :: "jsstring list" where
  "destinations = [js ''/'', js ''/history'', js ''/insights'', js ''/finance'', js ''/settings'']"

definition is_current :: "jsstring \<Rightarrow> jsstring \<Rightarrow> bool" where
  "is_current currentPath href = (if href = js ''/'' then currentPath = href else starts_with href currentPath)"

section \<open>Facts\<close>

lemma decode_prefix: "37 \<notin> set p \<Longrightarrow> starts_with p s \<Longrightarrow> starts_with p (decode_passes n s)"
proof (induction n arbitrary: s)
  case (Suc n)
  then obtain t where s: "s = p @ t" by (auto simp: starts_with_iff)
  show ?case
  proof (cases "decode_uri t")
    case None
    with Suc.prems s show ?thesis by (simp add: decode_uri_plain)
  next
    case (Some u)
    then have "decode_passes (Suc n) s = decode_passes n (p @ u)" using Suc.prems(1) by (simp add: s decode_uri_plain)
    with Suc.IH [OF Suc.prems(1), of "p @ u"] show ?thesis by simp
  qed
qed simp

text \<open>A text a browser resolves within the origin: one slash and then no slash or backslash.\<close>

definition local_path :: "jsstring \<Rightarrow> bool" where
  "local_path s \<longleftrightarrow> starts_with [47] s \<and> \<not> starts_with [47, 47] s \<and> \<not> starts_with [47, 92] s"

lemma local_path_append:
  assumes "starts_with [47] p" "\<not> starts_with [47, 47] p" "\<not> starts_with [47, 92] p"
    and "q = [] \<or> hd q \<noteq> 47 \<and> hd q \<noteq> 92"
  shows "local_path (p @ q)"
proof (cases p)
  case (Cons a r)
  with assms show ?thesis by (cases r; cases q) (auto simp: local_path_def starts_with_def)
qed (use assms in \<open>simp add: starts_with_def\<close>)

lemma decode_passes_add: "decode_passes (m + n) p = decode_passes m (decode_passes n p)"
proof (induction n arbitrary: p)
  case (Suc n)
  have "decode_passes m p = p" if "decode_uri p = None" for m
    using that by (cases m) simp_all
  with Suc.IH show ?case by (simp split: option.split)
qed simp

lemma decode_passes_early:
  assumes "n \<le> 2" "37 \<notin> set q" "\<not> starts_with q (decode_passes 2 p)"
  shows "\<not> starts_with q (decode_passes n p)"
proof
  assume "starts_with q (decode_passes n p)"
  then have "starts_with q (decode_passes (2 - n) (decode_passes n p))" by (rule decode_prefix [OF assms(2)])
  with assms(1,3) show False using decode_passes_add [of "2 - n" n p] by simp
qed

text \<open>What the URL parser promises of the parts of a URL with a host.\<close>

definition url_parts :: "url \<Rightarrow> bool" where
  "url_parts u \<longleftrightarrow> starts_with [47] (u_pathname u) \<and> (u_search u = [] \<or> hd (u_search u) = 63)
     \<and> (u_hash u = [] \<or> hd (u_hash u) = 35)"

lemma safe_target_cases:
  obtains "safeRedirectTarget parse origin c = home"
  | t u where "c = Some t" "parse t origin = Some u" "u_origin u = origin"
      "\<not> starts_with [47, 47] (decode_passes 2 (u_pathname u))" "\<not> starts_with [47, 92] (decode_passes 2 (u_pathname u))"
      "u_pathname u \<noteq> js ''/login''" "u_pathname u \<noteq> js ''/bootstrap''"
      "safeRedirectTarget parse origin c = u_pathname u @ u_search u @ u_hash u"
proof (cases "safeRedirectTarget parse origin c = home")
  case True
  then show ?thesis by (rule that(1))
next
  case False
  then obtain t where t: "c = Some t" "t \<noteq> []" by (cases c) (auto simp: safeRedirectTarget_def split: if_splits)
  with False obtain u where u: "parse t origin = Some u" by (cases "parse t origin") (auto simp: safeRedirectTarget_def)
  show ?thesis
    by (rule that(2) [OF t(1) u]) (use False t u in \<open>auto simp: safeRedirectTarget_def Let_def split: if_splits\<close>)
qed

text \<open>
  C21. No redirect names an access page or hides a host: whatever the \<open>redirect\<close> parameter holds, the
  destination is either the home page or the path, query and hash of a URL of this origin whose path
  is not one of the two access pages and does not begin with two slashes, or a slash and a
  backslash, before and after each of two rounds of percent decoding; and when that path begins with
  a slash, as that of every URL with a host does, the destination is a text with a single slash in
  front, which a browser resolves within the origin. What is assumed of the parser holds of every URL:
  a query is empty or begins with a question mark, a hash is empty or begins with a number sign. The
  one kind of URL of the origin whose path does not begin with a slash is \<open>blob:\<close>, see
  \<open>blob_target\<close>.
\<close>

theorem safe_redirect_local:
  assumes "\<forall>text u. parse text origin = Some u \<longrightarrow> (u_search u = [] \<or> hd (u_search u) = 63) \<and> (u_hash u = [] \<or> hd (u_hash u) = 35)"
  shows "safeRedirectTarget parse origin c = home
    \<or> (\<exists>text u. c = Some text \<and> parse text origin = Some u \<and> u_origin u = origin
         \<and> u_pathname u \<notin> {js ''/login'', js ''/bootstrap''}
         \<and> (\<forall>n \<le> 2. \<not> starts_with [47, 47] (decode_passes n (u_pathname u)) \<and> \<not> starts_with [47, 92] (decode_passes n (u_pathname u)))
         \<and> safeRedirectTarget parse origin c = u_pathname u @ u_search u @ u_hash u
         \<and> (starts_with [47] (u_pathname u) \<longrightarrow> local_path (safeRedirectTarget parse origin c)))"
proof (cases rule: safe_target_cases [of parse origin c])
  case 1
  then show ?thesis by simp
next
  case (2 t u)
  have out: "\<not> starts_with [47, 47] (decode_passes n (u_pathname u)) \<and> \<not> starts_with [47, 92] (decode_passes n (u_pathname u))"
    if "n \<le> 2" for n
    using that 2(4,5) by (auto dest: decode_passes_early [rotated 2])
  have "local_path (u_pathname u @ u_search u @ u_hash u)" if "starts_with [47] (u_pathname u)"
  proof -
    have "url_parts u" using assms 2(2) that by (simp add: url_parts_def)
    then show ?thesis using out [of 0] by (intro local_path_append) (auto simp: url_parts_def hd_append)
  qed
  with 2 out show ?thesis by auto
qed

text \<open>
  A parser of four kinds of text, without query and hash: a path of the origin, a text with a host, a
  \<open>blob:\<close> URL of the origin and any other, whose origin is \<open>null\<close>, as that of \<open>mailto:\<close> is.
\<close>

definition slash_parse :: "jsstring \<Rightarrow> jsstring \<Rightarrow> url option" where
  "slash_parse text origin =
     (if local_path text then Some \<lparr>u_origin = origin, u_pathname = text, u_search = [], u_hash = []\<rparr>
      else if starts_with [47] text then Some \<lparr>u_origin = js ''http:'' @ text, u_pathname = home, u_search = [], u_hash = []\<rparr>
      else if starts_with (js ''blob:'' @ origin) text then Some \<lparr>u_origin = origin, u_pathname = drop 5 text, u_search = [], u_hash = []\<rparr>
      else Some \<lparr>u_origin = js ''null'', u_pathname = text, u_search = [], u_hash = []\<rparr>)"

lemma safe_redirect_local_witness:
  "safeRedirectTarget slash_parse (js ''http://helio'') (Some (js ''//evil'')) = home
    \<and> local_path (safeRedirectTarget slash_parse (js ''http://helio'') (Some (js ''/history'')))"
proof
  let ?o = "js ''http://helio''"
  have "\<forall>text u. slash_parse text ?o = Some u \<longrightarrow> (u_search u = [] \<or> hd (u_search u) = 63) \<and> (u_hash u = [] \<or> hd (u_hash u) = 35)"
    by (auto simp: slash_parse_def split: if_splits)
  note target = safe_redirect_local [where parse = slash_parse and origin = ?o, OF this]
  have "slash_parse (js ''//evil'') ?o = Some \<lparr>u_origin = js ''http://evil'', u_pathname = home, u_search = [], u_hash = []\<rparr>"
    by (simp add: slash_parse_def local_path_def starts_with_def js_lit)
  with target [of "Some (js ''//evil'')"] show "safeRedirectTarget slash_parse ?o (Some (js ''//evil'')) = home" by (auto simp: js_inj)
  have "slash_parse (js ''/history'') ?o = Some \<lparr>u_origin = ?o, u_pathname = js ''/history'', u_search = [], u_hash = []\<rparr>"
    by (simp add: slash_parse_def local_path_def starts_with_def js_lit)
  moreover have "local_path home" "starts_with [47] (js ''/history'')" by (simp_all add: home_def local_path_def starts_with_def js_lit)
  ultimately show "local_path (safeRedirectTarget slash_parse ?o (Some (js ''/history'')))"
    using target [of "Some (js ''/history'')"] by auto
qed

text \<open>
  The path of a \<open>blob:\<close> URL is a whole URL, so the checks of the path do not see the path in it: the
  login page, which the function means to refuse, comes out.
\<close>

lemma blob_target:
  assumes "parse (js ''blob:http://helio/login'') (js ''http://helio'') =
    Some \<lparr>u_origin = js ''http://helio'', u_pathname = js ''http://helio/login'', u_search = [], u_hash = []\<rparr>"
  shows "safeRedirectTarget parse (js ''http://helio'') (Some (js ''blob:http://helio/login'')) = js ''http://helio/login''"
proof -
  have "37 \<notin> set (js ''http://helio/login'')" by (simp add: js_lit)
  then have "decode_uri (js ''http://helio/login'') = Some (js ''http://helio/login'')"
    using decode_uri_plain [of "js ''http://helio/login''" "[]"] by simp
  then have "decode_passes 2 (js ''http://helio/login'') = js ''http://helio/login''" by (simp add: numeral_2_eq_2)
  then show ?thesis using assms by (simp add: safeRedirectTarget_def Let_def starts_with_def js_lit)
qed

section \<open>Redirects settle\<close>

definition path_after :: "access_decision \<Rightarrow> jsstring \<Rightarrow> jsstring" where
  "path_after d path = (case d of GoHome \<Rightarrow> home | GoBootstrap \<Rightarrow> js ''/bootstrap'' | GoLogin \<Rightarrow> js ''/login'' | _ \<Rightarrow> path)"

text \<open>Both answers are in: whether the bootstrap is open, and whether there is a session.\<close>

definition settled :: "root_state \<Rightarrow> bool \<Rightarrow> bool \<Rightarrow> bool" where
  "settled r opened session \<longleftrightarrow> bootstrap_open r = Some opened \<and> \<not> bootstrap_error r
     \<and> classifySessionResult (session_success r) (session_error r) = (if session then Authenticated else Anonymous)"

text \<open>
  C20. Navigation settles and the shell is protected: from any path, once it is known whether the
  bootstrap is open and whether there is a session, at most two redirects lead to a page that
  renders, which is the bootstrap page while the bootstrap is open and the login page without a
  session; and in every state, also while one of the two queries is loading or has failed, the shell
  with its pages is rendered only when the bootstrap is known to be closed and the session has been
  confirmed, and never at an access page.
\<close>

theorem access_settles:
  "(settled r opened session \<longrightarrow>
      (\<exists>n \<le> 2. root_decision r (((\<lambda>p. path_after (root_decision r p) p) ^^ n) path) = DecideRender
        \<and> (opened \<longrightarrow> ((\<lambda>p. path_after (root_decision r p) p) ^^ n) path = js ''/bootstrap'')
        \<and> (\<not> opened \<and> \<not> session \<longrightarrow> ((\<lambda>p. path_after (root_decision r p) p) ^^ n) path = js ''/login'')))
    \<and> (RootLayout r p = Shell \<longrightarrow> bootstrap_open r = Some False \<and> session_success r \<and> p \<notin> {js ''/login'', js ''/bootstrap''})"
proof (intro conjI impI)
  let ?step = "\<lambda>p. path_after (root_decision r p) p"
  assume "settled r opened session"
  then have facts: "bootstrap_open r = Some opened"
    "classifySessionResult (session_success r) (session_error r) = (if session then Authenticated else Anonymous)"
    by (simp_all add: settled_def)
  have decide: "root_decision r p = resolveAppAccess p opened (Some (\<not> opened \<and> p \<noteq> js ''/login'' \<and> session))" for p
    by (simp add: root_decision_def needsSession_def facts)
  show "\<exists>n \<le> 2. root_decision r ((?step ^^ n) path) = DecideRender
      \<and> (opened \<longrightarrow> (?step ^^ n) path = js ''/bootstrap'') \<and> (\<not> opened \<and> \<not> session \<longrightarrow> (?step ^^ n) path = js ''/login'')"
    (is "\<exists>n \<le> 2. ?P n")
  proof -
    consider "?P 0" | "?P 1" | "?P 2"
      unfolding decide
      by (cases opened; cases session; cases "path = js ''/login''"; cases "path = js ''/bootstrap''")
        (auto simp: resolveAppAccess_def path_after_def home_def js_inj numeral_2_eq_2)
    then show ?thesis by cases (blast intro: le0 one_le_numeral order_refl)+
  qed
qed (auto simp: RootLayout_def root_decision_def needsSession_def resolveAppAccess_def classifySessionResult_def
    split: if_splits option.splits failure.splits)

text \<open>
  Without a session the history page leads to the login page, and while the session query is loading
  there is no shell.
\<close>

lemma access_settles_witness:
  "let r = \<lparr>bootstrap_open = Some False, bootstrap_error = False, session_success = False,
      session_error = Some (ApiFailure (plain_error 401 (js ''unauthorized'') []))\<rparr> in
   (\<exists>n \<le> 2. ((\<lambda>p. path_after (root_decision r p) p) ^^ n) (js ''/history'') = js ''/login'')
     \<and> RootLayout (r\<lparr>session_error := None\<rparr>) (js ''/history'') \<noteq> Shell"
proof -
  let ?r = "\<lparr>bootstrap_open = Some False, bootstrap_error = False, session_success = False,
      session_error = Some (ApiFailure (plain_error 401 (js ''unauthorized'') []))\<rparr>"
  have "settled ?r False False" by (simp add: settled_def classifySessionResult_def plain_error_def)
  then have "\<exists>n \<le> 2. ((\<lambda>p. path_after (root_decision ?r p) p) ^^ n) (js ''/history'') = js ''/login''"
    using access_settles [of ?r False False "js ''/history''" home] by blast
  moreover have "RootLayout (?r\<lparr>session_error := None\<rparr>) (js ''/history'') \<noteq> Shell"
    using access_settles [of "?r\<lparr>session_error := None\<rparr>" False False home "js ''/history''"] by auto
  ultimately show ?thesis unfolding Let_def by blast
qed

end
