(* ===== verification/UriCorrect.thy ===== *)
theory UriCorrect
  imports JsUri
begin

text \<open>
  Percent encoding is reversible: what \<open>encodeURIComponent\<close> writes, \<open>decodeURIComponent\<close> reads
  (\<open>decode_encode\<close>), also after further ASCII characters were escaped on the way, as the URL parser
  does with the apostrophe of a query (\<open>decode_escaped\<close>); and a text without surrogates can be
  encoded (\<open>encode_defined\<close>).
\<close>

section \<open>Digits\<close>

lemma hex_char_cases:
  "list_all (\<lambda>d. hex_val (hex_char d) = Some d \<and> (is_digit (hex_char d) \<or> is_upper (hex_char d))) [0..<16]"
  by code_simp

lemma hex_char_read:
  assumes "d < 16"
  shows "hex_val (hex_char d) = Some d" "is_digit (hex_char d) \<or> is_upper (hex_char d)"
  using hex_char_cases assms by (auto simp: list_all_iff)

abbreviation percents :: "nat list \<Rightarrow> jsstring" where
  "percents bs \<equiv> concat (map percent bs)"

section \<open>Code points\<close>

lemma read_byte_percent: "b < 256 \<Longrightarrow> read_byte (percent b @ t) = Some (b, t)"
  by (simp add: percent_def hex_char_read)

lemma read_tail_percent:
  "0x80 \<le> b \<Longrightarrow> b < 0xC0 \<Longrightarrow> read_tail (Suc n) acc (percent b @ t) = read_tail n (acc * 0x40 + (b - 0x80)) t"
  by (simp add: read_byte_percent)

lemmas read_percent = read_byte_percent read_tail_percent

lemma read_point_utf8:
  assumes "p \<le> 0x10FFFF" "\<not> (0xD800 \<le> p \<and> p \<le> 0xDFFF)"
  shows "read_point (percents (utf8 p) @ t) = Some (p, t)"
proof -
  consider (one) "p < 0x80" | (two) "0x80 \<le> p" "p < 0x800" | (three) "0x800 \<le> p" "p < 0x10000" | (four) "0x10000 \<le> p"
    by linarith
  then show ?thesis
  proof cases
    case one
    then show ?thesis by (simp add: utf8_def read_point_def read_percent)
  next
    case two
    have "read_tail 1 (p div 0x40) (percent (0x80 + p mod 0x40) @ t) = Some (p, t)"
      by (simp only: One_nat_def read_percent) (simp add: read_tail_percent)
    moreover have "p div 0x40 < 0x20" using two(2) by (simp add: less_mult_imp_div_less)
    ultimately show ?thesis using two by (simp add: utf8_def read_point_def read_byte_percent)
  next
    case three
    have "p div 0x1000 * 0x40 + p div 0x40 mod 0x40 = p div 0x40"
      using div_mult_mod_eq [of "p div 0x40" "0x40"] div_mult2_eq [of p "0x40" "0x40"] by simp
    then have "read_tail 2 (p div 0x1000) (percent (0x80 + p div 0x40 mod 0x40) @ percent (0x80 + p mod 0x40) @ t) = Some (p, t)"
      by (simp add: numeral_2_eq_2 read_tail_percent del: read_tail.simps(2))
    moreover have "p div 0x1000 < 0x10" using three(2) by (simp add: less_mult_imp_div_less)
    ultimately show ?thesis using three assms by (simp add: utf8_def read_point_def read_byte_percent)
  next
    case four
    have up: "p div 0x40000 * 0x40 + p div 0x1000 mod 0x40 = p div 0x1000" "p div 0x1000 * 0x40 + p div 0x40 mod 0x40 = p div 0x40"
      using div_mult_mod_eq [of "p div 0x40" "0x40"] div_mult_mod_eq [of "p div 0x1000" "0x40"]
        div_mult2_eq [of p "0x40" "0x40"] div_mult2_eq [of p "0x1000" "0x40"] by simp_all
    have "read_tail 3 (p div 0x40000) (percent (0x80 + p div 0x1000 mod 0x40) @ percent (0x80 + p div 0x40 mod 0x40)
        @ percent (0x80 + p mod 0x40) @ t) = Some (p, t)"
      using up by (simp add: numeral_3_eq_3 read_tail_percent del: read_tail.simps(2))
    moreover have "p div 0x40000 < 8" using assms(1) by (simp add: less_mult_imp_div_less)
    ultimately show ?thesis using four assms by (simp add: utf8_def read_point_def read_byte_percent)
  qed
qed

lemma utf8_starts: "\<exists>r. percents (utf8 p) = 37 # r"
  by (simp add: utf8_def percent_def)

lemma decode_point:
  assumes "p \<le> 0x10FFFF" "\<not> (0xD800 \<le> p \<and> p \<le> 0xDFFF)"
  shows "decode_uri (percents (utf8 p) @ t) = map_option ((@) (units_of p)) (decode_uri t)"
proof -
  obtain r where r: "percents (utf8 p) = 37 # r" using utf8_starts by blast
  with read_point_utf8 [OF assms, of t] show ?thesis by simp
qed

lemma unit_small: "unat (a :: jschar) < 65536"
  using unsigned_less [of a] by simp

lemma units_of_unat [simp]: "units_of (unat (a :: jschar)) = [a]"
  using unit_small [of a] by (simp add: units_of_def)

lemma pair_value_bounds:
  assumes "is_high a" "is_low b"
  shows "0x10000 \<le> pair_value a b" "pair_value a b \<le> 0x10FFFF"
  using assms by (auto simp: is_high_def is_low_def pair_value_def word_le_nat_alt)

lemma units_of_pair:
  assumes "is_high a" "is_low b"
  shows "units_of (pair_value a b) = [a, b]"
proof -
  define x y where "x = unat a - 0xD800" and "y = unat b - 0xDC00"
  have xy: "unat a = x + 0xD800" "unat b = y + 0xDC00" "x < 0x400" "y < 0x400"
    using assms by (auto simp: is_high_def is_low_def x_def y_def word_le_nat_alt)
  then have "(pair_value a b - 0x10000) div 0x400 + 0xD800 = unat a" "(pair_value a b - 0x10000) mod 0x400 + 0xDC00 = unat b"
    by (simp_all add: pair_value_def)
  moreover have "\<not> pair_value a b < 0x10000" using pair_value_bounds(1) [OF assms] by simp
  ultimately show ?thesis unfolding units_of_def by (simp only: if_False) simp
qed

section \<open>Escaping more\<close>

text \<open>Further characters of the text are escaped, none of them a percent sign or one of its digits.\<close>

definition escape_also :: "jschar set \<Rightarrow> jsstring \<Rightarrow> jsstring" where
  "escape_also Q e = concat (map (\<lambda>c. if c \<in> Q then percent (unat c) else [c]) e)"

definition harmless :: "jschar set \<Rightarrow> bool" where
  "harmless Q \<longleftrightarrow> Q \<subseteq> {c. unat c < 0x80 \<and> c \<noteq> 37 \<and> \<not> is_digit c \<and> \<not> is_upper c}"

lemma harmless_empty [simp]: "harmless {}"
  by (simp add: harmless_def)

lemma escape_also_simps [simp]:
  "escape_also Q [] = []" "escape_also Q (a # e) = (if a \<in> Q then percent (unat a) else [a]) @ escape_also Q e"
  "escape_also Q (d @ e) = escape_also Q d @ escape_also Q e"
  by (simp_all add: escape_also_def)

lemma escape_none [simp]: "escape_also {} e = e"
  by (simp add: escape_also_def)

lemma escape_percent: "harmless Q \<Longrightarrow> b < 256 \<Longrightarrow> escape_also Q (percent b) = percent b"
  using hex_char_read(2) [of "b div 16"] hex_char_read(2) [of "b mod 16"] less_mult_imp_div_less [of b 16 16]
  by (auto simp: percent_def harmless_def)

lemma utf8_small: "p \<le> 0x10FFFF \<Longrightarrow> b \<in> set (utf8 p) \<Longrightarrow> b < 256"
  by (auto simp: utf8_def split: if_splits)

lemma escape_percents: "harmless Q \<Longrightarrow> \<forall>b \<in> set bs. b < 256 \<Longrightarrow> escape_also Q (percents bs) = percents bs"
  by (induction bs) (simp_all add: escape_percent)

lemma decode_escaped_unit:
  assumes "harmless Q" "a \<noteq> 37"
  shows "decode_uri (escape_also Q [a] @ t) = map_option ((#) a) (decode_uri t)"
proof (cases "a \<in> Q")
  case True
  then have small: "unat a < 0x80" using assms(1) by (auto simp: harmless_def)
  then have "decode_uri (percents (utf8 (unat a)) @ t) = map_option ((@) (units_of (unat a))) (decode_uri t)" by (intro decode_point) auto
  with True small show ?thesis by (cases "decode_uri t") (simp_all add: utf8_def)
qed (use assms in simp)

lemma unreserved_not_percent: "unreserved a \<Longrightarrow> a \<noteq> 37"
  by (auto simp: unreserved_def is_digit_def is_upper_def is_lower_def)

lemma not_surrogate: "\<not> is_low a \<Longrightarrow> \<not> is_high a \<Longrightarrow> \<not> (0xD800 \<le> unat a \<and> unat a \<le> 0xDFFF)"
  by (auto simp: is_high_def is_low_def word_le_nat_alt)

lemma decode_escaped:
  assumes "harmless Q" "encode_uri s = Some e"
  shows "decode_uri (escape_also Q e) = Some s"
  using assms(2)
proof (induction s arbitrary: e rule: encode_uri.induct)
  case (2 a s)
  have point: "decode_uri (escape_also Q (percents (utf8 p)) @ t) = map_option ((@) (units_of p)) (decode_uri t)"
    if "p \<le> 0x10FFFF" "\<not> (0xD800 \<le> p \<and> p \<le> 0xDFFF)" for p t
    using decode_point [OF that] utf8_small [OF that(1)] escape_percents [OF assms(1), of "utf8 p"] by simp
  show ?case
  proof (cases "unreserved a")
    case True
    with 2 obtain d where "e = a # d" "decode_uri (escape_also Q d) = Some s" by auto
    then show ?thesis using decode_escaped_unit [OF assms(1) unreserved_not_percent [OF True], of "escape_also Q d"] by simp
  next
    case plain: False
    then have low: "\<not> is_low a" using 2 by auto
    show ?thesis
    proof (cases "is_high a")
      case False
      with 2 plain low obtain d where "e = percents (utf8 (unat a)) @ d" "decode_uri (escape_also Q d) = Some s" by auto
      moreover have "unat a \<le> 0x10FFFF" using unit_small [of a] by simp
      ultimately show ?thesis using point [of "unat a"] not_surrogate [OF low False] by simp
    next
      case True
      with 2 plain low obtain b t d where s: "s = b # t" "is_low b" "e = percents (utf8 (pair_value a b)) @ d"
        "decode_uri (escape_also Q d) = Some t" by (auto split: list.splits if_splits)
      then show ?thesis
        using point [of "pair_value a b"] pair_value_bounds [OF True s(2)] by (simp add: units_of_pair [OF True s(2)])
    qed
  qed
qed simp

lemma decode_encode: "encode_uri s = Some e \<Longrightarrow> decode_uri e = Some s"
  using decode_escaped [of "{}"] by simp

lemma encode_defined: "list_all (\<lambda>c. \<not> is_high c \<and> \<not> is_low c) s \<Longrightarrow> encode_uri s \<noteq> None"
  by (induction s rule: encode_uri.induct) auto

text \<open>What is written is plain ASCII without the separators of a query.\<close>

lemma encode_chars: "encode_uri s = Some e \<Longrightarrow> list_all (\<lambda>c. unreserved c \<or> c = 37) e"
proof (induction s arbitrary: e rule: encode_uri.induct)
  case (2 a s)
  have hexes: "list_all (\<lambda>c. unreserved c \<or> c = 37) (percents (utf8 p))" if "p \<le> 0x10FFFF" for p
  proof -
    have "list_all (\<lambda>c. unreserved c \<or> c = 37) (percent b)" if "b \<in> set (utf8 p)" for b
      using utf8_small [OF \<open>p \<le> 0x10FFFF\<close> that] hex_char_read(2) [of "b div 16"] hex_char_read(2) [of "b mod 16"]
        less_mult_imp_div_less [of b 16 16] by (auto simp: percent_def unreserved_def)
    then show ?thesis by (auto simp: list_all_iff)
  qed
  have "unat a \<le> 0x10FFFF" using unit_small [of a] by simp
  with 2 show ?case using hexes pair_value_bounds by (auto split: if_splits list.splits)
qed simp

end
