(* ===== verification/LoginReturn.thy ===== *)
theory LoginReturn
  imports AuthGate UriCorrect
begin

text \<open>
  Being sent to the login page and back. A user is sent there by status 401
  (\<open>web/src/app/query-client.ts\<close>), by the layout without a session (\<open>routes/__root.tsx\<close>) or by the end of
  the session (\<open>AppShell.tsx\<close>); the place is kept in the query of the login page's address, and
  \<open>routes/login.tsx\<close> goes there after the login. The three writers and the reader meet only in the text
  of that address, which passes through \<open>encodeURIComponent\<close>, the browser's URL parser,
  \<open>URLSearchParams\<close> and two rounds of \<open>decodeURIComponent\<close>.

  The locale \<open>browser_urls\<close> states what the code relies on of the URL parser, at an origin with a host
  (\<open>http\<close> or \<open>https\<close>), and of \<open>URLSearchParams\<close>: the parts of a URL of the origin are ASCII and begin as
  parts do, unless its path is not a list of segments (\<open>blob:\<close> URLs); what has been parsed parses to
  itself; the parser escapes the apostrophe of a query, which \<open>encodeURIComponent\<close> leaves.
\<close>

section \<open>URLs\<close>

definition place_text :: "url \<Rightarrow> jsstring" where
  "place_text u = u_pathname u @ u_search u @ u_hash u"

definition seven_bit :: "jsstring \<Rightarrow> bool" where
  "seven_bit s \<longleftrightarrow> list_all (\<lambda>c. unat c < 0x80) s"

abbreviation login_query :: jsstring where
  "login_query \<equiv> js ''?redirect=''"

locale browser_urls =
  fixes org :: jsstring
    and parse :: "jsstring \<Rightarrow> jsstring \<Rightarrow> url option"
    and query :: "jsstring \<Rightarrow> jsstring \<Rightarrow> jsstring option"
  assumes parts: "parse t org = Some u \<Longrightarrow> u_origin u = org \<Longrightarrow> starts_with [47] (u_pathname u) \<Longrightarrow>
      url_parts u \<and> seven_bit (place_text u)"
    and reparse: "parse t org = Some u \<Longrightarrow> u_origin u = org \<Longrightarrow> local_path (u_pathname u) \<Longrightarrow>
      parse (place_text u) org = Some u \<and> parse (u_pathname u @ u_search u) org = Some (u\<lparr>u_hash := []\<rparr>)"
    and login_page: "parse (js ''/login'') org = Some \<lparr>u_origin = org, u_pathname = js ''/login'', u_search = [], u_hash = []\<rparr>"
    and login_page_query: "list_all (\<lambda>c. unreserved c \<or> c = 37) e \<Longrightarrow> parse (js ''/login'' @ login_query @ e) org =
      Some \<lparr>u_origin = org, u_pathname = js ''/login'', u_search = login_query @ escape_also {39} e, u_hash = []\<rparr>"
    and query_none: "query [] name = None"
    and query_value: "list_all (\<lambda>c. unreserved c \<or> c = 37) x \<Longrightarrow> decode_uri x = Some s \<Longrightarrow>
      query (login_query @ x) (js ''redirect'') = Some s"

text \<open>Where the login page at an address goes after the login.\<close>

definition after_login ::
  "(jsstring \<Rightarrow> jsstring \<Rightarrow> url option) \<Rightarrow> (jsstring \<Rightarrow> jsstring \<Rightarrow> jsstring option) \<Rightarrow> jsstring \<Rightarrow> jsstring \<Rightarrow> jsstring option" where
  "after_login parse query org target = (case parse target org of None \<Rightarrow> None
     | Some v \<Rightarrow> if u_origin v = org \<and> u_pathname v = js ''/login'' then Some (login_destination parse query org (u_search v)) else None)"

text \<open>
  A place of the application the redirect accepts: not an access page, and a path that does not
  begin with two slashes, or a slash and a backslash, even after two rounds of decoding.
\<close>

definition safe_place :: "url \<Rightarrow> bool" where
  "safe_place u \<longleftrightarrow> starts_with [47] (u_pathname u) \<and> u_pathname u \<notin> {js ''/login'', js ''/bootstrap''}
     \<and> \<not> starts_with [47, 47] (decode_passes 2 (u_pathname u)) \<and> \<not> starts_with [47, 92] (decode_passes 2 (u_pathname u))"

section \<open>There and back\<close>

lemma harmless_apostrophe: "harmless {39}"
  by (simp add: harmless_def is_digit_def is_upper_def)

lemma seven_bit_encodes: "seven_bit s \<Longrightarrow> \<exists>e. encode_uri s = Some e"
proof -
  assume "seven_bit s"
  then have "list_all (\<lambda>c. \<not> is_high c \<and> \<not> is_low c) s"
    by (auto simp: seven_bit_def list_all_iff is_high_def is_low_def word_le_nat_alt)
  from encode_defined [OF this] show ?thesis by auto
qed

lemma escaped_chars: "list_all (\<lambda>c. unreserved c \<or> c = 37) e \<Longrightarrow> list_all (\<lambda>c. unreserved c \<or> c = 37) (escape_also {39} e)"
  by (auto simp: list_all_iff escape_also_def percent_def hex_char_def unreserved_def is_digit_def is_upper_def)

lemma safe_place_local: "safe_place u \<Longrightarrow> url_parts u \<Longrightarrow> local_path (u_pathname u)"
  using decode_passes_early [of 0 "[47, 47]" "u_pathname u"] decode_passes_early [of 0 "[47, 92]" "u_pathname u"]
  by (auto simp: safe_place_def local_path_def url_parts_def)

lemma safe_place_kept:
  assumes "parse (place_text u) org = Some u" "u_origin u = org" "safe_place u" "url_parts u"
  shows "safeRedirectTarget parse org (Some (place_text u)) = place_text u"
proof -
  have "place_text u \<noteq> []" using assms(4) by (auto simp: place_text_def url_parts_def starts_with_def)
  with assms show ?thesis by (simp add: safeRedirectTarget_def safe_place_def Let_def) (simp add: place_text_def)
qed

context browser_urls
begin

lemma encoded_returns:
  assumes "encode_uri t = Some e" "safeRedirectTarget parse org (Some t) = t"
  shows "after_login parse query org (js ''/login?redirect='' @ e) = Some t"
proof -
  have chars: "list_all (\<lambda>c. unreserved c \<or> c = 37) e" by (rule encode_chars [OF assms(1)])
  have "decode_uri (escape_also {39} e) = Some t" by (rule decode_escaped [OF harmless_apostrophe assms(1)])
  with query_value [OF escaped_chars [OF chars]]
  have "query (login_query @ escape_also {39} e) (js ''redirect'') = Some t" by blast
  moreover have "js ''/login?redirect='' = js ''/login'' @ login_query" by (simp add: js_def)
  ultimately show ?thesis using login_page_query [OF chars] assms(2) by (simp add: after_login_def login_destination_def)
qed

lemma place_returns:
  assumes "parse (place_text u) org = Some u" "u_origin u = org" "safe_place u"
  shows "\<exists>target. loginRedirect parse org (place_text u) = Some target \<and> after_login parse query org target = Some (place_text u)"
    and "\<exists>e. encode_uri (place_text u) = Some e \<and> after_login parse query org (js ''/login?redirect='' @ e) = Some (place_text u)"
proof -
  have u: "url_parts u" "seven_bit (place_text u)" using parts [OF assms(1,2)] assms(3) by (simp_all add: safe_place_def)
  have safe: "safeRedirectTarget parse org (Some (place_text u)) = place_text u" 
    using safe_place_kept [OF _ _ assms(3) u(1), of parse org] assms by blast
  obtain e where e: "encode_uri (place_text u) = Some e" using seven_bit_encodes [OF u(2)] by blast
  have returns: "after_login parse query org (js ''/login?redirect='' @ e) = Some (place_text u)" by (rule encoded_returns [OF e safe])
  with e show "\<exists>e. encode_uri (place_text u) = Some e \<and> after_login parse query org (js ''/login?redirect='' @ e) = Some (place_text u)"
    by blast
  have "after_login parse query org (js ''/login'') = Some home"
    using login_page by (simp add: after_login_def login_destination_def query_none safeRedirectTarget_def)
  with e returns safe show "\<exists>target. loginRedirect parse org (place_text u) = Some target
      \<and> after_login parse query org target = Some (place_text u)"
    by (auto simp: loginRedirect_def Let_def)
qed

end

section \<open>A parser with these laws\<close>

text \<open>
  The URL parser on the texts it only cuts: local paths of the characters it leaves alone in each part
  (but the apostrophe of a query), in which no segment begins with a dot or a percent sign, as the
  segments do that it removes. It cuts at the first number sign, then at the first question mark; for
  other texts this parser gives no result.
\<close>

definition url_char :: "jschar \<Rightarrow> bool" where
  "url_char c \<longleftrightarrow> unreserved c \<or> c \<in> {35, 36, 37, 38, 43, 44, 47, 58, 59, 61, 63, 64}"

fun undotted :: "jsstring \<Rightarrow> bool" where
  "undotted (a # b # s) \<longleftrightarrow> \<not> (a = 47 \<and> (b = 46 \<or> b = 37)) \<and> undotted (b # s)"
| "undotted s \<longleftrightarrow> True"

definition cut_url :: "jsstring \<Rightarrow> jsstring \<Rightarrow> url option" where
  "cut_url text org =
     (let h = dropWhile (\<lambda>c. c \<noteq> 35) text; s = takeWhile (\<lambda>c. c \<noteq> 35) text; p = takeWhile (\<lambda>c. c \<noteq> 63) s;
        q = dropWhile (\<lambda>c. c \<noteq> 63) s in
      if local_path text \<and> list_all url_char text \<and> undotted p
      then Some \<lparr>u_origin = org, u_pathname = p, u_search = (if q = [63] then [] else escape_also {39} q),
        u_hash = (if h = [35] then [] else h)\<rparr>
      else None)"

text \<open>The value of the first parameter, of that name: up to an ampersand, with plus signs for spaces.\<close>

definition cut_query :: "jsstring \<Rightarrow> jsstring \<Rightarrow> jsstring option" where
  "cut_query search name = (let p = 63 # name @ [61] in if starts_with p search
     then decode_uri (map (\<lambda>c. if c = 43 then 32 else c) (takeWhile (\<lambda>c. c \<noteq> 38) (drop (length p) search))) else None)"

lemma cut_parts:
  assumes "set p \<inter> {35, 63} = {}" "q = [] \<or> hd q = 63" "35 \<notin> set q" "h = [] \<or> hd h = 35"
  shows "takeWhile (\<lambda>c. c \<noteq> 35) (p @ q @ h) = p @ q" "dropWhile (\<lambda>c. c \<noteq> 35) (p @ q @ h) = h"
    "takeWhile (\<lambda>c. c \<noteq> 63) (p @ q) = p" "dropWhile (\<lambda>c. c \<noteq> 63) (p @ q) = q"
proof -
  have "\<forall>c \<in> set (p @ q). c \<noteq> 35" "\<forall>c \<in> set p. c \<noteq> 63" using assms(1,3) by auto
  then show "takeWhile (\<lambda>c. c \<noteq> 35) (p @ q @ h) = p @ q" "dropWhile (\<lambda>c. c \<noteq> 35) (p @ q @ h) = h"
    "takeWhile (\<lambda>c. c \<noteq> 63) (p @ q) = p" "dropWhile (\<lambda>c. c \<noteq> 63) (p @ q) = q"
    using assms(2,4) by (cases q; cases h; force simp: takeWhile_append2 dropWhile_append2 append_assoc [symmetric] simp del: append_assoc)+
qed

lemma cut_pieces:
  assumes "set p \<inter> {35, 63} = {}" "q = [] \<or> hd q = 63" "35 \<notin> set q" "h = [] \<or> hd h = 35" "local_path (p @ q @ h)"
    and "list_all url_char (p @ q @ h)" "undotted p"
  shows "cut_url (p @ q @ h) org = Some \<lparr>u_origin = org, u_pathname = p,
    u_search = (if q = [63] then [] else escape_also {39} q), u_hash = (if h = [35] then [] else h)\<rparr>"
  using assms(5-7) by (simp add: cut_url_def Let_def cut_parts [OF assms(1-4)])

lemma seven_bit_simps [simp]:
  "seven_bit []" "seven_bit (c # s) \<longleftrightarrow> unat c < 0x80 \<and> seven_bit s" "seven_bit (a @ b) \<longleftrightarrow> seven_bit a \<and> seven_bit b"
  by (simp_all add: seven_bit_def)

lemma url_chars_seven: "list_all url_char s \<Longrightarrow> seven_bit s"
  by (auto simp: seven_bit_def list_all_iff url_char_def unreserved_def is_digit_def is_upper_def is_lower_def word_le_nat_alt)

lemma url_chars_escape: "list_all url_char q \<Longrightarrow> list_all url_char (escape_also {39} q)"
proof (induction q)
  case (Cons c q)
  have "list_all url_char (percent 39)" by code_simp
  with Cons show ?case by simp
qed simp

lemma escape_apostrophe:
  "escape_also {39} (escape_also {39} q) = escape_also {39} q"
  "35 \<notin> set q \<Longrightarrow> 35 \<notin> set (escape_also {39} q)"
  "q = [] \<or> hd q = 63 \<Longrightarrow> escape_also {39} q = [] \<or> hd (escape_also {39} q) = 63"
  "escape_also {39} q = [63] \<longleftrightarrow> q = [63]"
proof -
  show "escape_also {39} (escape_also {39} q) = escape_also {39} q"
    by (induction q) (simp_all add: escape_percent [OF harmless_apostrophe])
  show "35 \<notin> set q \<Longrightarrow> 35 \<notin> set (escape_also {39} q)"
    by (induction q) (auto simp: percent_def hex_char_def)
  show "q = [] \<or> hd q = 63 \<Longrightarrow> escape_also {39} q = [] \<or> hd (escape_also {39} q) = 63"
    by (cases q) auto
  show "escape_also {39} q = [63] \<longleftrightarrow> q = [63]"
    by (cases q; cases "tl q") (auto simp: percent_def)
qed

lemma cut_url_cases:
  assumes "cut_url t org = Some u"
  obtains p q h where "t = p @ q @ h" "set p \<inter> {35, 63} = {}" "q = [] \<or> hd q = 63" "35 \<notin> set q" "h = [] \<or> hd h = 35"
    "local_path t" "list_all url_char t" "undotted p" "u = \<lparr>u_origin = org, u_pathname = p,
      u_search = (if q = [63] then [] else escape_also {39} q), u_hash = (if h = [35] then [] else h)\<rparr>"
proof -
  define h s where "h = dropWhile (\<lambda>c. c \<noteq> 35) t" and "s = takeWhile (\<lambda>c. c \<noteq> 35) t"
  define p q where "p = takeWhile (\<lambda>c. c \<noteq> 63) s" and "q = dropWhile (\<lambda>c. c \<noteq> 63) s"
  have t: "t = p @ q @ h" by (simp add: p_def q_def h_def s_def append_assoc [symmetric] del: append_assoc)
  have hds: "q = [] \<or> hd q = 63" "h = [] \<or> hd h = 35" 
    using hd_dropWhile [of "\<lambda>c. c \<noteq> 63" s] hd_dropWhile [of "\<lambda>c. c \<noteq> 35" t] by (auto simp: q_def h_def)
  have "\<forall>c \<in> set s. c \<noteq> 35" "\<forall>c \<in> set p. c \<noteq> 63" by (auto simp: s_def p_def dest: set_takeWhileD)
  moreover have "set p \<subseteq> set s" "set q \<subseteq> set s" by (auto simp: p_def q_def dest: set_takeWhileD set_dropWhileD)
  ultimately have out: "set p \<inter> {35, 63} = {}" "35 \<notin> set q" by auto
  have u: "local_path t" "list_all url_char t" "undotted p" "u = \<lparr>u_origin = org, u_pathname = p,
      u_search = (if q = [63] then [] else escape_also {39} q), u_hash = (if h = [35] then [] else h)\<rparr>"
    using assms unfolding cut_url_def Let_def h_def [symmetric] s_def [symmetric] p_def [symmetric] q_def [symmetric]
    by (simp_all only: option.inject option.distinct split: if_split_asm)
  show ?thesis by (rule that [OF t out(1) hds(1) out(2) hds(2) u])
qed

lemma login_chars:
  "list_all url_char [47, 108, 111, 103, 105, 110, 63, 114, 101, 100, 105, 114, 101, 99, 116, 61]"
  by code_simp

interpretation cut: browser_urls org cut_url cut_query
proof
  fix t u
  assume a: "cut_url t org = Some u" "u_origin u = org"
  from a(1) obtain p q h where t: "t = p @ q @ h" and cut: "set p \<inter> {35, 63} = {}" "q = [] \<or> hd q = 63" "35 \<notin> set q" "h = [] \<or> hd h = 35"
    and ok: "local_path t" "list_all url_char t" "undotted p" and u: "u = \<lparr>u_origin = org, u_pathname = p,
      u_search = (if q = [63] then [] else escape_also {39} q), u_hash = (if h = [35] then [] else h)\<rparr>"
    by (rule cut_url_cases)
  define q' h' where "q' = (if q = [63] then [] else escape_also {39} q)" and "h' = (if h = [35] then [] else h)"
  have u: "u = \<lparr>u_origin = org, u_pathname = p, u_search = q', u_hash = h'\<rparr>" using u by (simp add: q'_def h'_def)
  have q': "q' = [] \<or> hd q' = 63" "35 \<notin> set q'" "q' \<noteq> [63]" "escape_also {39} q' = q'"
    using cut(2,3) escape_apostrophe [of q] by (auto simp: q'_def)
  have h': "h' = [] \<or> hd h' = 35" "h' \<noteq> [35]" using cut(4) by (auto simp: h'_def)
  have chars: "list_all url_char p" "list_all url_char q'" "list_all url_char h'"
    using ok(2) url_chars_escape [of q] by (auto simp: t q'_def h'_def)
  then have seven: "seven_bit p" "seven_bit q'" "seven_bit h'" by (simp_all add: url_chars_seven)
  have "starts_with [47] p"
    using ok(1) cut(2,4) by (cases p; cases q; cases h) (auto simp: t local_path_def starts_with_def)
  then show "url_parts u \<and> seven_bit (place_text u)"
    using q' h' seven by (simp add: url_parts_def place_text_def u)
  assume "local_path (u_pathname u)"
  then have path: "local_path p" by (simp add: u)
  have again: "cut_url (p @ q' @ k) org = Some \<lparr>u_origin = org, u_pathname = p, u_search = q', u_hash = k\<rparr>"
    if k: "k = [] \<or> hd k = 35" "k \<noteq> [35]" "list_all url_char k" for k
  proof -
    have "local_path (p @ q' @ k)"
      using path q'(1) k(1) by (intro local_path_append) (auto simp: local_path_def hd_append)
    from cut_pieces [OF cut(1) q'(1,2) k(1) this] show ?thesis using chars k q'(3,4) ok(3) by simp
  qed
  show "cut_url (place_text u) org = Some u \<and> cut_url (u_pathname u @ u_search u) org = Some (u\<lparr>u_hash := []\<rparr>)"
    using again [OF h' chars(3)] again [of "[]"] by (simp add: place_text_def u)
next
  show "cut_url (js ''/login'') org = Some \<lparr>u_origin = org, u_pathname = js ''/login'', u_search = [], u_hash = []\<rparr>"
    using cut_pieces [of "js ''/login''" "[]" "[]" org] by (simp add: js_lit local_path_def starts_with_def login_chars [simplified])
next
  fix e :: jsstring
  assume e: "list_all (\<lambda>c. unreserved c \<or> c = 37) e"
  have "list_all url_char e" "35 \<notin> set e"
    using e by (auto simp: list_all_iff url_char_def unreserved_def is_digit_def is_upper_def is_lower_def word_le_nat_alt)
  with cut_pieces [of "js ''/login''" "login_query @ e" "[]" org]
  show "cut_url (js ''/login'' @ login_query @ e) org =
      Some \<lparr>u_origin = org, u_pathname = js ''/login'', u_search = login_query @ escape_also {39} e, u_hash = []\<rparr>"
    by (simp add: js_lit local_path_def starts_with_def login_chars [simplified])
next
  show "cut_query [] name = None" for name by (simp add: cut_query_def starts_with_def Let_def)
next
  fix x s :: jsstring
  assume x: "list_all (\<lambda>c. unreserved c \<or> c = 37) x" and s: "decode_uri x = Some s"
  have "\<not> unreserved 38" "\<not> unreserved 43" by code_simp+
  then have all: "\<forall>c \<in> set x. c \<noteq> 38 \<and> c \<noteq> 43" using x by (auto simp: list_all_iff)
  then have same: "takeWhile (\<lambda>c. c \<noteq> 38) x = x" by (simp add: takeWhile_eq_all_conv)
  have "map (\<lambda>c. if c = 43 then 32 else c) x = x" using all by (intro map_idI) simp
  then show "cut_query (login_query @ x) (js ''redirect'') = Some s"
    using s by (simp add: cut_query_def starts_with_def js_lit Let_def same)
qed

text \<open>
  C18. After the login the user is back where he was: at any place of the application but the login and
  bootstrap pages whose path does not look like the address of another host, as it stands or decoded
  (\<open>safe_place\<close>), status 401 drops the token and the session and leads to an address of the login
  page from which a login goes to the very same place, with its query and its hash; the layout that
  finds no session and the end of a session do so too, but lose the hash.
\<close>

theorem login_returns:
  assumes "browser_urls org parse query" "parse here_text org = Some u" "u_origin u = org" "safe_place u"
    and "location a = u" "shell_app s = a"
  shows "(\<exists>target. unauthorized parse a = a\<lparr>csrfToken := None, session_cached := False, navigations := navigations a @ [target]\<rparr>
      \<and> after_login parse query org target = Some (u_pathname u @ u_search u @ u_hash u))
    \<and> (\<exists>target. root_effect parse org (u_pathname u) (u_search u) GoLogin = Some target
      \<and> after_login parse query org target = Some (u_pathname u @ u_search u))
    \<and> (\<exists>target. shell_app (logged_out s) = a\<lparr>csrfToken := None, navigations := navigations a @ [target]\<rparr>
      \<and> after_login parse query org target = Some (u_pathname u @ u_search u))"
proof -
  have u: "url_parts u" using browser_urls.parts [OF assms(1,2,3)] assms(4) by (simp add: safe_place_def)
  have bare: "place_text (u\<lparr>u_hash := []\<rparr>) = u_pathname u @ u_search u" "safe_place (u\<lparr>u_hash := []\<rparr>)"
    using assms(4) by (simp_all add: place_text_def safe_place_def)
  have again: "parse (place_text u) org = Some u" "parse (u_pathname u @ u_search u) org = Some (u\<lparr>u_hash := []\<rparr>)"
    using browser_urls.reparse [OF assms(1,2,3) safe_place_local [OF assms(4) u]] by simp_all
  note here = browser_urls.place_returns [OF assms(1) again(1) assms(3,4)]
  have "parse (place_text (u\<lparr>u_hash := []\<rparr>)) org = Some (u\<lparr>u_hash := []\<rparr>)" "u_origin (u\<lparr>u_hash := []\<rparr>) = org"
    using again(2) bare(1) assms(3) by simp_all
  note there = browser_urls.place_returns [OF assms(1) this bare(2), unfolded bare(1)]
  obtain t1 where t1: "loginRedirect parse org (place_text u) = Some t1" "after_login parse query org t1 = Some (place_text u)"
    using here(1) by blast
  have "unauthorized parse a = a\<lparr>csrfToken := None, session_cached := False, navigations := navigations a @ [t1]\<rparr>"
    using t1(1) assms(3-5) by (simp add: unauthorized_def Let_def safe_place_def place_text_def)
  moreover obtain e where "encode_uri (u_pathname u @ u_search u) = Some e"
    "after_login parse query org (js ''/login?redirect='' @ e) = Some (u_pathname u @ u_search u)"
    using there(2) by blast
  then have "shell_app (logged_out s) = a\<lparr>csrfToken := None, navigations := navigations a @ [js ''/login?redirect='' @ e]\<rparr>
      \<and> after_login parse query org (js ''/login?redirect='' @ e) = Some (u_pathname u @ u_search u)"
    using assms(5,6) by (simp add: logged_out_def Let_def)
  ultimately show ?thesis using t1(2) there(1) unfolding place_text_def root_effect_def by auto
qed

text \<open>A page of the history, with an apostrophe in its query.\<close>

lemma login_returns_witness:
  "\<exists>target. unauthorized cut_url \<lparr>csrfToken = Some (js ''t''), session_cached = True,
      location = \<lparr>u_origin = js ''http://helio'', u_pathname = js ''/history'', u_search = 63 # js ''q='' @ percent 39, u_hash = []\<rparr>,
      navigations = []\<rparr> = \<lparr>csrfToken = None, session_cached = False,
      location = \<lparr>u_origin = js ''http://helio'', u_pathname = js ''/history'', u_search = 63 # js ''q='' @ percent 39, u_hash = []\<rparr>,
      navigations = [target]\<rparr>"
proof -
  let ?u = "\<lparr>u_origin = js ''http://helio'', u_pathname = js ''/history'', u_search = 63 # js ''q='' @ percent 39, u_hash = []\<rparr>"
  let ?a = "\<lparr>csrfToken = Some (js ''t''), session_cached = True, location = ?u, navigations = []\<rparr>"
  have u: "cut_url (js ''/history'' @ 63 # js ''q='' @ [39]) (js ''http://helio'') = Some ?u"
    using cut_pieces [of "js ''/history''" "63 # js ''q='' @ [39]" "[]" "js ''http://helio''"]
    by (simp add: js_lit local_path_def starts_with_def url_char_def unreserved_def)
  have "decode_uri (js ''/history'') = Some (js ''/history'')"
    using decode_uri_plain [of "js ''/history''" "[]"] by (simp add: js_lit)
  then have "safe_place ?u" by (simp add: safe_place_def numeral_2_eq_2 js_inj) (simp add: js_lit starts_with_def)
  from login_returns [OF cut.browser_urls_axioms u _ this, of ?a "\<lparr>loggingOut = False, shell_app = ?a\<rparr>"] show ?thesis by auto
qed

end
