(* ===== verification/Login.thy ===== *)
theory Login
  imports Forms ApiClient
begin

text \<open>
  The login form, \<open>web/src/features/auth/LoginForm.tsx\<close>, as a machine over what the user does, the
  answers of the server and the seconds of the countdown.

  \<open>remaining\<close> is the countdown after status 429, \<open>attempts\<close> the requests sent, with the name and the
  password, newest first. The interval of the countdown exists only while \<open>remaining\<close> is
  positive, so a tick at another time does nothing. A submission can come with any values: that a
  browser stops one with an empty \<open>required\<close> input only takes runs away.
\<close>

datatype login_message = NoMessage | WrongPassword | ServerFailed | OutOfReach

record login_form =
  l_username :: jsstring
  l_password :: jsstring
  remaining :: jsnum
  l_message :: login_message
  started :: bool
  attempts :: "(jsstring \<times> jsstring) list"
  token :: "jsstring option"

datatype login_event = TypeName jsstring | TypePassword jsstring | LoginSubmit | LoggedIn jsstring | LoginFailed failure | Tick

definition login_initial :: login_form where
  "login_initial = \<lparr>l_username = js ''Admin'', l_password = [], remaining = Fin 0, l_message = NoMessage,
     started = False, attempts = [], token = None\<rparr>"

definition login_submit :: "login_form \<Rightarrow> login_form" where
  "login_submit w = (let w1 = w\<lparr>l_message := NoMessage\<rparr> in
     if started w1 \<or> jlt (Fin 0) (remaining w1) then w1
     else w1\<lparr>started := True, attempts := (trim (l_username w1), l_password w1) # attempts w1\<rparr>)"

text \<open>\<open>onError\<close>, then \<open>onSettled\<close>.\<close>

definition login_error :: "failure \<Rightarrow> login_form \<Rightarrow> login_form" where
  "login_error error w = (case error of
       ApiFailure e \<Rightarrow>
         if e_status e = 429 then w\<lparr>remaining := or_else (e_retry e) (Fin 60)\<rparr>
         else if e_status e = 401 then w\<lparr>l_message := WrongPassword\<rparr>
         else if 500 \<le> e_status e then w\<lparr>l_message := ServerFailed\<rparr>
         else w\<lparr>l_message := OutOfReach\<rparr>
     | TypeFailure \<Rightarrow> w\<lparr>l_message := OutOfReach\<rparr>)\<lparr>started := False\<rparr>"

text \<open>\<open>onSuccess\<close>, then \<open>onSettled\<close>.\<close>

definition login_success :: "jsstring \<Rightarrow> login_form \<Rightarrow> login_form" where
  "login_success t w = w\<lparr>token := Some t, started := False\<rparr>"

definition tick :: "login_form \<Rightarrow> login_form" where
  "tick w = (if jle (remaining w) (Fin 0) then w else w\<lparr>remaining := jmax (Fin 0) (jsub (remaining w) (Fin 1))\<rparr>)"

text \<open>\<open>${Math.floor(remaining / 60)}:${String(remaining % 60).padStart(2, '0')}\<close>.\<close>

definition countdown :: "jsnum \<Rightarrow> jsstring" where
  "countdown r = num_text (jfloor (jdiv r (Fin 60))) @ [58] @ pad_start 2 48 (num_text (jrem r (Fin 60)))"

definition login_button :: "login_form \<Rightarrow> jsstring" where
  "login_button w = (if started w then js ''Verificando acesso'' @ [0x2026]
     else if jlt (Fin 0) (remaining w) then js ''Tente novamente em '' @ countdown (remaining w)
     else js ''Entrar no Helio'')"

fun login_step :: "login_form \<Rightarrow> login_event \<Rightarrow> login_form" where
  "login_step w (TypeName s) = w\<lparr>l_username := s\<rparr>"
| "login_step w (TypePassword s) = w\<lparr>l_password := s\<rparr>"
| "login_step w LoginSubmit = login_submit w"
| "login_step w (LoggedIn t) = (if started w then login_success t w else w)"
| "login_step w (LoginFailed error) = (if started w then login_error error w else w)"
| "login_step w Tick = tick w"

section \<open>One request at a time\<close>

definition is_answer :: "login_event \<Rightarrow> bool" where
  "is_answer e = (case e of LoggedIn _ \<Rightarrow> True | LoginFailed _ \<Rightarrow> True | _ \<Rightarrow> False)"

text \<open>Requests still allowed: at most one more than answers.\<close>

definition unanswered :: "login_form \<Rightarrow> nat" where
  "unanswered w = length (attempts w) + (if started w then 0 else 1)"

lemma login_error_simps [simp]:
  "attempts (login_error error w) = attempts w" "started (login_error error w) = False" "token (login_error error w) = token w"
  by (simp_all add: login_error_def split: failure.splits)

lemma unanswered_step: "unanswered (login_step w e) \<le> unanswered w + (if is_answer e then 1 else 0)"
  by (cases e) (auto simp: unanswered_def is_answer_def login_submit_def login_success_def tick_def Let_def)

lemma unanswered_run: "unanswered (foldl login_step w es) \<le> unanswered w + length (filter is_answer es)"
proof (induction es arbitrary: w)
  case (Cons e es)
  have "unanswered (foldl login_step w (e # es)) \<le> unanswered (login_step w e) + length (filter is_answer es)"
    using Cons.IH by simp
  with unanswered_step [of w e] show ?case by (cases "is_answer e"; simp; linarith)
qed simp

section \<open>The countdown\<close>

text \<open>While the countdown runs and no request is open, only time changes anything but the fields.\<close>

definition waiting :: "(jsstring \<times> jsstring) list \<Rightarrow> nat \<Rightarrow> login_form \<Rightarrow> bool" where
  "waiting as n w \<longleftrightarrow> remaining w = Fin (of_nat n) \<and> \<not> started w \<and> attempts w = as"

lemma tick_waiting:
  assumes "waiting as (Suc n) w" "n < 9007199254740992"
  shows "waiting as n (tick w)"
proof -
  have "jsub (Fin (of_nat (Suc n))) (Fin 1) = fl (of_nat n)" by (simp add: jsub_def)
  also have "\<dots> = Fin (of_nat n)" using assms(2) by (intro fl_nat) simp
  finally show ?thesis using assms(1) by (simp add: waiting_def tick_def del: of_nat_Suc)
qed

lemma waiting_step:
  assumes "waiting as (Suc n) w" "n < 9007199254740992"
  shows "waiting as (if e = Tick then n else Suc n) (login_step w e)"
proof (cases e)
  case Tick
  then show ?thesis using tick_waiting [OF assms] by simp
qed (use assms(1) in \<open>auto simp: waiting_def login_submit_def Let_def\<close>)

lemma waiting_run:
  assumes "waiting as n w" "n \<le> 9007199254740992" "length (filter (\<lambda>e. e = Tick) es) < n"
  shows "waiting as (n - length (filter (\<lambda>e. e = Tick) es)) (foldl login_step w es)"
  using assms
proof (induction es arbitrary: w n)
  case (Cons e es)
  then obtain m where m: "n = Suc m" by (cases n) auto
  have step: "waiting as (if e = Tick then m else Suc m) (login_step w e)"
    using waiting_step [of as m w e] Cons.prems m by simp
  show ?case
    using Cons.IH [OF step] Cons.prems m by (cases "e = Tick") simp_all
qed simp

lemma refused_waits: "started w \<Longrightarrow> e_status e = 429 \<Longrightarrow> e_retry e = Some (Fin (of_nat n)) \<Longrightarrow>
    waiting (attempts w) n (login_step w (LoginFailed (ApiFailure e)))"
  by (simp add: waiting_def) (simp add: login_error_def)

lemma login_bounded: "length (attempts (foldl login_step login_initial es)) \<le> 1 + length (filter is_answer es)"
  using unanswered_run [of login_initial es] by (simp add: unanswered_def login_initial_def split: if_splits)

text \<open>
  C17. The form never sends more than one request more than it got answers, and it respects the
  server's limit: after an answer with status 429 and a wait of \<open>n\<close> seconds, whatever the user
  does, no request is sent before \<open>n\<close> seconds have passed, the countdown shows what is left of
  them, and after the last second the next submission is sent.
\<close>

theorem login_waits:
  assumes "w = foldl login_step login_initial es" "started w"
    and "e_status e = 429" "e_retry e = Some (Fin (of_nat n))" "n \<le> 9007199254740992"
    and "w' = foldl login_step (login_step w (LoginFailed (ApiFailure e))) es'"
    and "length (filter (\<lambda>e. e = Tick) es') < n"
  shows "length (attempts w) \<le> 1 + length (filter is_answer es)
    \<and> attempts w' = attempts w
    \<and> remaining w' = Fin (of_nat (n - length (filter (\<lambda>e. e = Tick) es')))
    \<and> (Suc (length (filter (\<lambda>e. e = Tick) es')) = n \<longrightarrow>
        attempts (foldl login_step w' [Tick, LoginSubmit]) = (trim (l_username w'), l_password w') # attempts w)"
proof -
  define k where "k = length (filter (\<lambda>e. e = Tick) es')"
  have run: "waiting (attempts w) (n - k) w'"
    unfolding assms(6) k_def by (rule waiting_run [OF refused_waits [OF assms(2-4)] assms(5,7)])
  moreover have "attempts (foldl login_step w' [Tick, LoginSubmit]) = (trim (l_username w'), l_password w') # attempts w"
    if last: "Suc k = n"
  proof -
    have "waiting (attempts w) (Suc 0) w'" using run last [symmetric] by simp
    then have "waiting (attempts w) 0 (tick w')" by (rule tick_waiting) simp
    moreover have "l_username (tick w') = l_username w'" "l_password (tick w') = l_password w'" by (simp_all add: tick_def)
    ultimately show ?thesis by (simp add: waiting_def login_submit_def Let_def)
  qed
  ultimately show ?thesis using login_bounded [of es] unfolding assms(1) [symmetric] k_def [symmetric]
    by (simp add: waiting_def)
qed

lemma login_waits_witness:
  "attempts (foldl login_step login_initial
      [LoginSubmit, LoginFailed (ApiFailure \<lparr>e_code = JNull, e_status = 429, e_message = [], e_retry = Some (Fin (of_nat 2))\<rparr>),
       LoginSubmit, Tick, LoginSubmit]) = [(js ''Admin'', [])]"
proof -
  define e where "e = \<lparr>e_code = JNull, e_status = 429, e_message = [], e_retry = Some (Fin (of_nat 2))\<rparr>"
  have name: "trim (js ''Admin'') = js ''Admin''" by code_simp
  have "started (foldl login_step login_initial [LoginSubmit])"
    "attempts (foldl login_step login_initial [LoginSubmit]) = [(js ''Admin'', [])]"
    by (simp_all add: login_initial_def login_submit_def Let_def name)
  then show ?thesis
    using login_waits [of "foldl login_step login_initial [LoginSubmit]" "[LoginSubmit]" e 2
      "foldl login_step login_initial [LoginSubmit, LoginFailed (ApiFailure e), LoginSubmit, Tick, LoginSubmit]"
      "[LoginSubmit, Tick, LoginSubmit]"]
    unfolding e_def by simp
qed

end
