(* ===== verification/ShellView.thy ===== *)
theory ShellView
  imports LoginReturn Login Theme Live WizardView
begin

text \<open>
  The frame of the application as markup: the menu of the theme
  (\<open>web/src/components/layout/ThemeToggle.tsx\<close>), the badge of the connection (\<open>ConnectionBadge.tsx\<close>), the
  navigation (\<open>PrimaryNav.tsx\<close>), the shell (\<open>AppShell.tsx\<close>), the page without a session check
  (\<open>SessionUnavailable.tsx\<close>), what the root layout renders (\<open>routes/__root.tsx\<close>), and the access pages
  (\<open>routes/login.tsx\<close>, \<open>routes/bootstrap.tsx\<close>) with the login form (\<open>features/auth/LoginForm.tsx\<close>).

  What the theory shows: the menu always has one option in the tab order, the one that holds the focus,
  and marks the theme of the provider (\<open>theme_menu\<close>); the button of the login form is disabled exactly
  when a submission would send nothing (\<open>login_page\<close>); the shell is well formed around a well-formed page
  and marks one destination (\<open>shell_page_ok\<close>, \<open>one_current\<close>).

  Parameters: \<open>ev\<close> turns the events of a part into those of the page around it; \<open>writes\<close> tells whether
  the browser's storage accepts a value.
\<close>

section \<open>The menu of the theme\<close>

definition choice_label :: "theme_choice \<Rightarrow> jsstring" where
  "choice_label c = (case c of System \<Rightarrow> js ''Sistema'' | Light \<Rightarrow> js ''Claro'' | Dark \<Rightarrow> js ''Escuro'')"

definition key_of :: "jsstring \<Rightarrow> menu_key" where
  "key_of k = (if k = js ''ArrowDown'' then ArrowDown else if k = js ''ArrowUp'' then ArrowUp else if k = js ''Home'' then Home
     else if k = js ''End'' then End else if k = js ''Escape'' then Escape else OtherKey)"

definition trigger_label :: "provider \<Rightarrow> jsstring" where
  "trigger_label p = js ''Tema: '' @ (if theme p = System then js ''sistema'' else if resolvedTheme p = DarkTheme then js ''escuro'' else js ''claro'')"

definition theme_option :: "(menu_event \<Rightarrow> 'e) \<Rightarrow> bool \<Rightarrow> provider \<Rightarrow> menu \<Rightarrow> nat \<Rightarrow> 'e node" where
  "theme_option ev writes p m i = El Button
     [(AriaChecked, bool_text (theme p = choices ! i)), (Role, js ''menuitemradio''),
      (TabIndex, if focusIndex m = int i then js ''0'' else js ''-1''), (Type, js ''button'')]
     [(OnClick, \<lambda>_. ev (OptionClick i writes))]
     ([El Span [] [] [Txt (choice_label (choices ! i))]] @ only_if (theme p = choices ! i) [icon])"

definition ThemeToggle :: "(menu_event \<Rightarrow> 'e) \<Rightarrow> bool \<Rightarrow> provider \<Rightarrow> menu \<Rightarrow> 'e node" where
  "ThemeToggle ev writes p m = El Div [] []
     ([El Button [(Expanded, bool_text (open_menu m)), (HasPopup, js ''menu''), (AriaLabel, trigger_label p), (Type, js ''button'')]
        [(OnClick, \<lambda>_. ev TriggerClick)] [icon]]
      @ only_if (open_menu m) [El Div [(AriaLabel, js ''Escolher tema''), (Role, js ''menu'')]
          [(OnKeyDown, \<lambda>k. ev (MenuKey (key_of k)))] (map (theme_option ev writes p m) [0..<length choices])])"

section \<open>The frame\<close>

definition ConnectionBadge :: "jsstring option \<Rightarrow> connection_state \<Rightarrow> 'e node" where
  "ConnectionBadge announced c = El Span [(AriaLabel, connectionLabels c), (Role, js ''status'')] []
     ([icon, Txt (connectionLabels c)]
      @ (case announced of None \<Rightarrow> [] | Some t \<Rightarrow> only_if (t \<noteq> [])
          [El Span [(Atomic, js ''true''), (LiveRegion, js ''polite'')] [] [Txt t]]))"

definition nav_label :: "jsstring \<Rightarrow> jsstring" where
  "nav_label href = or_else (map_of [(js ''/'', js ''Agora''), (js ''/history'', jsx ''Hist&oacute;rico''), (js ''/insights'', js ''Insights''),
     (js ''/finance'', js ''Financeiro''), (js ''/settings'', jsx ''Configura&ccedil;&otilde;es'')] href) []"

definition nav_link :: "jsstring \<Rightarrow> jsstring \<Rightarrow> 'e node" where
  "nav_link currentPath href = El Link (only_if (is_current currentPath href) [(Current, js ''page'')] @ [(Href, href)]) []
     [icon, El Span [] [] [Txt (nav_label href)]]"

definition PrimaryNav :: "jsstring \<Rightarrow> 'e node" where
  "PrimaryNav currentPath = El Nav [(AriaLabel, js ''Principal'')] [] (map (nav_link currentPath) destinations)"

datatype 'e frame_event = ThemeMenu menu_event | EndSession | RetrySession | InPage 'e

primrec in_page :: "'e node \<Rightarrow> 'e frame_event node" where
  "in_page (Txt s) = Txt s"
| "in_page (El t as hs ns) = El t as (map (\<lambda>(h, f). (h, \<lambda>s. InPage (f s))) hs) (map in_page ns)"

definition AppShell :: "bool \<Rightarrow> provider \<Rightarrow> menu \<Rightarrow> shell \<Rightarrow> jsstring option \<Rightarrow> connection_state \<Rightarrow> jsstring \<Rightarrow> 'e frame_event node list
    \<Rightarrow> 'e frame_event node" where
  "AppShell writes p m s announced c currentPath children = El Div [] []
     [El Link [(Href, js ''#conteudo'')] [] [Txt (jsx ''Pular para o conte&uacute;do'')],
      El Header [] []
        [El Link [(AriaLabel, jsx ''Helio &mdash; in&iacute;cio''), (Href, js ''/'')] []
           [El Span [] [] [Txt (jsx ''H&eacute;lio'')], El Small [] [] [Txt (jsx ''observat&oacute;rio solar'')]],
         El Div [] []
           [ConnectionBadge announced c, ThemeToggle ThemeMenu writes p m,
            El Button ([(AriaLabel, js ''Sair do Helio'')] @ only_if (loggingOut s) [(Disabled, [])] @ [(Type, js ''button'')])
              [(OnClick, \<lambda>_. EndSession)] [icon]]],
      El Div [] [] [PrimaryNav currentPath, El MainPart [(Id, js ''conteudo''), (TabIndex, js ''-1'')] [] children]]"

definition SessionUnavailablePage :: "'e frame_event node" where
  "SessionUnavailablePage = El MainPart [] [] [El Div [] []
     [El Paragraph [] [] [Txt (jsx ''N&atilde;o foi poss&iacute;vel verificar sua sess&atilde;o.'')],
      El Button [(Type, js ''button'')] [(OnClick, \<lambda>_. RetrySession)] [Txt (js ''Tentar novamente'')]]]"

text \<open>The connection of the live page is shown in its own shell only.\<close>

definition shell_status :: "jsstring \<Rightarrow> shared_status \<Rightarrow> jsstring option \<times> connection_state" where
  "shell_status path sh = (if path = js ''/'' then (Some (announcement sh), shared_connection sh) else (None, Unavailable))"

definition RootPage :: "bool \<Rightarrow> provider \<Rightarrow> menu \<Rightarrow> shell \<Rightarrow> shared_status \<Rightarrow> root_state \<Rightarrow> jsstring \<Rightarrow> 'e node \<Rightarrow> 'e frame_event node" where
  "RootPage writes p m s sh r path outlet = (case RootLayout r path of
       AccessError \<Rightarrow> El MainPart [] [] [Txt (jsx ''N&atilde;o foi poss&iacute;vel verificar o acesso ao Helio.'')]
     | SessionRetry \<Rightarrow> SessionUnavailablePage
     | Preparing \<Rightarrow> El MainPart [(Busy, js ''true'')] [] [Txt (jsx ''Preparando o Helio&hellip;'')]
     | AccessPage \<Rightarrow> in_page outlet
     | Shell \<Rightarrow> (case shell_status path sh of (announced, c) \<Rightarrow> AppShell writes p m s announced c path [in_page outlet]))"

section \<open>The access pages\<close>

definition AccessPageView :: "jsstring \<Rightarrow> jsstring \<Rightarrow> 'e node list \<Rightarrow> 'e node" where
  "AccessPageView kicker note children = El MainPart [(Id, js ''main-content'')] []
     [El Aside [(AriaLabel, js ''Helio'')] []
        [El Link [(Href, js ''/'')] [] [Txt (js ''Helio''), El Span [] [] [Txt (js ''monitor solar local'')]],
         El Div [] [] [El Paragraph [] [] [Txt kicker], El Strong [] [] [Txt note]],
         El Small [] [] [Txt (jsx ''Da sua instala&ccedil;&atilde;o para a sua tela.'')]],
      El Section [] [] children]"

primrec login_text :: "login_message \<Rightarrow> jsstring" where
  "login_text NoMessage = []"
| "login_text WrongPassword = jsx ''Usu&aacute;rio ou senha n&atilde;o conferem. Verifique os dados e tente novamente.''"
| "login_text ServerFailed = jsx ''O servidor Helio n&atilde;o conseguiu concluir o login. Aguarde um instante e tente novamente.''"
| "login_text OutOfReach = jsx ''N&atilde;o foi poss&iacute;vel alcan&ccedil;ar o Helio. Verifique a conex&atilde;o de rede e tente novamente.''"

definition login_field :: "jsstring \<Rightarrow> jsstring \<Rightarrow> (attr \<times> jsstring) list \<Rightarrow> jsstring \<Rightarrow> (jsstring \<Rightarrow> 'e) \<Rightarrow> 'e node" where
  "login_field i label extra v change = El Div [] []
     [El Label [(For, i)] [] [Txt label], El Div [] [] [El Input ([(Id, i), (Value, v)] @ extra) [(OnChange, change)] []]]"

definition LoginForm :: "login_form \<Rightarrow> login_event node" where
  "LoginForm w = El Form [] [(OnSubmit, \<lambda>_. LoginSubmit)]
     [El Div [] [] [El Paragraph [] [] [Txt (jsx ''&Aacute;rea protegida'')], El Heading [] [] [Txt (js ''Entre no seu Helio'')],
        El Paragraph [] [] [Txt (jsx ''Sua produ&ccedil;&atilde;o solar continua privada, dentro da sua rede.'')]],
      El Div [] []
        ([login_field (js ''login-username'') (jsx ''Usu&aacute;rio'') [] (l_username w) TypeName,
          login_field (js ''login-password'') (js ''Senha'') [(Required, []), (Type, js ''password'')] (l_password w) TypePassword,
          El Paragraph [] [] [icon, Txt (jsx '' Conex&atilde;o local sem HTTPS: n&atilde;o reutilize uma senha importante.'')]]
         @ only_if (jlt (Fin 0) (remaining w))
            [El Paragraph [(LiveRegion, js ''polite''), (Role, js ''status'')] []
               [Txt (js ''Muitas tentativas. Aguarde antes de tentar novamente.'')],
             El Paragraph [(Hidden, js ''true'')] [] [Txt (js ''Muitas tentativas. Tente novamente em '' @ countdown (remaining w) @ js ''.'')]]
         @ only_if (login_text (l_message w) \<noteq> [])
            [El Paragraph [(LiveRegion, js ''assertive''), (Role, js ''alert'')] [] [Txt (login_text (l_message w))]]
         @ [El Button (only_if (started w \<or> jlt (Fin 0) (remaining w)) [(Disabled, [])] @ [(Type, js ''submit'')]) []
              [Txt (login_button w)]])]"

definition LoginRoute :: "login_form \<Rightarrow> login_event node" where
  "LoginRoute w = AccessPageView (jsx ''Privado por princ&iacute;pio'') (jsx ''Dados solares no seu espa&ccedil;o, sem depender da nuvem.'') [LoginForm w]"

definition BootstrapRoute :: "locale_env \<Rightarrow> (jsnum \<Rightarrow> jsstring) \<Rightarrow> wizard \<Rightarrow> wizard_event node" where
  "BootstrapRoute env kwp w = AccessPageView (js ''Comece pela luz'')
     (jsx ''Cinco passos para transformar sinais do inversor em uma leitura clara da sua casa.'') [OnboardingWizard env kwp w]"

section \<open>The menu and its page\<close>

text \<open>The options of the menu on the page.\<close>

definition options_of :: "'e node \<Rightarrow> 'e node list" where
  "options_of n = filter (\<lambda>e. attr_of Role e = Some (js ''menuitemradio'')) (elements n)"

lemma options_menu: "options_of (ThemeToggle ev writes p m) = (if open_menu m then map (theme_option ev writes p m) [0, 1, 2] else [])"
  by (simp add: options_of_def ThemeToggle_def theme_option_def choices_def icon_def js_inj numeral_2_eq_2 numeral_3_eq_3 only_if_def)

text \<open>
  C23. The menu of the theme can be used with the keyboard and tells the truth: after any clicks, keys,
  movements of the focus and changes of the theme, an open menu has three options, of which exactly the
  one with the index that is kept is in the tab order, no other can hold the focus, and exactly the one
  of the provider's theme is marked as checked; choosing an option gives the provider that theme, puts it
  on the document, closes the menu and returns the focus to its button. A closed menu has no options and
  no focus.
\<close>

theorem theme_menu:
  assumes "(p, m) = foldl menu_step (ThemeProvider st dark, menu_initial (theme (ThemeProvider st dark))) events"
    and "options = options_of (ThemeToggle ev writes p m)"
  shows "if \<not> open_menu m then options = [] \<and> focused m = -1
    else length options = 3 \<and> (focused m = -1 \<or> focused m = focusIndex m) \<and> 0 \<le> focusIndex m \<and> focusIndex m < 3
      \<and> (\<forall>i < 3. (attr_of TabIndex (options ! i) = Some (js ''0'')) = (int i = focusIndex m)
          \<and> (attr_of AriaChecked (options ! i) = Some (js ''true'')) = (choices ! i = theme p)
          \<and> (let (p', m') = menu_step (p, m) (OptionClick i writes) in
               theme p' = choices ! i \<and> dataset p' = resolve (prefers_dark p) (choices ! i)
               \<and> \<not> open_menu m' \<and> trigger_focused m'))"
proof -
  have "theme_ok (fst (p, m)) \<and> menu_ok (snd (p, m))" unfolding assms(1)
    by (rule menu.run_inv) (simp add: theme_ok_initial menu_ok_initial)
  then have ok: "theme_ok p" "menu_ok m" by simp_all
  have chosen: "theme (setTheme c writes p) = c" "dataset (setTheme c writes p) = resolve (prefers_dark p) c" for c
    using ok(1) by (auto simp: setTheme_def theme_ok_def Let_def)
  have three: "i < 3 \<Longrightarrow> i = 0 \<or> i = 1 \<or> i = 2" for i :: nat by linarith
  show ?thesis
  proof (cases "open_menu m")
    case True
    then have opts: "options = map (theme_option ev writes p m) [0, 1, 2]" by (simp add: assms(2) options_menu)
    have "options ! i = theme_option ev writes p m i" if "i < 3" for i using three [OF that] by (auto simp: opts)
    with True ok(2) opts chosen show ?thesis
      by (auto simp: menu_ok_def theme_option_def bool_text_def js_inj choices_def choose_theme_def closeAndRestoreFocus_def)
  qed (use ok(2) in \<open>simp add: assms(2) options_menu menu_ok_def\<close>)
qed

lemma theme_menu_witness:
  "length (options_of (ThemeToggle id True (ThemeProvider Missing False) (snd (menu_step (ThemeProvider Missing False, menu_initial System) TriggerClick)))) = 3"
proof -
  let ?p = "ThemeProvider Missing False" and ?m = "snd (menu_step (ThemeProvider Missing False, menu_initial System) TriggerClick)"
  have "theme ?p = System" by code_simp
  then have run: "(?p, ?m) = foldl menu_step (?p, menu_initial (theme ?p)) [TriggerClick]" and "open_menu ?m"
    by (simp_all add: toggle_menu_def menu_initial_def open_effect_def Let_def)
  with theme_menu [OF run refl, where ev = id and writes = True] show ?thesis by simp
qed

section \<open>The shell around a page\<close>

lemma in_page_attr [simp]: "attr_of a (in_page n) = attr_of a n" "tag_of (in_page n) = tag_of n"
  by (cases n; simp)+

lemma in_page_listed [simp]: "listed a (in_page n) = listed a n"
  by (simp add: listed_def)

lemma map_concat_cong: "(\<And>n. n \<in> set ns \<Longrightarrow> f (g n) = h n) \<Longrightarrow> concat (map (f \<circ> g) ns) = concat (map h ns)"
  by (metis (mono_tags, lifting) comp_apply map_cong)

lemma in_page_queries [simp]: "ids (in_page n) = ids n" "references (in_page n) = references n" "labels_for (in_page n) = labels_for n"
proof (induction n)
  case (El t as hs ns)
  { case 1 show ?case using El(1) map_concat_cong [of ns ids in_page ids] by simp }
  { case 2 show ?case using El(2) map_concat_cong [of ns references in_page references] by (simp add: listed_simps) }
  { case 3 show ?case using El(3) map_concat_cong [of ns labels_for in_page labels_for] by (simp add: listed_simps) }
qed simp_all

lemma in_page_named [simp]: "inputs_named ls inside (in_page n) = inputs_named ls inside n"
  by (induction n arbitrary: inside) (simp_all add: list_all_iff)

lemma theme_ids [simp]: "ids (ThemeToggle ev writes p m) = []" "references (ThemeToggle ev writes p m) = []"
  "labels_for (ThemeToggle ev writes p m) = []" "inputs_named ls inside (ThemeToggle ev writes p m)"
  by (simp_all add: ThemeToggle_def theme_option_def choices_def icon_def listed_simps only_if_def)

lemma badge_ids [simp]: "ids (ConnectionBadge t c) = []" "references (ConnectionBadge t c) = []"
  "labels_for (ConnectionBadge t c) = []" "inputs_named ls inside (ConnectionBadge t c)"
  by (cases t; simp add: ConnectionBadge_def icon_def listed_simps only_if_def)+

lemma nav_ids [simp]: "ids (PrimaryNav path) = []" "references (PrimaryNav path) = []"
  "labels_for (PrimaryNav path) = []" "inputs_named ls inside (PrimaryNav path)"
  by (simp_all add: PrimaryNav_def nav_link_def destinations_def icon_def listed_simps only_if_def)

text \<open>The shell adds one identifier, the target of its first link.\<close>

lemma shell_page_ok:
  assumes "page_ok n" "js ''conteudo'' \<notin> set (ids n)"
  shows "page_ok (AppShell writes p m s announced c path [in_page n])"
proof -
  have "labels_for (AppShell writes p m s announced c path [in_page n]) = labels_for n"
    by (simp add: AppShell_def icon_def listed_simps only_if_def)
  then have "inputs_named (labels_for (AppShell writes p m s announced c path [in_page n])) False (AppShell writes p m s announced c path [in_page n])"
    using assms(1) by (simp add: AppShell_def icon_def page_ok_def only_if_def)
  with assms show ?thesis by (auto simp: AppShell_def icon_def page_ok_def listed_simps only_if_def)
qed

text \<open>The navigation marks the destination of the page, and no other.\<close>

lemma one_current:
  assumes "path \<in> set destinations"
  shows "filter (\<lambda>e. attr_of Current e \<noteq> None) (elements (PrimaryNav path)) = [nav_link path path]"
proof -
  have "path = js ''/'' \<or> path = js ''/history'' \<or> path = js ''/insights'' \<or> path = js ''/finance'' \<or> path = js ''/settings''"
    using assms by (simp add: destinations_def)
  then show ?thesis
    by (elim disjE) (simp_all add: PrimaryNav_def nav_link_def destinations_def is_current_def js_inj starts_with_def icon_def js_lit)
qed

section \<open>The login page\<close>

lemma login_ids: "ids (LoginRoute w) = [js ''main-content'', js ''login-username'', js ''login-password'']"
  by (cases "jlt (Fin 0) (remaining w)"; cases "login_text (l_message w) = []"; cases "started w")
    (simp_all add: LoginRoute_def AccessPageView_def LoginForm_def login_field_def icon_def)

lemma js_words: "tokens (js ''login-username'') = [js ''login-username'']" "tokens (js ''login-password'') = [js ''login-password'']"
  by (simp_all add: tokens_word js_def of_char_blank)

lemma login_page_ok: "page_ok (LoginRoute w)"
proof -
  have labels: "labels_for (LoginRoute w) = [js ''login-username'', js ''login-password'']"
    by (cases "jlt (Fin 0) (remaining w)"; cases "login_text (l_message w) = []"; cases "started w")
      (simp_all add: LoginRoute_def AccessPageView_def LoginForm_def login_field_def icon_def listed_simps js_words)
  have "set (references (LoginRoute w)) \<subseteq> set (ids (LoginRoute w))"
    unfolding login_ids
    by (cases "jlt (Fin 0) (remaining w)"; cases "login_text (l_message w) = []"; cases "started w")
      (simp_all add: LoginRoute_def AccessPageView_def LoginForm_def login_field_def icon_def listed_simps js_words)
  moreover have "inputs_named (labels_for (LoginRoute w)) False (LoginRoute w)"
    unfolding labels
    by (cases "jlt (Fin 0) (remaining w)"; cases "login_text (l_message w) = []")
      (simp_all add: LoginRoute_def AccessPageView_def LoginForm_def login_field_def icon_def)
  ultimately show ?thesis by (simp add: page_ok_def login_ids js_inj)
qed

lemma login_text_none: "login_text k = [] \<longleftrightarrow> k = NoMessage"
  by (cases k) (simp_all add: jsx.simps)

lemmas login_markup = LoginRoute_def AccessPageView_def LoginForm_def login_field_def icon_def only_if_def

lemma sends_nothing: "attempts (login_step w LoginSubmit) = attempts w \<longleftrightarrow> started w \<or> jlt (Fin 0) (remaining w)"
  by (simp add: login_submit_def Let_def)

text \<open>
  C19. The login page does not lie about what it will do: in every state its only submit button is disabled
  exactly when a submission would send no request; the wait after too many attempts and the reason of a
  refusal are on the page, as a status and as an alert, and only then; both fields are on the page with
  their values, found by their labels, and typing into one changes its value and nothing else. The page is
  well formed.
\<close>

theorem login_page:
  assumes "page = LoginRoute w"
  shows "page_ok page
    \<and> (\<exists>b. filter (\<lambda>e. attr_of Type e = Some (js ''submit'')) (elements page) = [b] \<and> text_content b = login_button w
         \<and> (attr_of Disabled b \<noteq> None) = (attempts (login_step w LoginSubmit) = attempts w))
    \<and> (list_ex (\<lambda>e. attr_of Role e = Some (js ''status'')) (elements page) = jlt (Fin 0) (remaining w))
    \<and> map text_content (filter (\<lambda>e. attr_of Role e = Some (js ''alert'')) (elements page))
        = (if l_message w = NoMessage then [] else [login_text (l_message w)])
    \<and> (\<exists>e f. get_by_id (js ''login-username'') page = Some e \<and> attr_of Value e = Some (l_username w)
         \<and> hook_of OnChange e = Some f \<and> (\<forall>s. login_step w (f s) = w\<lparr>l_username := s\<rparr>))
    \<and> (\<exists>e f. get_by_id (js ''login-password'') page = Some e \<and> attr_of Value e = Some (l_password w)
         \<and> hook_of OnChange e = Some f \<and> (\<forall>s. login_step w (f s) = w\<lparr>l_password := s\<rparr>))"
proof -
  have ids: "distinct (ids page)" using login_page_ok [of w] by (simp add: assms page_ok_def)
  have submit: "filter (\<lambda>e. attr_of Type e = Some (js ''submit'')) (elements page) =
      [El Button (only_if (started w \<or> jlt (Fin 0) (remaining w)) [(Disabled, [])] @ [(Type, js ''submit'')]) [] [Txt (login_button w)]]"
    by (simp add: assms login_markup js_inj)
  have wait: "list_ex (\<lambda>e. attr_of Role e = Some (js ''status'')) (elements page) = jlt (Fin 0) (remaining w)"
    by (simp add: assms login_markup js_inj)
  have alert: "map text_content (filter (\<lambda>e. attr_of Role e = Some (js ''alert'')) (elements page))
      = (if l_message w = NoMessage then [] else [login_text (l_message w)])"
    by (simp add: assms login_markup js_inj login_text_none)
  have fields: "\<exists>e \<in> set (elements page). attr_of Id e = Some (js ''login-username'') \<and> attr_of Value e = Some (l_username w)
      \<and> hook_of OnChange e = Some TypeName"
    "\<exists>e \<in> set (elements page). attr_of Id e = Some (js ''login-password'') \<and> attr_of Value e = Some (l_password w)
      \<and> hook_of OnChange e = Some TypePassword"
    by (simp_all add: assms login_markup js_inj)
  from fields(1) obtain e where name: "get_by_id (js ''login-username'') page = Some e" "attr_of Value e = Some (l_username w)"
    "hook_of OnChange e = Some TypeName" using get_by_id_found [OF ids] by blast
  from fields(2) obtain e' where pass: "get_by_id (js ''login-password'') page = Some e'" "attr_of Value e' = Some (l_password w)"
    "hook_of OnChange e' = Some TypePassword" using get_by_id_found [OF ids] by blast
  have "page_ok page" by (simp add: assms login_page_ok)
  moreover have "\<exists>b. filter (\<lambda>e. attr_of Type e = Some (js ''submit'')) (elements page) = [b] \<and> text_content b = login_button w
      \<and> (attr_of Disabled b \<noteq> None) = (attempts (login_step w LoginSubmit) = attempts w)"
    unfolding submit sends_nothing by (auto simp: only_if_def)
  ultimately show ?thesis using wait alert name pass by simp
qed

lemma login_page_witness: "page_ok (LoginRoute login_initial)"
  using login_page [of _ login_initial, OF refl] by simp

end
