(* ===== verification/NowView.thy ===== *)
theory NowView
  imports Display Markup
begin

text \<open>
  The live page as markup, \<open>web/src/features/live\<close>: \<open>NowPage.tsx\<close> with \<open>HeroPower.tsx\<close>,
  \<open>MetricStrip.tsx\<close>, \<open>PVFlow.tsx\<close>, \<open>HealthPanel.tsx\<close> and \<open>WeatherContext.tsx\<close>, over the state of the
  telemetry (\<open>Live\<close>).

  What the theory shows (\<open>now_page_shows\<close>): the page is well formed in every state; it shows the power
  of the snapshot the telemetry holds, and no power, not even zero, when it holds none; it reports a
  fault exactly when the inverter does; and it shows readings of the weather only while the server
  calls them available.

  Parameters: the formats of \<open>Intl\<close> (\<open>live_formats\<close>, \<open>digits\<close>, \<open>show_time\<close>), \<open>dparse\<close> (\<open>Date.parse\<close>) and
  \<open>now\<close>, the clock.
\<close>

section \<open>Readings of a snapshot\<close>

definition reading :: "jsval \<Rightarrow> jsnum" where
  "reading v = (case v of JNum n \<Rightarrow> n | _ \<Rightarrow> NaN)"

definition channel_of :: "jsval \<Rightarrow> channel" where
  "channel_of v = \<lparr>ch_active = (get v (js ''active'') = JBool True), currentA = reading (get v (js ''currentA'')),
     channelPowerW = reading (get v (js ''powerW'')), voltageV = reading (get v (js ''voltageV''))\<rparr>"

definition grid_reading :: "string \<Rightarrow> live_snapshot \<Rightarrow> jsnum" where
  "grid_reading k s = reading (get (get (snap_value s) (js ''grid'')) (js k))"

definition sign :: "'e node" where
  "sign = El Icon [(Hidden, js ''true'')] [] []"

section \<open>The cards\<close>

definition definition_pair :: "jsstring \<Rightarrow> jsstring \<Rightarrow> 'e node" where
  "definition_pair t d = El Div [] [] [El Term [] [] [Txt t], El Description [] [] [Txt d]]"

definition HeroPower :: "live_formats \<Rightarrow> (jsstring \<Rightarrow> jsstring) \<Rightarrow> live_snapshot \<Rightarrow> jsstring option \<Rightarrow> 'e node" where
  "HeroPower F show_time s updatedAt = El Section [(LabelledBy, js ''power-now'')] []
     [El Div [] [] [El Paragraph [] [] [Txt (statusLabel (snap_status s))], El Paragraph [] [] [Txt (hero_time show_time updatedAt)]],
      El Div [] [] [El Paragraph [] [] [Txt (jsx ''Pot&ecirc;ncia agora'')], El Heading [(Id, js ''power-now'')] [] [Txt (formatPower F (acPowerW s))]],
      El DescriptionList [] []
        [definition_pair (js ''Gerado hoje'') (formatWattHours F (reading (get (snap_value s) (js ''energyTodayWh'')))),
         definition_pair (jsx ''Desde a instala&ccedil;&atilde;o'') (formatWattHours F (reading (get (snap_value s) (js ''energyLifetimeWh''))))]]"

definition MetricStripView :: "(nat \<Rightarrow> jsnum \<Rightarrow> jsstring) \<Rightarrow> live_snapshot \<Rightarrow> 'e node" where
  "MetricStripView digits s = El DescriptionList [(AriaLabel, jsx ''Leituras el&eacute;tricas'')] []
     (map (\<lambda>(t, d). definition_pair t d)
       (MetricStrip digits (channel_of (get (snap_value s) (js ''pv1''))) (grid_reading ''voltageV'' s) (grid_reading ''frequencyHz'' s)))"

definition flow_pair :: "jsstring \<Rightarrow> jsstring \<Rightarrow> 'e node" where
  "flow_pair t d = El Div [] [] [El Span [] [] [Txt t], El Strong [] [] [Txt d]]"

definition PVFlowView :: "live_formats \<Rightarrow> (nat \<Rightarrow> jsnum \<Rightarrow> jsstring) \<Rightarrow> live_snapshot \<Rightarrow> settings option \<Rightarrow> 'e node" where
  "PVFlowView F digits s conf = (let f = PVFlow F digits (channel_of (get (snap_value s) (js ''pv1''))) (channel_of (get (snap_value s) (js ''pv2'')))
       (snap_status s) (grid_reading ''voltageV'' s) conf in
     El Section [(LabelledBy, js ''flow-title'')] []
       [El Div [] [] [El Paragraph [] [] [Txt (jsx ''Caminho da gera&ccedil;&atilde;o'')],
          El Heading [(Id, js ''flow-title'')] [] [Txt (jsx ''Do sol &agrave; rede el&eacute;trica'')]],
        El OrderedList [] []
          [El Item [] [] [sign, El Div [] [] (map (\<lambda>(t, d). flow_pair t d) (flow_channels f)), sign],
           El Item [] [] [sign, flow_pair (js ''Inversor'') (inverter_label f), sign],
           El Item [] [] [sign, flow_pair (js ''Rede CA'') (grid_voltage f)]],
        El Div [] []
          (only_if (unused_note f) [El Paragraph [] [] [Txt (jsx ''PV2 n&atilde;o utilizado'')]]
           @ (case installed_note f of None \<Rightarrow> [] | Some t \<Rightarrow> [El Paragraph [] [] [Txt t]]))])"

definition fault_title :: "live_snapshot \<Rightarrow> jsstring" where
  "fault_title s = (if has_fault s then js ''Falha informada pelo inversor'' else js ''Sistema operando normalmente'')"

definition HealthPanel :: "live_snapshot \<Rightarrow> 'e node" where
  "HealthPanel s = El Section [(LabelledBy, js ''health-title'')] []
     [El Div [] [] [sign, El Span [] [] [Txt (jsx ''Sa&uacute;de do sistema'')]],
      El Heading [(Id, js ''health-title'')] [] [Txt (fault_title s)],
      El Paragraph [] [] [Txt (if has_fault s
        then if faultCodes s \<noteq> []
          then jsx ''C&oacute;digos '' @ joinCodes (faultCodes s) @ jsx ''. A gera&ccedil;&atilde;o medida permanece vis&iacute;vel para diagn&oacute;stico.''
          else jsx ''O inversor n&atilde;o informou c&oacute;digos para esta falha.''
        else jsx ''O inversor n&atilde;o relata falhas ativas nesta leitura.'')]]"

section \<open>The weather\<close>

definition weatherLabels :: "(int \<times> jsstring) list" where
  "weatherLabels =
     [(0, jsx ''C&eacute;u limpo''), (1, js ''Poucas nuvens''), (2, js ''Parcialmente nublado''), (3, js ''Nublado''), (45, js ''Neblina''),
      (48, js ''Neblina com geada''), (51, js ''Garoa leve''), (53, js ''Garoa moderada''), (55, js ''Garoa forte''),
      (61, js ''Chuva moderada''), (63, js ''Chuva moderada''), (65, js ''Chuva forte''), (71, js ''Neve leve''), (73, js ''Neve moderada''),
      (75, js ''Neve forte''), (80, js ''Pancadas leves''), (81, js ''Pancadas moderadas''), (82, js ''Pancadas fortes''),
      (95, js ''Trovoada''), (96, js ''Trovoada com granizo''), (99, js ''Trovoada com granizo'')]"

definition weather_summary :: "jsnum option \<Rightarrow> jsstring" where
  "weather_summary code = (case code of None \<Rightarrow> jsx ''Condi&ccedil;&otilde;es atuais''
     | Some n \<Rightarrow> (case find (\<lambda>(c, l). n = Fin (of_int c)) weatherLabels of
         Some (c, l) \<Rightarrow> l | None \<Rightarrow> jsx ''Condi&ccedil;&otilde;es atuais''))"

text \<open>\<open>installedPowerW\<close> is derived by the server and may be missing.\<close>

definition installed_power :: "jsnum option \<Rightarrow> settings option \<Rightarrow> jsnum" where
  "installed_power derived conf = (case conf of None \<Rightarrow> Fin 0
     | Some c \<Rightarrow> or_else derived (jmul (s_panelCount c) (s_panelWattage c)))"

text \<open>The line of the age; a date that cannot be read gives \<open>NaN\<close>.\<close>

definition weather_age :: "(jsstring \<Rightarrow> int option) \<Rightarrow> int \<Rightarrow> component_health option \<Rightarrow> jsstring option" where
  "weather_age dparse now h = (case weather_updatedAt h of None \<Rightarrow> None
     | Some t \<Rightarrow> if t = [] then None else Some (jsx ''Atualizados h&aacute; '' @ (case dparse t of None \<Rightarrow> js ''NaN minutos.''
         | Some ms \<Rightarrow> (case ageCopy now (Some ms) of
             Some (HoursAgo n) \<Rightarrow> show_nat (nat n) @ (if n = 1 then js '' hora.'' else js '' horas.'')
           | Some (MinutesAgo n) \<Rightarrow> show_nat (nat n) @ js '' minutos.'' | None \<Rightarrow> []))))"

datatype now_event = RefetchLive | ShowNote | HideNote

definition solar_panel :: "(nat \<Rightarrow> jsnum \<Rightarrow> jsstring) \<Rightarrow> bool \<Rightarrow> jsnum option \<Rightarrow> jsnum \<Rightarrow> now_event node list" where
  "solar_panel digits note potential acPower = (case solar_comparison digits potential (potentialRatio potential acPower) of None \<Rightarrow> []
     | Some (p, r) \<Rightarrow> [El Div [] []
         ([El DescriptionList [] [] [definition_pair (js ''Potencial solar'') p, definition_pair (jsx ''Produ&ccedil;&atilde;o atual'') r],
           El Button (only_if note [(DescribedBy, js ''solar-model-note'')] @ [(AriaLabel, jsx ''Como este potencial &eacute; estimado''), (Type, js ''button'')])
             [(OnBlur, \<lambda>_. HideNote), (OnFocus, \<lambda>_. ShowNote), (OnMouseEnter, \<lambda>_. ShowNote), (OnMouseLeave, \<lambda>_. HideNote)] [sign]]
          @ only_if note [El Paragraph [(Id, js ''solar-model-note''), (Role, js ''tooltip'')] []
              [Txt (jsx ''Radia&ccedil;&atilde;o modelada para sua localiza&ccedil;&atilde;o. N&atilde;o mede o painel e n&atilde;o confirma falha isolada.'')]])])"

definition weather_list :: "jsstring list \<Rightarrow> 'e node" where
  "weather_list rs = El DescriptionList [] []
     (map (\<lambda>(t, d). definition_pair t d) (zip [js ''Chuva'', js ''Vento'', js ''Nuvens'', jsx ''Radia&ccedil;&atilde;o solar''] rs))"

definition WeatherContext :: "(nat \<Rightarrow> jsnum \<Rightarrow> jsstring) \<Rightarrow> (jsstring \<Rightarrow> int option) \<Rightarrow> int \<Rightarrow> bool \<Rightarrow> jsnum option \<Rightarrow> settings option
    \<Rightarrow> component_health option \<Rightarrow> live_snapshot \<Rightarrow> now_event node" where
  "WeatherContext digits dparse now note derived conf h s = El Section [(LabelledBy, js ''weather-title'')] []
     [sign,
      El Div [] []
        ([El Paragraph [] [] [Txt (jsx ''Contexto do c&eacute;u'')], El Heading [(Id, js ''weather-title'')] [] [Txt (weather_title digits h)]]
         @ (case weather_readings digits h of None \<Rightarrow> []
             | Some rs \<Rightarrow> [El Paragraph [] [] [Txt (weather_summary (Option.bind h weatherCode))], weather_list rs])
         @ solar_panel digits note (potentialPowerW (Option.bind h irradianceWM2) (installed_power derived conf)) (acPowerW s)
         @ (case weather_age dparse now h of None \<Rightarrow> [] | Some t \<Rightarrow> [El Paragraph [] [] [Txt t]])
         @ [El Paragraph [] [] [Txt (if weather_status h = js ''available'' then jsx ''Condi&ccedil;&otilde;es atuais para sua localiza&ccedil;&atilde;o.''
              else if weather_status h = js ''stale'' then jsx ''Confian&ccedil;a meteorol&oacute;gica reduzida''
              else jsx ''A gera&ccedil;&atilde;o ao vivo continua independente do servi&ccedil;o meteorol&oacute;gico.'')]])]"

section \<open>The page\<close>

text \<open>What the page is given beside the telemetry: the settings, the health of the components, the clock, the open note.\<close>

record now_data =
  n_settings :: "settings option"
  n_installed :: "jsnum option"
  n_health :: "component_health option"
  n_now :: int
  n_note :: bool

definition shown_update :: "telemetry \<Rightarrow> live_snapshot \<Rightarrow> jsstring option" where
  "shown_update t s = Some (or_else (Option.bind (query_data t) lastSuccess) (observedAt s))"

definition NowView :: "live_formats \<Rightarrow> (nat \<Rightarrow> jsnum \<Rightarrow> jsstring) \<Rightarrow> (jsstring \<Rightarrow> jsstring) \<Rightarrow> (jsstring \<Rightarrow> int option)
    \<Rightarrow> now_data \<Rightarrow> telemetry \<Rightarrow> now_event node" where
  "NowView F digits show_time dparse a t = (case NowPage t of
       LoadingView \<Rightarrow> El Section [(Busy, js ''true''), (AriaLabel, js ''Carregando telemetria ao vivo'')] []
         [El Paragraph [] [] [Txt (jsx ''Buscando a leitura mais recente&hellip;'')], El Div [] [] [], El Div [] [] []]
     | EmptyView \<Rightarrow> El Section [] []
         [El Heading [] [] [Txt (jsx ''A leitura do inversor ainda n&atilde;o chegou.'')],
          El Paragraph [] [] [Txt (jsx ''O Helio continuar&aacute; tentando se reconectar sem substituir a aus&ecirc;ncia por zero.'')],
          El Button [(Type, js ''button'')] [(OnClick, \<lambda>_. RefetchLive)] [Txt (js ''Buscar novamente'')]]
     | ReadingView s \<Rightarrow> El Article [] []
         [HeroPower F show_time s (shown_update t s), MetricStripView digits s, PVFlowView F digits s (n_settings a),
          El Div [] [] [HealthPanel s, WeatherContext digits dparse (n_now a) (n_note a) (n_installed a) (n_settings a) (n_health a) s]])"

fun note_step :: "bool \<Rightarrow> now_event \<Rightarrow> bool" where
  "note_step n ShowNote = True"
| "note_step n HideNote = False"
| "note_step n RefetchLive = n"

section \<open>The page refers to what it has\<close>

lemma pair_ids [simp]: "ids (definition_pair t d) = []" "references (definition_pair t d) = []" "inputs_named ls inside (definition_pair t d)"
  "ids (flow_pair t d) = []" "references (flow_pair t d) = []" "inputs_named ls inside (flow_pair t d)"
  by (simp_all add: definition_pair_def flow_pair_def listed_simps)

lemma sign_ids [simp]: "ids sign = []" "references sign = []" "inputs_named ls inside sign"
  by (simp_all add: sign_def listed_simps)

lemma pairs_ids [simp]: "concat (map (ids \<circ> (\<lambda>(t, d). definition_pair t d)) xs) = []"
  "concat (map (references \<circ> (\<lambda>(t, d). definition_pair t d)) xs) = []"
  "list_all (inputs_named ls inside \<circ> (\<lambda>(t, d). definition_pair t d)) xs"
  "concat (map (ids \<circ> (\<lambda>(t, d). flow_pair t d)) xs) = []"
  "concat (map (references \<circ> (\<lambda>(t, d). flow_pair t d)) xs) = []"
  "list_all (inputs_named ls inside \<circ> (\<lambda>(t, d). flow_pair t d)) xs"
  by (induction xs) (simp_all add: split_beta)

lemma hero_ids [simp]: "ids (HeroPower F show_time s u) = [js ''power-now'']" "references (HeroPower F show_time s u) = [js ''power-now'']"
  "inputs_named ls inside (HeroPower F show_time s u)"
  by (simp_all add: HeroPower_def listed_simps js_tokens)

lemma metric_ids [simp]: "ids (MetricStripView digits s) = []" "references (MetricStripView digits s) = []"
  "inputs_named ls inside (MetricStripView digits s)"
  by (simp_all add: MetricStripView_def listed_simps list.pred_map)

lemma flow_ids [simp]: "ids (PVFlowView F digits s conf) = [js ''flow-title'']" "references (PVFlowView F digits s conf) = [js ''flow-title'']"
  "inputs_named ls inside (PVFlowView F digits s conf)"
  by (cases conf; simp add: PVFlowView_def PVFlow_def Let_def listed_simps js_tokens only_if_def)+

lemma health_ids [simp]: "ids (HealthPanel s) = [js ''health-title'']" "references (HealthPanel s) = [js ''health-title'']"
  "inputs_named ls inside (HealthPanel s)"
  by (simp_all add: HealthPanel_def listed_simps js_tokens)

lemma weather_list_ids [simp]: "ids (weather_list rs) = []" "references (weather_list rs) = []" "inputs_named ls inside (weather_list rs)"
  by (simp_all add: weather_list_def listed_simps list.pred_map)

definition has_note :: "(nat \<Rightarrow> jsnum \<Rightarrow> jsstring) \<Rightarrow> bool \<Rightarrow> jsnum option \<Rightarrow> jsnum \<Rightarrow> bool" where
  "has_note digits note potential acPower \<longleftrightarrow> note \<and> solar_comparison digits potential (potentialRatio potential acPower) \<noteq> None"

lemma solar_ids [simp]:
  "concat (map ids (solar_panel digits note p ac)) = only_if (has_note digits note p ac) [js ''solar-model-note'']"
  "concat (map references (solar_panel digits note p ac)) = only_if (has_note digits note p ac) [js ''solar-model-note'']"
  "list_all (inputs_named ls inside) (solar_panel digits note p ac)"
  by (cases "solar_comparison digits p (potentialRatio p ac)"; cases "note";
      simp add: solar_panel_def has_note_def listed_simps js_tokens split_beta)+

lemma weather_ids [simp]:
  "ids (WeatherContext digits dparse now note derived conf h s) = js ''weather-title'' # only_if
     (has_note digits note (potentialPowerW (Option.bind h irradianceWM2) (installed_power derived conf)) (acPowerW s)) [js ''solar-model-note'']"
  "references (WeatherContext digits dparse now note derived conf h s) = js ''weather-title'' # only_if
     (has_note digits note (potentialPowerW (Option.bind h irradianceWM2) (installed_power derived conf)) (acPowerW s)) [js ''solar-model-note'']"
  "inputs_named ls inside (WeatherContext digits dparse now note derived conf h s)"
  by (cases "weather_readings digits h"; cases "weather_age dparse now h"; simp add: WeatherContext_def listed_simps js_tokens)+

lemma now_page_ok: "page_ok (NowView F digits show_time dparse a t)"
  by (cases "NowPage t") (auto simp: NowView_def page_ok_def listed_simps js_inj only_if_def)

section \<open>What the page shows\<close>

text \<open>A term of the readings of the weather.\<close>

definition names_rain :: "'e node \<Rightarrow> bool" where
  "names_rain n \<longleftrightarrow> list_ex (\<lambda>e. tag_of e = Some Term \<and> text_content e = js ''Chuva'') (elements n)"

lemma rain_simps [simp]: "names_rain (Txt s) = False"
  "names_rain (El g as hs ns) = (g = Term \<and> concat (map text_content ns) = js ''Chuva'' \<or> list_ex names_rain ns)"
  by (auto simp: names_rain_def list_ex_iff)

lemma rain_pair [simp]: "names_rain (definition_pair k d) = (k = js ''Chuva'')" "\<not> names_rain (flow_pair k d)" "\<not> names_rain sign"
  by (simp_all add: definition_pair_def flow_pair_def sign_def)

lemma rain_pairs [simp]: "list_ex (names_rain \<circ> (\<lambda>(k, d). definition_pair k d)) xs = (js ''Chuva'' \<in> fst ` set xs)"
  "\<not> list_ex (names_rain \<circ> (\<lambda>(k, d). flow_pair k d)) xs"
  by (induction xs) auto

lemma rain_cards [simp]: "\<not> names_rain (HeroPower F show_time s u)" "\<not> names_rain (MetricStripView digits s)"
  "\<not> names_rain (PVFlowView F digits s conf)" "\<not> names_rain (HealthPanel s)"
  "\<not> list_ex names_rain (solar_panel digits b p ac)" "names_rain (weather_list (r # rs))"
proof -
  have other: "jsx ''Desde a instala&ccedil;&atilde;o'' \<noteq> js ''Chuva''" "jsx ''Produ&ccedil;&atilde;o atual'' \<noteq> js ''Chuva''"
    by code_simp+
  show "\<not> names_rain (HeroPower F show_time s u)" using other by (simp add: HeroPower_def js_inj)
  show "\<not> names_rain (MetricStripView digits s)" by (auto simp: MetricStripView_def MetricStrip_def js_def)
  show "\<not> names_rain (PVFlowView F digits s conf)" by (cases conf) (simp_all add: PVFlowView_def PVFlow_def Let_def only_if_def)
  show "\<not> names_rain (HealthPanel s)" by (simp add: HealthPanel_def)
  show "\<not> list_ex names_rain (solar_panel digits b p ac)" using other
    by (cases "solar_comparison digits p (potentialRatio p ac)"; cases b) (simp_all add: solar_panel_def split_beta js_inj)
  show "names_rain (weather_list (r # rs))" by (simp add: weather_list_def)
qed

lemma rain_shown: "NowPage t = ReadingView s \<Longrightarrow>
    names_rain (NowView F digits show_time dparse a t) = (map_option weather (n_health a) = Some (js ''available''))"
proof -
  assume t: "NowPage t = ReadingView s"
  have readings: "(weather_readings digits h = None) = (map_option weather h \<noteq> Some (js ''available''))" for h
    by (cases h) (auto simp: weather_readings_def weather_status_def js_inj)
  have rain: "weather_readings digits h = Some rs \<Longrightarrow> names_rain (weather_list rs)" for h rs
    by (auto simp: weather_readings_def split: if_splits)
  show ?thesis
    by (cases "weather_readings digits (n_health a)"; cases "weather_age dparse (n_now a) (n_health a)")
      (use readings [of "n_health a"] rain [of "n_health a"] in \<open>auto simp: NowView_def t WeatherContext_def\<close>)
qed

text \<open>
  C34. The live page shows what the telemetry holds and nothing else: in every state it is well formed;
  without a snapshot it shows neither a power, not even zero, nor a state of the system; with one its
  heading is the power of that snapshot, it reports a fault exactly when the inverter gives the status or
  a code of one, and it lists readings of the weather exactly when the server calls the weather available.
\<close>

theorem now_page_shows:
  "let page = NowView F digits show_time dparse a t in page_ok page
    \<and> (case current_snapshot t of
        None \<Rightarrow> get_by_id (js ''power-now'') page = None \<and> get_by_id (js ''health-title'') page = None \<and> \<not> names_rain page
      | Some s \<Rightarrow> map_option text_content (get_by_id (js ''power-now'') page) = Some (formatPower F (acPowerW s))
          \<and> map_option text_content (get_by_id (js ''health-title'') page) = Some
              (if faultCodes s = [] \<and> snap_status s \<noteq> js ''fault'' then js ''Sistema operando normalmente''
               else js ''Falha informada pelo inversor'')
          \<and> names_rain page = (map_option weather (n_health a) = Some (js ''available'')))"
proof (cases "current_snapshot t")
  case None
  then have "NowPage t = LoadingView \<or> NowPage t = EmptyView" by (simp add: NowPage_def)
  then have "ids (NowView F digits show_time dparse a t) = []" "\<not> names_rain (NowView F digits show_time dparse a t)"
    by (auto simp: NowView_def names_rain_def)
  then show ?thesis using None now_page_ok [of F digits show_time dparse a t]
    by (simp add: id_absent Let_def)
next
  case (Some s)
  let ?page = "NowView F digits show_time dparse a t"
  have reading: "NowPage t = ReadingView s" using Some by (simp add: NowPage_def)
  have ok: "page_ok ?page" by (rule now_page_ok)
  then have once: "distinct (ids ?page)" by (simp add: page_ok_def)
  have "\<exists>e \<in> set (elements ?page). attr_of Id e = Some (js ''power-now'') \<and> text_content e = formatPower F (acPowerW s)"
    by (simp add: NowView_def reading HeroPower_def bex_elements del: elements.simps)
  then have power: "map_option text_content (get_by_id (js ''power-now'') ?page) = Some (formatPower F (acPowerW s))"
    using get_by_id_found [OF once] by force
  have "\<exists>e \<in> set (elements ?page). attr_of Id e = Some (js ''health-title'') \<and> text_content e = fault_title s"
    by (simp add: NowView_def reading HealthPanel_def bex_elements del: elements.simps)
  then have health: "map_option text_content (get_by_id (js ''health-title'') ?page) = Some (fault_title s)"
    using get_by_id_found [OF once] by force
  show ?thesis using Some ok power health by (auto simp: Let_def fault_title_def has_fault_def rain_shown reading)
qed

end
