(* ===== verification/Spec2Isabelle.thy ===== *)
theory Spec2Isabelle
  imports RelayApp HistoryMarkup InsightsView SettingsView FinanceView ShellView NowView
begin

text \<open>
  Helio watches a domestic solar inverter. Its JavaScript and TypeScript code has two programs: the
  Alexa relay (\<open>src/integrations/alexa-relay/src\<close>), a small server that receives signed readings,
  keeps the newest one on disk and pushes it to Alexa devices; and the web application
  (\<open>src/web\<close>), which shows live readings and history and edits the installation. This
  development models the logic of both and proves what makes it correct.

  The language. Strings are lists of 16-bit code units (\<open>Prelude\<close>, \<open>JsText\<close>); numbers are binary64
  values with their rounding (\<open>JsNumber\<close>), printed and read as the language does (\<open>JsShow\<close>: the
  shortest digits that read back, seventeen at most, which is proved enough); values of
  \<open>JSON.parse\<close> are \<open>jsval\<close> (\<open>JsValue\<close>); the calendar of \<open>Date\<close> is \<open>Calendar\<close>; UTF-8 and
  percent encoding are \<open>JsUri\<close>. A thrown error is a value of a sum type, an \<open>undefined\<close> result an
  option.

  The relay.
  \<open>RelayState\<close> models \<open>state.js\<close>: the data, the write queue, every outcome of a file system call, and
  restarts. \<open>RelayIngest\<close> models the route \<open>POST /ingest\<close> of \<open>app.js\<close>: signature, validation,
  update, answer. \<open>RelayScheduler\<close> models \<open>pushScheduler\<close>, two flags and an asynchronous loop.
  \<open>RelaySkill\<close> models the Alexa handlers and the checks of \<open>server.js\<close>. \<open>RelayClient\<close> models
  \<open>alexa-client.js\<close>: the cached token, retries and batches over a script of network outcomes.
  \<open>RelayApp\<close> models \<open>createApp\<close>: the routes with their headers and error answers, and the machine in
  which requests that wait for their writes, the skill and the callbacks of the scheduler interleave
  over one state. An accepted reading goes from the route to the state and from there, through the
  scheduler, to the client; this theory closes with a property of that last step.

  The web application (\<open>features\<close> and \<open>components\<close> are directories of \<open>src/web/src\<close>).
  \<open>HistoryRange\<close> and \<open>HistoryView\<close> model \<open>features/history/history-model.ts\<close>: local periods of a
  time zone, and chart segments, summaries and rows. \<open>HistoryPage\<close> models \<open>HistoryPage.tsx\<close> and
  \<open>PeriodPicker.tsx\<close>: requests, views and the period in the address bar and the session history.
  \<open>Insights\<close> models \<open>features/insights\<close>: the day that is asked for, views and conclusions. \<open>Live\<close> models
  \<open>api/live-events.ts\<close> and \<open>features/live\<close>: validation, the merge of states and the state of the
  connection. \<open>Display\<close> models what the cards, the chart's tooltip and the tables print. \<open>Forms\<close> models
  \<open>features/onboarding/schema.ts\<close> and \<open>features/settings/settings-model.ts\<close>; \<open>FormsCorrect\<close>
  proves their properties. \<open>Wizard\<close>, \<open>SettingsEditor\<close>, \<open>Login\<close>, \<open>Finance\<close> and \<open>Panels\<close> model
  \<open>OnboardingWizard.tsx\<close>, \<open>SettingsPage.tsx\<close>, \<open>LoginForm.tsx\<close>, \<open>features/finance\<close> and the panels of
  \<open>features/settings\<close> as machines over user events and answers. \<open>ApiClient\<close> models
  \<open>api/client.ts\<close>, \<open>api/queries.ts\<close> and the retry policy; \<open>AuthGate\<close> models \<open>app/auth-gate.ts\<close>,
  \<open>routes/__root.tsx\<close> and the shell, and \<open>LoginReturn\<close> composes the places that send a user to the
  login page with the page that sends him back, over the round trip of percent encoding
  (\<open>UriCorrect\<close>); \<open>Theme\<close> models \<open>theme-init.js\<close>, \<open>app/theme.tsx\<close> and
  \<open>ThemeToggle.tsx\<close>. \<open>Markup\<close> models what a component renders, as a tree of elements with attributes,
  texts and handlers that send events to the machines; \<open>Steps\<close> models \<open>features/onboarding/steps.tsx\<close>,
  and \<open>WizardView\<close> and \<open>SettingsView\<close> the pages of \<open>OnboardingWizard.tsx\<close> and of
  \<open>features/settings\<close>, over the machines of \<open>Wizard\<close>, \<open>SettingsEditor\<close>, \<open>Panels\<close> and \<open>Theme\<close>.
  \<open>ShellView\<close> models the frame of \<open>components/layout\<close> with the menu of the theme, and the access
  pages; \<open>NowView\<close>, \<open>HistoryMarkup\<close>, \<open>InsightsView\<close> and \<open>FinanceView\<close> model the pages of
  \<open>features/live\<close>, \<open>features/history\<close>, \<open>features/insights\<close> and \<open>features/finance\<close>.

  Asynchronous components are step functions over events, so that an interleaving is a list of
  events; the locale \<open>event_machine\<close> of \<open>Prelude\<close> states once what an invariant gives for every run,
  and each machine interprets it on its own step function. The contracts between components are
  locales too: \<open>date_parser\<close> (what the relay needs of dates), \<open>snapshot_dates\<close> (of the dates of
  snapshots), \<open>time_zone\<close> (of a time zone: offsets of whole seconds, below a day), \<open>search_params\<close> (of
  the text of search parameters) and \<open>browser_urls\<close> (of the URL parser at an origin with a host); each
  is interpreted on the model's definitions. The zones are Sao Paulo with its changes of 2017 to 2019,
  one of which skips a midnight, New York and Beirut in 2024; how near to a change of offset the search
  for a midnight works is a condition on the single day, \<open>clear_day\<close>, which Beirut's last of March 2024
  does not meet and the other days named do.

  What the lemmas show. Of the state: crash safety, newest reading wins, bounds of the devices. Of
  the route: nothing changes without a fresh, correctly signed, valid request. Of the scheduler: one
  push at a time, every request followed by a push of the current data, and rest. Of the relay as a
  whole: an accepted reading reaches every registered device. Of the client:
  every device served, requests bounded, tokens reused only while valid. Of the history: periods
  partition time near clear days, the page refines a browser history of ranges whose entries it keeps as text;
  segments lose no point and rows keep the last one of each time; summaries are bounded; the insights page asks for the day the
  history page calls previous. Of the live page: nothing goes back in time as long as the server's
  answers do not, silence shows. Of the forms: the two validators agree up to blanks around the tariff,
  what they accept is within the bounds they check (\<open>settings_ok\<close>; the server has more rules), the
  settings form is a round trip, amounts of money are sent exactly as typed. Of the machines: no invalid or doubled
  request, no change of the logger without a confirmed password, no login during the server's wait,
  no bill without an approved tariff. Of the pages: they are well formed in every reachable state,
  they show each error of their machine tied to the input of its field, and typing changes exactly the field that
  is typed into; an open theme menu has one option in the tab order; the history, the insights and the
  live page show what the server gave, each reading, gap and alert once; what the finance page does not
  offer is not done, and what it offers has its effect or an alert that says why not. Of access:
  redirects settle and name paths of the origin, no shell without a confirmed session in any state, a
  login leads back to where the user was, the token goes with exactly the requests that change something.

  Bounds. Nothing depends on fuel: recursion is structural or has a measure; the search for the
  digits of a number stops at seventeen, and \<open>digits_at_17\<close> proves that it has succeeded by then.
  Hypotheses state documented behaviour of third-party code or the range in which a result is
  claimed, and every property with one has a witness at concrete values.

  Not modelled. The Go backend is another language. Express, the rate limiters, the Alexa SDK, React,
  React Query, \<open>Intl\<close>, HMAC, \<open>fetch\<close>, \<open>URLSearchParams\<close> as a parser and the URL parser are third-party:
  they appear as parameters or as events. The markup of all pages is modelled, as a tree of elements
  (\<open>Markup\<close>); styles, icons, keyboard hints, the drawing of the chart, generated routes, the mounting of
  the application and log lines hold no logic that could be stated. Where a browser would stop an event
  (the submission of a form with an empty \<open>required\<close> input) the model has more runs than the program;
  a restart of the relay finds its directory and can read its file, and a press of the mouse on an
  option of the theme menu is its click. The projection of the finance page
  is formatted by the server and printed as it comes.
\<close>

section \<open>The relay as a whole\<close>

text \<open>
  C31. A push of the relay's state is one batch: whatever file the relay starts from and whatever
  happened since, pushing the current snapshot to the current devices makes at most four requests,
  and its commands go only to valid device identifiers of the list.
\<close>

theorem relay_push_one_batch:
  "\<exists>news. sent (snd (push I (get_snapshot (data (store_run dp (boot f t) es)))
        (get_devices (data (store_run dp (boot f t) es))) c)) = sent c @ news
     \<and> length news \<le> 4
     \<and> list_all (\<lambda>q. list_all (\<lambda>s. validDeviceId (JStr s)) (command_devices q)) news"
proof -
  define d where "d = data (store_run dp (boot f t) es)"
  have ok: "devices_ok d" unfolding d_def by (rule store_run_devices_ok)
  obtain r c' where go: "push I (get_snapshot d) (get_devices d) c = (r, c')" by force
  show ?thesis
  proof (cases "\<not> truthy (get_snapshot d) \<or> get_devices d = [] \<or> \<not> configured c")
    case True
    then show ?thesis unfolding d_def [symmetric] by (intro exI [of _ "[]"]) (simp add: push_def)
  next
    case False
    with go have "push_batches I (get_snapshot d) (get_devices d) 0 0 c = (r, c')" by (simp add: push_def)
    from push_batches_requests [OF this] obtain news where news: "sent c' = sent c @ news"
      "length news \<le> 4 * ((length (get_devices d) + 19) div 20)"
      "list_all (\<lambda>q. length (command_devices q) \<le> 20 \<and> set (command_devices q) \<subseteq> set (get_devices d)) news"
      by blast
    have "(length (get_devices d) + 19) div 20 \<le> 39 div 20"
      using ok by (intro div_le_mono) (simp add: devices_ok_def get_devices_def)
    with news(2) have "length news \<le> 4" by simp
    moreover have "list_all (\<lambda>q. list_all (\<lambda>s. validDeviceId (JStr s)) (command_devices q)) news"
      using news(3) ok by (fastforce simp: list_all_iff devices_ok_def get_devices_def)
    ultimately show ?thesis using news(1) go unfolding d_def [symmetric] by (intro exI [of _ news]) simp
  qed
qed

end
